theory Spec2Isabelle
  imports Main "HOL-Library.Sublist" "HOL-Library.Char_ord" "HOL-Library.List_Lexorder"
    "HOL-Library.Product_Lexorder"
begin

section \<open>JavaScript values and primitives used by the matching service\<close>

text \<open>
  The rule catalog stores each rule's \<open>conditions\<close> as JSONB and the service reads it as
  \<open>any\<close>. A condition document is therefore an arbitrary JSON value. Numbers are modelled
  as mathematical integers (fractions, double rounding and exponent notation are outside the
  model). An object is an association list; JSONB keeps keys unique, and a lookup takes the
  first binding.
\<close>

datatype json =
    JNull
  | JBool bool
  | JNum int
  | JStr string
  | JArr "json list"
  | JObj "(string \<times> json) list"

text \<open>The exceptions that can leave \<open>matchRules\<close>.\<close>

datatype error =
    TypeError      \<comment> \<open>calling \<open>.trim()\<close> on a value that is not a string, or converting an
                       object that has no callable \<open>toString\<close> to a string or a number\<close>
  | RangeError     \<comment> \<open>\<open>toISOString\<close> of an invalid date\<close>
  | QueryFailed    \<comment> \<open>the catalog query rejected\<close>

text \<open>Property read \<open>conditions.key\<close>: \<open>None\<close> stands for \<open>undefined\<close>. None of the keys
  the service reads is a property of a string, a number, a boolean or an array.\<close>

fun jget :: "json \<Rightarrow> string \<Rightarrow> json option" where
  "jget (JObj kvs) k = map_of kvs k"
| "jget _ k = None"

text \<open>\<open>!v\<close> for a JSON value.\<close>

fun falsy :: "json \<Rightarrow> bool" where
  "falsy JNull = True"
| "falsy (JBool b) = (\<not> b)"
| "falsy (JNum n) = (n = 0)"
| "falsy (JStr s) = (s = [])"
| "falsy (JArr xs) = False"
| "falsy (JObj kvs) = False"

text \<open>\<open>Object.keys(v).length\<close> for a truthy JSON value: the own enumerable string keys.\<close>

fun keys_length :: "json \<Rightarrow> nat" where
  "keys_length (JObj kvs) = length kvs"
| "keys_length (JArr xs) = length xs"
| "keys_length (JStr s) = length s"
| "keys_length _ = 0"

subsection \<open>Strings\<close>

text \<open>Characters are bytes. \<open>trim\<close> and the case conversions are modelled on ASCII: the
  model is exact for strings of ASCII characters, and leaves every other byte as it is (the
  white space and the letters beyond ASCII are outside the model).\<close>

definition is_space :: "char \<Rightarrow> bool" where
  "is_space c = (c \<in> set [CHR 0x09, CHR 0x0A, CHR 0x0B, CHR 0x0C, CHR 0x0D, CHR '' ''])"

definition trim :: "string \<Rightarrow> string" where
  "trim s = rev (dropWhile is_space (rev (dropWhile is_space s)))"

definition upper_char :: "char \<Rightarrow> char" where
  "upper_char c = (let n = (of_char c :: nat) in if 97 \<le> n \<and> n \<le> 122 then char_of (n - 32) else c)"

definition lower_char :: "char \<Rightarrow> char" where
  "lower_char c = (let n = (of_char c :: nat) in if 65 \<le> n \<and> n \<le> 90 then char_of (n + 32) else c)"

definition toUpperCase :: "string \<Rightarrow> string" where
  "toUpperCase s = map upper_char s"

definition toLowerCase :: "string \<Rightarrow> string" where
  "toLowerCase s = map lower_char s"

text \<open>Decimal rendering of a number inside a template string (exact for the integers a double
  holds, below 1000000000000000000000 in magnitude, where the exponent notation begins).\<close>

definition digit_char :: "nat \<Rightarrow> char" where
  "digit_char d = char_of (48 + d)"

fun show_nat :: "nat \<Rightarrow> string" where
  "show_nat n = (if n < 10 then [digit_char n] else show_nat (n div 10) @ [digit_char (n mod 10)])"

declare show_nat.simps [simp del]

definition show_int :: "int \<Rightarrow> string" where
  "show_int i = (if i < 0 then CHR ''-'' # show_nat (nat (- i)) else show_nat (nat i))"

text \<open>\<open>xs.join(sep)\<close> on strings.\<close>

fun join :: "string \<Rightarrow> string list \<Rightarrow> string" where
  "join sep [] = []"
| "join sep [x] = x"
| "join sep (x # y # ys) = x @ sep @ join sep (y # ys)"

subsection \<open>Normalisation helpers of the service\<close>

text \<open>\<open>normalizeStr(s) = (s ?? "").trim()\<close> at its declared type \<open>string | null | undefined\<close>.\<close>

definition normalizeStr :: "string option \<Rightarrow> string" where
  "normalizeStr s = trim (case s of None \<Rightarrow> [] | Some x \<Rightarrow> x)"

definition normState :: "string option \<Rightarrow> string" where
  "normState s = toUpperCase (normalizeStr s)"

definition normCity :: "string option \<Rightarrow> string" where
  "normCity s = toLowerCase (normalizeStr s)"

definition lc :: "string option \<Rightarrow> string" where
  "lc s = toLowerCase (normalizeStr s)"

text \<open>
  The evaluator also calls these helpers on elements of condition arrays, which it casts to
  \<open>string[]\<close> without a check. At run time \<open>null\<close> takes the \<open>?? ""\<close> branch, a string is
  trimmed, and any other value has no \<open>trim\<close> method: the call throws a \<open>TypeError\<close>.
\<close>

fun as_str_arg :: "json \<Rightarrow> error + string option" where
  "as_str_arg JNull = Inr None"
| "as_str_arg (JStr s) = Inr (Some s)"
| "as_str_arg _ = Inl TypeError"

text \<open>\<open>xs.map(f)\<close> where \<open>f\<close> may throw: the first throw ends the map.\<close>

fun map_throw :: "('a \<Rightarrow> error + 'b) \<Rightarrow> 'a list \<Rightarrow> error + 'b list" where
  "map_throw f [] = Inr []"
| "map_throw f (x # xs) =
     (case f x of Inl e \<Rightarrow> Inl e
      | Inr y \<Rightarrow> (case map_throw f xs of Inl e \<Rightarrow> Inl e | Inr ys \<Rightarrow> Inr (y # ys)))"

definition norm_any :: "(string option \<Rightarrow> string) \<Rightarrow> json \<Rightarrow> error + string" where
  "norm_any f v = (case as_str_arg v of Inl e \<Rightarrow> Inl e | Inr s \<Rightarrow> Inr (f s))"

text \<open>\<open>hasAny(a, b)\<close>: both non-empty and some element of \<open>b\<close> is in the set built from \<open>a\<close>.\<close>

definition hasAny :: "'a list \<Rightarrow> 'a list \<Rightarrow> bool" where
  "hasAny a b = (if a = [] \<or> b = [] then False else (\<exists>x \<in> set b. x \<in> set a))"

text \<open>A JavaScript \<open>Set\<close> of strings keeps insertion order and ignores a repeated \<open>add\<close>.\<close>

definition Set_add :: "'a list \<Rightarrow> 'a \<Rightarrow> 'a list" where
  "Set_add xs x = (if x \<in> set xs then xs else xs @ [x])"


section \<open>The validated business profile (\<open>Payload\<close>)\<close>

text \<open>The enumerations of the form schema, each with the string it is at run time.\<close>

datatype State = NY | CA | OH
datatype LocationType = Store | Office | Warehouse | Home
datatype RevenueBand = RevLt100k | Rev100kTo1M | Rev1MTo5M | RevGe5M
datatype LegalStructure = LLC | Corp | SCorp | SoleProp | Nonprofit
datatype AlcoholType = Beer | Wine | Spirits
datatype PayrollFreq = Weekly | Biweekly | Semimonthly | Monthly
datatype DataVolumeBand = VolLt50k | Vol50kTo100k | VolGe100k
datatype AlcoholSalesContext = OnPremise | OffPremise | Both
datatype MinorsAges = Under16 | Age16To17
datatype TippedPercentBand = TipLt20 | Tip20To50 | TipGt50
datatype NumLocations = One | TwoToFour | FivePlus

fun State_str :: "State \<Rightarrow> string" where
  "State_str NY = ''NY''" | "State_str CA = ''CA''" | "State_str OH = ''OH''"

fun LocationType_str :: "LocationType \<Rightarrow> string" where
  "LocationType_str Store = ''store''" | "LocationType_str Office = ''office''"
| "LocationType_str Warehouse = ''warehouse''" | "LocationType_str Home = ''home''"

fun RevenueBand_str :: "RevenueBand \<Rightarrow> string" where
  "RevenueBand_str RevLt100k = ''<100k''" | "RevenueBand_str Rev100kTo1M = ''100k-1M''"
| "RevenueBand_str Rev1MTo5M = ''1M-5M''" | "RevenueBand_str RevGe5M = ''>=5M''"

fun LegalStructure_str :: "LegalStructure \<Rightarrow> string" where
  "LegalStructure_str LLC = ''LLC''" | "LegalStructure_str Corp = ''Corp''"
| "LegalStructure_str SCorp = ''S-Corp''" | "LegalStructure_str SoleProp = ''SoleProp''"
| "LegalStructure_str Nonprofit = ''Nonprofit''"

fun AlcoholType_str :: "AlcoholType \<Rightarrow> string" where
  "AlcoholType_str Beer = ''beer''" | "AlcoholType_str Wine = ''wine''"
| "AlcoholType_str Spirits = ''spirits''"

fun PayrollFreq_str :: "PayrollFreq \<Rightarrow> string" where
  "PayrollFreq_str Weekly = ''weekly''" | "PayrollFreq_str Biweekly = ''biweekly''"
| "PayrollFreq_str Semimonthly = ''semimonthly''" | "PayrollFreq_str Monthly = ''monthly''"

fun DataVolumeBand_str :: "DataVolumeBand \<Rightarrow> string" where
  "DataVolumeBand_str VolLt50k = ''<50k''" | "DataVolumeBand_str Vol50kTo100k = ''50k-100k''"
| "DataVolumeBand_str VolGe100k = ''>=100k''"

fun AlcoholSalesContext_str :: "AlcoholSalesContext \<Rightarrow> string" where
  "AlcoholSalesContext_str OnPremise = ''on-premise''"
| "AlcoholSalesContext_str OffPremise = ''off-premise''"
| "AlcoholSalesContext_str Both = ''both''"

fun MinorsAges_str :: "MinorsAges \<Rightarrow> string" where
  "MinorsAges_str Under16 = ''<16''" | "MinorsAges_str Age16To17 = ''16-17''"

fun TippedPercentBand_str :: "TippedPercentBand \<Rightarrow> string" where
  "TippedPercentBand_str TipLt20 = ''<20%''" | "TippedPercentBand_str Tip20To50 = ''20-50%''"
| "TippedPercentBand_str TipGt50 = ''>50%''"

fun NumLocations_str :: "NumLocations \<Rightarrow> string" where
  "NumLocations_str One = ''1''" | "NumLocations_str TwoToFour = ''2-4''"
| "NumLocations_str FivePlus = ''5+''"

text \<open>
  \<open>Payload\<close> is the type inferred from \<open>BusinessFormSchema\<close>: a field with a default is
  always present, an \<open>.optional()\<close> field may be \<open>undefined\<close> (\<open>None\<close>). \<open>employeesTotal\<close>
  is a non-negative integer, so \<open>Number.isFinite\<close> holds of it.
\<close>

record Payload =
  businessName :: string
  industry :: string
  state :: State
  city :: string
  county :: "string option"
  zip :: "string option"
  naicsCode :: "string option"
  naicsTitle :: "string option"
  employeesTotal :: nat
  numLocations :: "NumLocations option"
  businessStartDate :: "string option"
  firstEmployeeHireDate :: "string option"
  hasPhysicalLocation :: bool
  publicFacingPremises :: bool
  locationType :: "LocationType option"
  multiState :: bool
  otherStates :: "State list"
  hasRemoteEmployees :: bool
  remoteEmployeeStates :: "State list"
  handlesFood :: bool
  sellsAlcohol :: bool
  hazardousMaterials :: bool
  commercialVehicles :: bool
  hasCDLDrivers :: bool
  acceptsCardPayments :: bool
  collectsCustomerData :: bool
  tippedWorkers :: bool
  tippedPercentBand :: "TippedPercentBand option"
  employsMinors :: bool
  minorsAges :: "MinorsAges list"
  usesContractors1099 :: bool
  sellsTaxable :: bool
  salesStates :: "State list"
  onlineOnly :: bool
  onlineMarketplace :: bool
  revenueBand :: "RevenueBand option"
  legalStructure :: "LegalStructure option"
  hasEIN :: bool
  onSitePrep :: bool
  seatingOnPrem :: bool
  meatDairy :: bool
  alcoholType :: "AlcoholType option"
  alcoholSalesContext :: "AlcoholSalesContext option"
  serverTrainingPlanned :: bool
  handlesPHI :: bool
  childrenUnder13 :: bool
  collectsFromCA :: bool
  collectsFromOtherStates :: "State list"
  dataVolumeBand :: "DataVolumeBand option"
  sellsOrSharesData :: bool
  usesBiometrics :: bool
  usesRefrigerants :: bool
  usesSolvents :: bool
  trucksOver10kInterstate :: bool
  usesForklifts :: bool
  publicFacingSite :: bool
  hasWebsiteOrApp :: bool
  payrollFrequency :: "PayrollFreq option"
  offersHealth :: bool
  offers401k :: bool
  usesPEO :: bool
  firstSaleDate :: "string option"
  firstPayrollDate :: "string option"
  leaseDate :: "string option"

section \<open>The evaluation context\<close>

text \<open>The object \<open>buildCtx\<close> returns; its fields carry the prefix \<open>ctx_\<close> here because a
  record field name is a global constant.\<close>

record Ctx =
  ctx_raw :: Payload
  ctx_state :: string
  ctx_city :: string
  ctx_statesArr :: "string list"
  ctx_citiesArr :: "string list"
  ctx_industry :: string
  ctx_industryLc :: string
  ctx_employeesTotal :: nat
  ctx_requiresFood :: bool
  ctx_requiresAlcohol :: bool
  ctx_alcoholType :: "AlcoholType option"
  ctx_alcoholSalesContext :: "AlcoholSalesContext option"
  ctx_onSitePrep :: bool
  ctx_seatingOnPrem :: bool
  ctx_meatDairy :: bool
  ctx_employsMinors :: bool
  ctx_minorsAges :: "string list"
  ctx_tippedWorkers :: bool
  ctx_tippedPercentBand :: "TippedPercentBand option"
  ctx_usesContractors1099 :: bool
  ctx_commercialVehicles :: bool
  ctx_hasCDLDrivers :: bool
  ctx_trucksOver10kInterstate :: bool
  ctx_usesForklifts :: bool
  ctx_hazardousMaterials :: bool
  ctx_collectsCustomerData :: bool
  ctx_handlesPHI :: bool
  ctx_childrenUnder13 :: bool
  ctx_collectsFromCA :: bool
  ctx_collectsFromOtherStates :: "string list"
  ctx_dataVolumeBand :: "DataVolumeBand option"
  ctx_sellsOrSharesData :: bool
  ctx_usesBiometrics :: bool
  ctx_revenueBand :: "RevenueBand option"
  ctx_legalStructure :: "LegalStructure option"
  ctx_payrollFrequency :: "PayrollFreq option"
  ctx_numLocations :: "NumLocations option"
  ctx_publicFacingSite :: bool
  ctx_hasWebsiteOrApp :: bool
  ctx_acceptsCardPayments :: bool

text \<open>The footprint loop \<open>for (const s of xs) statesSet.add(normState(s))\<close>.\<close>

definition add_states :: "string list \<Rightarrow> State list \<Rightarrow> string list" where
  "add_states acc xs = foldl (\<lambda>a s. Set_add a (normState (Some (State_str s)))) acc xs"

definition statesArr_of :: "Payload \<Rightarrow> string list" where
  "statesArr_of p =
     (let s0 = [normState (Some (State_str (state p)))];
          s1 = add_states s0 (otherStates p);
          s2 = add_states s1 (remoteEmployeeStates p);
          s3 = add_states s2 (salesStates p);
          s4 = (if collectsFromCA p then Set_add s3 ''CA'' else s3);
          s5 = add_states s4 (collectsFromOtherStates p)
      in s5)"

definition buildCtx :: "Payload \<Rightarrow> Ctx" where
  "buildCtx p = \<lparr>
     ctx_raw = p,
     ctx_state = normState (Some (State_str (state p))),
     ctx_city = normCity (Some (city p)),
     ctx_statesArr = statesArr_of p,
     ctx_citiesArr = filter (\<lambda>s. s \<noteq> []) [normCity (Some (city p))],
     ctx_industry = normalizeStr (Some (industry p)),
     ctx_industryLc = lc (Some (industry p)),
     ctx_employeesTotal = employeesTotal p,
     ctx_requiresFood = (handlesFood p \<or> onSitePrep p \<or> meatDairy p),
     ctx_requiresAlcohol = (sellsAlcohol p \<or> alcoholType p \<noteq> None),
     ctx_alcoholType = alcoholType p,
     ctx_alcoholSalesContext = alcoholSalesContext p,
     ctx_onSitePrep = onSitePrep p,
     ctx_seatingOnPrem = seatingOnPrem p,
     ctx_meatDairy = meatDairy p,
     ctx_employsMinors = employsMinors p,
     ctx_minorsAges = map MinorsAges_str (minorsAges p),
     ctx_tippedWorkers = tippedWorkers p,
     ctx_tippedPercentBand = tippedPercentBand p,
     ctx_usesContractors1099 = usesContractors1099 p,
     ctx_commercialVehicles = commercialVehicles p,
     ctx_hasCDLDrivers = hasCDLDrivers p,
     ctx_trucksOver10kInterstate = trucksOver10kInterstate p,
     ctx_usesForklifts = usesForklifts p,
     ctx_hazardousMaterials = hazardousMaterials p,
     ctx_collectsCustomerData = collectsCustomerData p,
     ctx_handlesPHI = handlesPHI p,
     ctx_childrenUnder13 = childrenUnder13 p,
     ctx_collectsFromCA = collectsFromCA p,
     ctx_collectsFromOtherStates = map (\<lambda>s. normState (Some (State_str s))) (collectsFromOtherStates p),
     ctx_dataVolumeBand = dataVolumeBand p,
     ctx_sellsOrSharesData = sellsOrSharesData p,
     ctx_usesBiometrics = usesBiometrics p,
     ctx_revenueBand = revenueBand p,
     ctx_legalStructure = legalStructure p,
     ctx_payrollFrequency = payrollFrequency p,
     ctx_numLocations = numLocations p,
     ctx_publicFacingSite = publicFacingSite p,
     ctx_hasWebsiteOrApp = hasWebsiteOrApp p,
     ctx_acceptsCardPayments = acceptsCardPayments p \<rparr>"

section \<open>The condition evaluator\<close>

record EvalResult =
  ok :: bool
  reasons :: "string list"

text \<open>
  \<open>evalConditions\<close> is a sequence of guarded blocks, one per recognised key (the \<open>for\<close> loops
  run the same block for each key of a fixed list). A block whose guard is false does
  nothing; otherwise it either returns \<open>{ ok: false, reasons: [] }\<close> at once, or pushes one
  reason, or throws inside a helper. The outcome of one block:
\<close>

datatype outcome = Skip | Reject | Pass string | Raise error

text \<open>The blocks run in order on the growing \<open>reasons\<close> array; the final \<open>return\<close> supplies a
  default reason when none was pushed.\<close>

fun run :: "outcome list \<Rightarrow> string list \<Rightarrow> error + EvalResult" where
  "run [] rs = Inr \<lparr>ok = True, reasons = (if rs \<noteq> [] then rs else [''Meets rule conditions.''])\<rparr>"
| "run (Skip # os) rs = run os rs"
| "run (Reject # os) rs = Inr \<lparr>ok = False, reasons = []\<rparr>"
| "run (Pass r # os) rs = run os (rs @ [r])"
| "run (Raise e # os) rs = Inl e"

text \<open>The UTF-8 bytes of the signs U+2265 and U+2264 in the two threshold reasons.\<close>

definition ge_sign :: string where "ge_sign = [CHR 0xE2, CHR 0x89, CHR 0xA5]"
definition le_sign :: string where "le_sign = [CHR 0xE2, CHR 0x89, CHR 0xA4]"

text \<open>1) employees\<close>

definition step_employeesMin :: "json \<Rightarrow> Ctx \<Rightarrow> outcome" where
  "step_employeesMin c ctx =
     (case jget c ''employeesMin'' of
        Some (JNum n) \<Rightarrow>
          if int (ctx_employeesTotal ctx) < n then Reject
          else Pass (''Meets minimum employees threshold (have '' @ show_nat (ctx_employeesTotal ctx)
                     @ '' '' @ ge_sign @ '' '' @ show_int n @ '').'')
      | _ \<Rightarrow> Skip)"

definition step_employeesMax :: "json \<Rightarrow> Ctx \<Rightarrow> outcome" where
  "step_employeesMax c ctx =
     (case jget c ''employeesMax'' of
        Some (JNum n) \<Rightarrow>
          if int (ctx_employeesTotal ctx) > n then Reject
          else Pass (''Within maximum employees threshold (have '' @ show_nat (ctx_employeesTotal ctx)
                     @ '' '' @ le_sign @ '' '' @ show_int n @ '').'')
      | _ \<Rightarrow> Skip)"

text \<open>2) industry (case-insensitive)\<close>

definition step_industry :: "json \<Rightarrow> Ctx \<Rightarrow> outcome" where
  "step_industry c ctx =
     (case jget c ''industry'' of
        Some (JArr xs) \<Rightarrow>
          if xs = [] then Skip
          else (case map_throw (norm_any lc) xs of
                  Inl e \<Rightarrow> Raise e
                | Inr allowed \<Rightarrow>
                    if ctx_industryLc ctx \<notin> set allowed then Reject
                    else Pass (''Industry matches ('' @ ctx_industry ctx @ '').''))
      | _ \<Rightarrow> Skip)"

text \<open>3) derived operational flags: the guard is \<open>=== true\<close>\<close>

definition step_requiresFood :: "json \<Rightarrow> Ctx \<Rightarrow> outcome" where
  "step_requiresFood c ctx =
     (if jget c ''requiresFood'' = Some (JBool True)
      then (if \<not> ctx_requiresFood ctx then Reject else Pass ''Handles food / on-site prep.'')
      else Skip)"

definition step_requiresAlcohol :: "json \<Rightarrow> Ctx \<Rightarrow> outcome" where
  "step_requiresAlcohol c ctx =
     (if jget c ''requiresAlcohol'' = Some (JBool True)
      then (if \<not> ctx_requiresAlcohol ctx then Reject else Pass ''Sells alcohol.'')
      else Skip)"

text \<open>
  4) The blocks for \<open>alcoholType\<close>, \<open>alcoholSalesContext\<close>, \<open>tippedPercentBand\<close> and
  \<open>dataVolumeBand\<close> have one shape: guard \<open>Array.isArray(cond) && cond.length\<close>, then reject
  when the context value is falsy (\<open>undefined\<close> or the empty string) or \<open>cond.includes\<close> fails.
\<close>

definition allow_step :: "string \<Rightarrow> string option \<Rightarrow> (string \<Rightarrow> string) \<Rightarrow> json \<Rightarrow> outcome" where
  "allow_step key v msg c =
     (case jget c key of
        Some (JArr xs) \<Rightarrow>
          if xs = [] then Skip
          else (case v of
                  None \<Rightarrow> Reject
                | Some s \<Rightarrow> if s = [] \<or> JStr s \<notin> set xs then Reject else Pass (msg s))
      | _ \<Rightarrow> Skip)"

definition step_alcoholType :: "json \<Rightarrow> Ctx \<Rightarrow> outcome" where
  "step_alcoholType c ctx =
     allow_step ''alcoholType'' (map_option AlcoholType_str (ctx_alcoholType ctx))
       (\<lambda>s. ''Alcohol type allowed ('' @ s @ '').'') c"

definition step_alcoholSalesContext :: "json \<Rightarrow> Ctx \<Rightarrow> outcome" where
  "step_alcoholSalesContext c ctx =
     allow_step ''alcoholSalesContext'' (map_option AlcoholSalesContext_str (ctx_alcoholSalesContext ctx))
       (\<lambda>s. ''Alcohol sales context matches ('' @ s @ '').'') c"

text \<open>5) location limits\<close>

definition step_cities :: "json \<Rightarrow> Ctx \<Rightarrow> outcome" where
  "step_cities c ctx =
     (case jget c ''cities'' of
        Some (JArr xs) \<Rightarrow>
          if xs = [] then Skip
          else (case map_throw (norm_any normCity) xs of
                  Inl e \<Rightarrow> Raise e
                | Inr allowed \<Rightarrow>
                    if \<not> hasAny allowed (ctx_citiesArr ctx) then Reject
                    else Pass ''City explicitly included.'')
      | _ \<Rightarrow> Skip)"

text \<open>6) minors / tipped\<close>

definition step_employsMinors :: "json \<Rightarrow> Ctx \<Rightarrow> outcome" where
  "step_employsMinors c ctx =
     (case jget c ''employsMinors'' of
        Some (JBool b) \<Rightarrow>
          if ctx_employsMinors ctx \<noteq> b then Reject
          else Pass (if ctx_employsMinors ctx then ''Employs minors.'' else ''Does not employ minors.'')
      | _ \<Rightarrow> Skip)"

text \<open>\<open>hasAny\<close> builds a \<open>Set\<close> of the condition's elements and asks it for each context string:
  a string is found exactly when the array holds that string.\<close>

definition step_minorsAges :: "json \<Rightarrow> Ctx \<Rightarrow> outcome" where
  "step_minorsAges c ctx =
     (case jget c ''minorsAges'' of
        Some (JArr xs) \<Rightarrow>
          if xs = [] then Skip
          else if \<not> hasAny xs (map JStr (ctx_minorsAges ctx)) then Reject
          else Pass ''Minor age range matches.''
      | _ \<Rightarrow> Skip)"

definition step_tippedWorkers :: "json \<Rightarrow> Ctx \<Rightarrow> outcome" where
  "step_tippedWorkers c ctx =
     (case jget c ''tippedWorkers'' of
        Some (JBool b) \<Rightarrow>
          if ctx_tippedWorkers ctx \<noteq> b then Reject
          else Pass (if ctx_tippedWorkers ctx then ''Has tipped workers.'' else ''No tipped workers.'')
      | _ \<Rightarrow> Skip)"

definition step_tippedPercentBand :: "json \<Rightarrow> Ctx \<Rightarrow> outcome" where
  "step_tippedPercentBand c ctx =
     allow_step ''tippedPercentBand'' (map_option TippedPercentBand_str (ctx_tippedPercentBand ctx))
       (\<lambda>s. ''Tipped share matches ('' @ s @ '').'') c"

text \<open>\<open>(ctx as any)[key]\<close> for the keys of the three boolean loops; \<open>None\<close> is \<open>undefined\<close>.\<close>

definition ctx_flag :: "Ctx \<Rightarrow> string \<Rightarrow> bool option" where
  "ctx_flag ctx key =
     (if key = ''commercialVehicles'' then Some (ctx_commercialVehicles ctx)
      else if key = ''hasCDLDrivers'' then Some (ctx_hasCDLDrivers ctx)
      else if key = ''trucksOver10kInterstate'' then Some (ctx_trucksOver10kInterstate ctx)
      else if key = ''usesForklifts'' then Some (ctx_usesForklifts ctx)
      else if key = ''hazardousMaterials'' then Some (ctx_hazardousMaterials ctx)
      else if key = ''collectsCustomerData'' then Some (ctx_collectsCustomerData ctx)
      else if key = ''handlesPHI'' then Some (ctx_handlesPHI ctx)
      else if key = ''childrenUnder13'' then Some (ctx_childrenUnder13 ctx)
      else if key = ''collectsFromCA'' then Some (ctx_collectsFromCA ctx)
      else if key = ''sellsOrSharesData'' then Some (ctx_sellsOrSharesData ctx)
      else if key = ''usesBiometrics'' then Some (ctx_usesBiometrics ctx)
      else if key = ''onSitePrep'' then Some (ctx_onSitePrep ctx)
      else if key = ''seatingOnPrem'' then Some (ctx_seatingOnPrem ctx)
      else if key = ''meatDairy'' then Some (ctx_meatDairy ctx)
      else if key = ''publicFacingSite'' then Some (ctx_publicFacingSite ctx)
      else if key = ''hasWebsiteOrApp'' then Some (ctx_hasWebsiteOrApp ctx)
      else if key = ''acceptsCardPayments'' then Some (ctx_acceptsCardPayments ctx)
      else None)"

text \<open>The body of the loops 7), 8) and 10); \<open>yes\<close> is the word used when the condition is
  \<open>true\<close> (\<open>Requires\<close> or \<open>Has\<close>).\<close>

definition flag_step :: "string \<Rightarrow> json \<Rightarrow> Ctx \<Rightarrow> string \<Rightarrow> outcome" where
  "flag_step yes c ctx key =
     (case jget c key of
        Some (JBool b) \<Rightarrow>
          if ctx_flag ctx key \<noteq> Some b then Reject
          else Pass ((if b then yes else ''No'') @ '' '' @ key @ ''.'')
      | _ \<Rightarrow> Skip)"

definition transport_keys :: "string list" where
  "transport_keys = [''commercialVehicles'', ''hasCDLDrivers'', ''trucksOver10kInterstate'',
                     ''usesForklifts'', ''hazardousMaterials'']"

definition privacy_keys :: "string list" where
  "privacy_keys = [''collectsCustomerData'', ''handlesPHI'', ''childrenUnder13'', ''collectsFromCA'',
                   ''sellsOrSharesData'', ''usesBiometrics'']"

definition facility_keys :: "string list" where
  "facility_keys = [''onSitePrep'', ''seatingOnPrem'', ''meatDairy'', ''publicFacingSite'',
                    ''hasWebsiteOrApp'', ''acceptsCardPayments'']"

text \<open>8) privacy / data, after the loop\<close>

definition step_collectsFromOtherStates :: "json \<Rightarrow> Ctx \<Rightarrow> outcome" where
  "step_collectsFromOtherStates c ctx =
     (case jget c ''collectsFromOtherStates'' of
        Some (JArr xs) \<Rightarrow>
          if xs = [] then Skip
          else (case map_throw (norm_any normState) xs of
                  Inl e \<Rightarrow> Raise e
                | Inr want \<Rightarrow>
                    if \<not> (\<exists>s \<in> set (ctx_collectsFromOtherStates ctx). s \<in> set want) then Reject
                    else Pass ''Collects data from specified states.'')
      | _ \<Rightarrow> Skip)"

definition step_dataVolumeBand :: "json \<Rightarrow> Ctx \<Rightarrow> outcome" where
  "step_dataVolumeBand c ctx =
     allow_step ''dataVolumeBand'' (map_option DataVolumeBand_str (ctx_dataVolumeBand ctx))
       (\<lambda>s. ''Data volume band matches ('' @ s @ '').'') c"

text \<open>9) structure / payroll: \<open>(ctx as any)[val] ?? ""\<close> is looked up in the array.\<close>

definition ctx_band :: "Ctx \<Rightarrow> string \<Rightarrow> string option" where
  "ctx_band ctx val =
     (if val = ''revenueBand'' then map_option RevenueBand_str (ctx_revenueBand ctx)
      else if val = ''legalStructure'' then map_option LegalStructure_str (ctx_legalStructure ctx)
      else if val = ''payrollFrequency'' then map_option PayrollFreq_str (ctx_payrollFrequency ctx)
      else if val = ''numLocations'' then map_option NumLocations_str (ctx_numLocations ctx)
      else None)"

definition structure_keys :: "(string \<times> string) list" where
  "structure_keys = [(''revenueBand'', ''revenueBand''), (''legalStructure'', ''legalStructure''),
                     (''payrollFrequency'', ''payrollFrequency''), (''numLocations'', ''numLocations'')]"

definition structure_step :: "json \<Rightarrow> Ctx \<Rightarrow> string \<times> string \<Rightarrow> outcome" where
  "structure_step c ctx kv =
     (case jget c (fst kv) of
        Some (JArr xs) \<Rightarrow>
          if xs = [] then Skip
          else if JStr (case ctx_band ctx (snd kv) of None \<Rightarrow> [] | Some s \<Rightarrow> s) \<notin> set xs then Reject
          else Pass (fst kv @ '' matches.'')
      | _ \<Rightarrow> Skip)"

text \<open>All blocks in source order.\<close>

definition steps :: "json \<Rightarrow> Ctx \<Rightarrow> outcome list" where
  "steps c ctx =
     [step_employeesMin c ctx, step_employeesMax c ctx,
      step_industry c ctx,
      step_requiresFood c ctx, step_requiresAlcohol c ctx,
      step_alcoholType c ctx, step_alcoholSalesContext c ctx,
      step_cities c ctx,
      step_employsMinors c ctx, step_minorsAges c ctx,
      step_tippedWorkers c ctx, step_tippedPercentBand c ctx]
     @ map (flag_step ''Requires'' c ctx) transport_keys
     @ map (flag_step ''Has'' c ctx) privacy_keys
     @ [step_collectsFromOtherStates c ctx, step_dataVolumeBand c ctx]
     @ map (structure_step c ctx) structure_keys
     @ map (flag_step ''Has'' c ctx) facility_keys"

definition evalConditions :: "json \<Rightarrow> Ctx \<Rightarrow> error + EvalResult" where
  "evalConditions conditions ctx =
     (if falsy conditions \<or> keys_length conditions = 0
      then Inr \<lparr>ok = True, reasons = [''Applies generally (no extra conditions).'']\<rparr>
      else run (steps conditions ctx) [])"

text \<open>\<open>defaultBusinessForm\<close> of the schema module, used as the base of concrete profiles.\<close>

definition defaultBusinessForm :: Payload where
  "defaultBusinessForm = \<lparr>
     businessName = '''', industry = ''Restaurant'', state = NY, city = '''',
     county = None, zip = None, naicsCode = None, naicsTitle = None,
     employeesTotal = 0, numLocations = None,
     businessStartDate = None, firstEmployeeHireDate = None,
     hasPhysicalLocation = True, publicFacingPremises = False, locationType = Some Store,
     multiState = False, otherStates = [], hasRemoteEmployees = False, remoteEmployeeStates = [],
     handlesFood = False, sellsAlcohol = False, hazardousMaterials = False,
     commercialVehicles = False, hasCDLDrivers = False, acceptsCardPayments = False,
     collectsCustomerData = False,
     tippedWorkers = False, tippedPercentBand = None, employsMinors = False, minorsAges = [],
     usesContractors1099 = False,
     sellsTaxable = False, salesStates = [], onlineOnly = False, onlineMarketplace = False,
     revenueBand = None, legalStructure = Some LLC, hasEIN = False,
     onSitePrep = False, seatingOnPrem = False, meatDairy = False,
     alcoholType = None, alcoholSalesContext = None, serverTrainingPlanned = False,
     handlesPHI = False, childrenUnder13 = False, collectsFromCA = False,
     collectsFromOtherStates = [], dataVolumeBand = None, sellsOrSharesData = False,
     usesBiometrics = False,
     usesRefrigerants = False, usesSolvents = False, trucksOver10kInterstate = False,
     usesForklifts = False,
     publicFacingSite = False, hasWebsiteOrApp = False,
     payrollFrequency = None, offersHealth = False, offers401k = False, usesPEO = False,
     firstSaleDate = None, firstPayrollDate = None, leaseDate = None \<rparr>"

section \<open>Dates\<close>

text \<open>
  \<open>computeDueDate\<close> uses the built-in \<open>Date\<close>. Its time values are integers of milliseconds
  since the epoch, or \<open>NaN\<close> (\<open>None\<close>) for an invalid date. The calendar functions are those
  of the ECMAScript specification (Day, DayFromYear, YearFromTime, MonthFromTime,
  DateFromTime, MakeDay, MakeDate, TimeClip).
\<close>

definition msPerDay :: int where "msPerDay = 86400000"

definition Day :: "int \<Rightarrow> int" where "Day t = t div msPerDay"

definition TimeWithinDay :: "int \<Rightarrow> int" where "TimeWithinDay t = t mod msPerDay"

definition DaysInYear :: "int \<Rightarrow> int" where
  "DaysInYear y =
     (if y mod 4 \<noteq> 0 then 365 else if y mod 100 \<noteq> 0 then 366
      else if y mod 400 \<noteq> 0 then 365 else 366)"

definition DayFromYear :: "int \<Rightarrow> int" where
  "DayFromYear y = 365 * (y - 1970) + (y - 1969) div 4 - (y - 1901) div 100 + (y - 1601) div 400"

text \<open>
  YearFromTime is specified as the largest year whose first day is not after the given day.
  It is computed by a search upwards from a year that is certainly not too large.
\<close>

function year_search :: "int \<Rightarrow> int \<Rightarrow> int" where
  "year_search day y = (if DayFromYear (y + 1) \<le> day then year_search day (y + 1) else y)"
  by pat_completeness auto
termination
  by (relation "measure (\<lambda>(day, y). nat (day + 1 - DayFromYear (y + 1)))")
     (auto simp: DayFromYear_def)

declare year_search.simps [simp del]

definition YearFromDay :: "int \<Rightarrow> int" where
  "YearFromDay day = year_search day (1970 + (if 0 \<le> day then day div 366 else day div 365))"

definition YearFromTime :: "int \<Rightarrow> int" where
  "YearFromTime t = YearFromDay (Day t)"

definition InLeapYear :: "int \<Rightarrow> int" where
  "InLeapYear t = (if DaysInYear (YearFromTime t) = 366 then 1 else 0)"

definition DayWithinYear :: "int \<Rightarrow> int" where
  "DayWithinYear t = Day t - DayFromYear (YearFromTime t)"

text \<open>The first day (within the year) of month \<open>m\<close> (0 to 11), \<open>L\<close> being 1 in a leap year.\<close>

definition month_start :: "int \<Rightarrow> int \<Rightarrow> int" where
  "month_start m L =
     (if m = 0 then 0 else if m = 1 then 31 else if m = 2 then 59 + L
      else if m = 3 then 90 + L else if m = 4 then 120 + L else if m = 5 then 151 + L
      else if m = 6 then 181 + L else if m = 7 then 212 + L else if m = 8 then 243 + L
      else if m = 9 then 273 + L else if m = 10 then 304 + L else 334 + L)"

definition month_of_yday :: "int \<Rightarrow> int \<Rightarrow> int" where
  "month_of_yday d L =
     (if d < 31 then 0 else if d < 59 + L then 1 else if d < 90 + L then 2
      else if d < 120 + L then 3 else if d < 151 + L then 4 else if d < 181 + L then 5
      else if d < 212 + L then 6 else if d < 243 + L then 7 else if d < 273 + L then 8
      else if d < 304 + L then 9 else if d < 334 + L then 10 else 11)"

definition MonthFromTime :: "int \<Rightarrow> int" where
  "MonthFromTime t = month_of_yday (DayWithinYear t) (InLeapYear t)"

definition DateFromTime :: "int \<Rightarrow> int" where
  "DateFromTime t = DayWithinYear t - month_start (MonthFromTime t) (InLeapYear t) + 1"

definition MakeDay :: "int \<Rightarrow> int \<Rightarrow> int \<Rightarrow> int" where
  "MakeDay year month date =
     (let ym = year + month div 12; mn = month mod 12
      in DayFromYear ym + month_start mn (if DaysInYear ym = 366 then 1 else 0) + date - 1)"

definition MakeDate :: "int \<Rightarrow> int \<Rightarrow> int" where
  "MakeDate day time = day * msPerDay + time"

definition TimeClip :: "int \<Rightarrow> int option" where
  "TimeClip t = (if \<bar>t\<bar> > 8640000000000000 then None else Some t)"

text \<open>\<open>d.getUTCDate()\<close> and \<open>d.setUTCDate(dt)\<close> on a time value; both keep \<open>NaN\<close>.\<close>

definition getUTCDate :: "int option \<Rightarrow> int option" where
  "getUTCDate d = map_option DateFromTime d"

definition setUTCDate :: "int option \<Rightarrow> int option \<Rightarrow> int option" where
  "setUTCDate d dt =
     (case d of None \<Rightarrow> None
      | Some t \<Rightarrow>
          (case dt of None \<Rightarrow> None
           | Some n \<Rightarrow> TimeClip (MakeDate (MakeDay (YearFromTime t) (MonthFromTime t) n)
                                           (TimeWithinDay t))))"

subsection \<open>Formatting\<close>

definition pad2 :: "int \<Rightarrow> string" where
  "pad2 n = [digit_char (nat (n div 10 mod 10)), digit_char (nat (n mod 10))]"

definition pad3 :: "int \<Rightarrow> string" where
  "pad3 n = digit_char (nat (n div 100 mod 10)) # pad2 n"

definition pad4 :: "int \<Rightarrow> string" where
  "pad4 n = digit_char (nat (n div 1000 mod 10)) # pad3 n"

definition pad6 :: "int \<Rightarrow> string" where
  "pad6 n = digit_char (nat (n div 100000 mod 10)) # digit_char (nat (n div 10000 mod 10)) # pad4 n"

text \<open>Years 0 to 9999 print with four digits; any other year prints with a sign and six
  digits.\<close>

definition year_text :: "int \<Rightarrow> string" where
  "year_text y =
     (if 0 \<le> y \<and> y \<le> 9999 then pad4 y
      else (if y < 0 then ''-'' else ''+'') @ pad6 \<bar>y\<bar>)"

definition iso_text :: "int \<Rightarrow> string" where
  "iso_text t =
     year_text (YearFromTime t) @ ''-'' @ pad2 (MonthFromTime t + 1) @ ''-'' @ pad2 (DateFromTime t)
     @ ''T'' @ pad2 (TimeWithinDay t div 3600000) @ '':'' @ pad2 (TimeWithinDay t div 60000 mod 60)
     @ '':'' @ pad2 (TimeWithinDay t div 1000 mod 60) @ ''.'' @ pad3 (TimeWithinDay t mod 1000)
     @ ''Z''"

text \<open>\<open>d.toISOString()\<close> throws a \<open>RangeError\<close> on an invalid date.\<close>

definition toISOString :: "int option \<Rightarrow> error + string" where
  "toISOString d = (case d of None \<Rightarrow> Inl RangeError | Some t \<Rightarrow> Inr (iso_text t))"

subsection \<open>What the engine decides\<close>

text \<open>
  Some built-in behaviour is left to the engine or is too large to model; it is a parameter,
  and every general theorem below holds for all its values.
  \<^item> \<open>StringToNumber\<close>: \<open>Number(s)\<close> for a string; \<open>None\<close> stands for a result that is not
    finite.
  \<^item> \<open>lenient_day\<close>: whether a day of month up to 31 is accepted in every month and carried
    into the next month (as V8 does) or rejected.
  \<^item> \<open>parse_fallback\<close>: the time value given to a string that is not of the form
    \<open>YYYY-MM-DDT00:00:00Z\<close>.
  \<^item> \<open>builtin_text\<close>: the text of a member inherited from \<open>Object.prototype\<close>.
\<close>

record js_engine =
  StringToNumber :: "string \<Rightarrow> int option"
  lenient_day :: bool
  parse_fallback :: "string \<Rightarrow> int option"
  builtin_text :: "string \<Rightarrow> string"

definition is_digit :: "char \<Rightarrow> bool" where
  "is_digit c = (48 \<le> (of_char c :: nat) \<and> (of_char c :: nat) \<le> 57)"

definition digits_val :: "string \<Rightarrow> int" where
  "digits_val s = foldl (\<lambda>a c. 10 * a + (int (of_char c) - 48)) 0 s"

definition iso_ymd :: "string \<Rightarrow> (int \<times> int \<times> int) option" where
  "iso_ymd s =
     (if length s = 20 \<and> drop 10 s = ''T00:00:00Z'' \<and> s ! 4 = CHR ''-'' \<and> s ! 7 = CHR ''-''
         \<and> list_all is_digit (take 4 s) \<and> list_all is_digit (take 2 (drop 5 s))
         \<and> list_all is_digit (take 2 (drop 8 s))
      then Some (digits_val (take 4 s), digits_val (take 2 (drop 5 s)), digits_val (take 2 (drop 8 s)))
      else None)"

definition DaysInMonth :: "int \<Rightarrow> int \<Rightarrow> int" where
  "DaysInMonth y m =
     (if m = 2 then (if DaysInYear y = 366 then 29 else 28)
      else if m = 4 \<or> m = 6 \<or> m = 9 \<or> m = 11 then 30 else 31)"

text \<open>\<open>new Date(s)\<close>: month 01 to 12, day 01 to 31 (or to the length of the month), the
  time of day being midnight UTC.\<close>

definition Date_parse :: "js_engine \<Rightarrow> string \<Rightarrow> int option" where
  "Date_parse eng s =
     Option.bind
       (case iso_ymd s of
          None \<Rightarrow> parse_fallback eng s
        | Some (y, m, d) \<Rightarrow>
            if 1 \<le> m \<and> m \<le> 12 \<and> 1 \<le> d \<and> d \<le> (if lenient_day eng then 31 else DaysInMonth y m)
            then Some (MakeDate (MakeDay y (m - 1) d) 0)
            else None)
       TimeClip"

subsection \<open>Conversions\<close>

text \<open>
  \<open>String(v)\<close>, as used for a property key and by \<open>+\<close> with a string. For an object or an
  array the conversion goes through \<open>ToPrimitive\<close>, which calls the value's \<open>toString\<close>:
  \<^item> an array inherits \<open>Array.prototype.toString\<close>, which joins the conversions of its
    elements with commas, \<open>null\<close> giving the empty string;
  \<^item> an object without an own key \<open>toString\<close> inherits \<open>Object.prototype.toString\<close>, which
    returns \<open>[object Object]\<close>;
  \<^item> an object with an own key \<open>toString\<close> holds a JSON value there, which is not callable;
    \<open>valueOf\<close> (own and not callable, or inherited and returning the object itself) gives
    no primitive either, and the conversion throws a \<open>TypeError\<close>.
\<close>

fun to_str :: "json \<Rightarrow> error + string"
  and to_str_elems :: "json list \<Rightarrow> error + string list" where
  "to_str JNull = Inr ''null''"
| "to_str (JBool b) = Inr (if b then ''true'' else ''false'')"
| "to_str (JNum n) = Inr (show_int n)"
| "to_str (JStr s) = Inr s"
| "to_str (JArr xs) = (case to_str_elems xs of Inl e \<Rightarrow> Inl e | Inr ss \<Rightarrow> Inr (join '','' ss))"
| "to_str (JObj kvs) =
     (if map_of kvs ''toString'' \<noteq> None then Inl TypeError else Inr ''[object Object]'')"
| "to_str_elems [] = Inr []"
| "to_str_elems (x # xs) =
     (case (if x = JNull then Inr [] else to_str x) of
        Inl e \<Rightarrow> Inl e
      | Inr s \<Rightarrow> (case to_str_elems xs of Inl e \<Rightarrow> Inl e | Inr ss \<Rightarrow> Inr (s # ss)))"

text \<open>\<open>Number(v)\<close>; \<open>None\<close> stands for a result that is not finite. An object or an array is
  first converted to a primitive, which is the string above (\<open>valueOf\<close> gives no primitive), or
  the same \<open>TypeError\<close>.\<close>

fun to_number :: "js_engine \<Rightarrow> json \<Rightarrow> error + int option" where
  "to_number eng JNull = Inr (Some 0)"
| "to_number eng (JBool b) = Inr (Some (if b then 1 else 0))"
| "to_number eng (JNum n) = Inr (Some n)"
| "to_number eng (JStr s) = Inr (StringToNumber eng s)"
| "to_number eng v = (case to_str v of Inl e \<Rightarrow> Inl e | Inr s \<Rightarrow> Inr (StringToNumber eng s))"

section \<open>The due date\<close>

text \<open>What \<open>(payload as any)[key]\<close> can be: \<open>undefined\<close>, a value of a profile field, or a
  member inherited from \<open>Object.prototype\<close>.\<close>

datatype jsval = Undefined | Val json | Builtin string

definition object_prototype_members :: "string list" where
  "object_prototype_members =
     [''constructor'', ''__defineGetter__'', ''__defineSetter__'', ''hasOwnProperty'',
      ''__lookupGetter__'', ''__lookupSetter__'', ''isPrototypeOf'', ''propertyIsEnumerable'',
      ''toString'', ''valueOf'', ''__proto__'', ''toLocaleString'']"

definition opt_field :: "('a \<Rightarrow> string) \<Rightarrow> 'a option \<Rightarrow> jsval" where
  "opt_field f v = (case v of None \<Rightarrow> Undefined | Some x \<Rightarrow> Val (JStr (f x)))"

definition states_field :: "State list \<Rightarrow> jsval" where
  "states_field xs = Val (JArr (map (\<lambda>s. JStr (State_str s)) xs))"

definition payload_fields :: "Payload \<Rightarrow> (string \<times> jsval) list" where
  "payload_fields p =
     [(''businessName'', Val (JStr (businessName p))),
      (''industry'', Val (JStr (industry p))),
      (''state'', Val (JStr (State_str (state p)))),
      (''city'', Val (JStr (city p))),
      (''county'', opt_field id (county p)),
      (''zip'', opt_field id (zip p)),
      (''naicsCode'', opt_field id (naicsCode p)),
      (''naicsTitle'', opt_field id (naicsTitle p)),
      (''employeesTotal'', Val (JNum (int (employeesTotal p)))),
      (''numLocations'', opt_field NumLocations_str (numLocations p)),
      (''businessStartDate'', opt_field id (businessStartDate p)),
      (''firstEmployeeHireDate'', opt_field id (firstEmployeeHireDate p)),
      (''hasPhysicalLocation'', Val (JBool (hasPhysicalLocation p))),
      (''publicFacingPremises'', Val (JBool (publicFacingPremises p))),
      (''locationType'', opt_field LocationType_str (locationType p)),
      (''multiState'', Val (JBool (multiState p))),
      (''otherStates'', states_field (otherStates p)),
      (''hasRemoteEmployees'', Val (JBool (hasRemoteEmployees p))),
      (''remoteEmployeeStates'', states_field (remoteEmployeeStates p)),
      (''handlesFood'', Val (JBool (handlesFood p))),
      (''sellsAlcohol'', Val (JBool (sellsAlcohol p))),
      (''hazardousMaterials'', Val (JBool (hazardousMaterials p))),
      (''commercialVehicles'', Val (JBool (commercialVehicles p))),
      (''hasCDLDrivers'', Val (JBool (hasCDLDrivers p))),
      (''acceptsCardPayments'', Val (JBool (acceptsCardPayments p))),
      (''collectsCustomerData'', Val (JBool (collectsCustomerData p))),
      (''tippedWorkers'', Val (JBool (tippedWorkers p))),
      (''tippedPercentBand'', opt_field TippedPercentBand_str (tippedPercentBand p)),
      (''employsMinors'', Val (JBool (employsMinors p))),
      (''minorsAges'', Val (JArr (map (\<lambda>a. JStr (MinorsAges_str a)) (minorsAges p)))),
      (''usesContractors1099'', Val (JBool (usesContractors1099 p))),
      (''sellsTaxable'', Val (JBool (sellsTaxable p))),
      (''salesStates'', states_field (salesStates p)),
      (''onlineOnly'', Val (JBool (onlineOnly p))),
      (''onlineMarketplace'', Val (JBool (onlineMarketplace p))),
      (''revenueBand'', opt_field RevenueBand_str (revenueBand p)),
      (''legalStructure'', opt_field LegalStructure_str (legalStructure p)),
      (''hasEIN'', Val (JBool (hasEIN p))),
      (''onSitePrep'', Val (JBool (onSitePrep p))),
      (''seatingOnPrem'', Val (JBool (seatingOnPrem p))),
      (''meatDairy'', Val (JBool (meatDairy p))),
      (''alcoholType'', opt_field AlcoholType_str (alcoholType p)),
      (''alcoholSalesContext'', opt_field AlcoholSalesContext_str (alcoholSalesContext p)),
      (''serverTrainingPlanned'', Val (JBool (serverTrainingPlanned p))),
      (''handlesPHI'', Val (JBool (handlesPHI p))),
      (''childrenUnder13'', Val (JBool (childrenUnder13 p))),
      (''collectsFromCA'', Val (JBool (collectsFromCA p))),
      (''collectsFromOtherStates'', states_field (collectsFromOtherStates p)),
      (''dataVolumeBand'', opt_field DataVolumeBand_str (dataVolumeBand p)),
      (''sellsOrSharesData'', Val (JBool (sellsOrSharesData p))),
      (''usesBiometrics'', Val (JBool (usesBiometrics p))),
      (''usesRefrigerants'', Val (JBool (usesRefrigerants p))),
      (''usesSolvents'', Val (JBool (usesSolvents p))),
      (''trucksOver10kInterstate'', Val (JBool (trucksOver10kInterstate p))),
      (''usesForklifts'', Val (JBool (usesForklifts p))),
      (''publicFacingSite'', Val (JBool (publicFacingSite p))),
      (''hasWebsiteOrApp'', Val (JBool (hasWebsiteOrApp p))),
      (''payrollFrequency'', opt_field PayrollFreq_str (payrollFrequency p)),
      (''offersHealth'', Val (JBool (offersHealth p))),
      (''offers401k'', Val (JBool (offers401k p))),
      (''usesPEO'', Val (JBool (usesPEO p))),
      (''firstSaleDate'', opt_field id (firstSaleDate p)),
      (''firstPayrollDate'', opt_field id (firstPayrollDate p)),
      (''leaseDate'', opt_field id (leaseDate p))]"

definition payload_get :: "Payload \<Rightarrow> string \<Rightarrow> jsval" where
  "payload_get p key =
     (case map_of (payload_fields p) key of
        Some v \<Rightarrow> v
      | None \<Rightarrow> if key \<in> set object_prototype_members then Builtin key else Undefined)"

text \<open>\<open>!base\<close> and the string \<open>base\<close> is in \<open>base + "T00:00:00Z"\<close>.\<close>

fun jsval_falsy :: "jsval \<Rightarrow> bool" where
  "jsval_falsy Undefined = True"
| "jsval_falsy (Val v) = falsy v"
| "jsval_falsy (Builtin k) = False"

fun jsval_text :: "js_engine \<Rightarrow> jsval \<Rightarrow> error + string" where
  "jsval_text eng Undefined = Inr ''undefined''"
| "jsval_text eng (Val v) = to_str v"
| "jsval_text eng (Builtin k) = Inr (builtin_text eng k)"

text \<open>\<open>Number(conditions?.dueInDays ?? 0)\<close>, the first conversion \<open>computeDueDate\<close> makes.\<close>

definition dueInDays_number :: "js_engine \<Rightarrow> json \<Rightarrow> error + int option" where
  "dueInDays_number eng conditions =
     (case jget conditions ''dueInDays'' of
        None \<Rightarrow> Inr (Some 0)
      | Some JNull \<Rightarrow> Inr (Some 0)
      | Some v \<Rightarrow> to_number eng v)"

definition computeDueDate :: "js_engine \<Rightarrow> json \<Rightarrow> Payload \<Rightarrow> error + string option" where
  "computeDueDate eng conditions payload =
     (let dueFrom = jget conditions ''dueFrom''
      in case dueInDays_number eng conditions of
           Inl e \<Rightarrow> Inl e
         | Inr dueInDays \<Rightarrow>
             (case dueFrom of
                None \<Rightarrow> Inr None
              | Some df \<Rightarrow>
                  if falsy df then Inr None
                  else
                    (case to_str df of
                       Inl e \<Rightarrow> Inl e
                     | Inr key \<Rightarrow>
                         (let base = payload_get payload key
                          in if jsval_falsy base then Inr None
                             else
                               (case jsval_text eng base of
                                  Inl e \<Rightarrow> Inl e
                                | Inr str \<Rightarrow>
                                    (let d = Date_parse eng (str @ ''T00:00:00Z'');
                                         d' = (case dueInDays of
                                                 None \<Rightarrow> d
                                               | Some n \<Rightarrow>
                                                   if n \<noteq> 0
                                                   then setUTCDate d
                                                          (map_option (\<lambda>g. g + n) (getUTCDate d))
                                                   else d)
                                     in case toISOString d' of
                                          Inl e \<Rightarrow> Inl e
                                        | Inr s \<Rightarrow> Inr (Some (take 10 s))))))))"

section \<open>Result assembly and \<open>matchRules\<close>\<close>

datatype Level = LFederal | LState | LCity

text \<open>A row of the catalog query. \<open>conditions\<close> is the JSONB value (\<open>JNull\<close> for null).\<close>

record RuleRow =
  rule_id :: string
  title :: string
  summary :: "string option"
  source :: "string option"
  level :: Level
  jurisdiction_state :: "string option"
  jurisdiction_city :: "string option"
  conditions :: json

record Jurisdiction =
  jur_state :: "string option"
  jur_city :: "string option"

text \<open>The public shape of a matched rule (fields \<open>id\<close>, \<open>title\<close>, \<open>summary\<close>, \<open>source\<close>,
  \<open>level\<close>, \<open>jurisdiction\<close> carry the prefix \<open>pub_\<close>).\<close>

record PublicRule =
  pub_id :: string
  pub_title :: string
  pub_summary :: string
  pub_source :: string
  pub_level :: Level
  pub_jurisdiction :: Jurisdiction
  appliesBecause :: "string list"
  action :: json
  owner :: json
  effort :: json
  dueDate :: "string option"

text \<open>\<open>c.key ?? ""\<close> on the condition document.\<close>

definition or_empty :: "json option \<Rightarrow> json" where
  "or_empty v = (case v of None \<Rightarrow> JStr [] | Some JNull \<Rightarrow> JStr [] | Some x \<Rightarrow> x)"

definition toPublic :: "js_engine \<Rightarrow> RuleRow \<Rightarrow> string list \<Rightarrow> Payload \<Rightarrow> error + PublicRule" where
  "toPublic eng r rs payload =
     (let c = (if falsy (conditions r) then JObj [] else conditions r)
      in case computeDueDate eng c payload of
           Inl e \<Rightarrow> Inl e
         | Inr due \<Rightarrow>
             Inr \<lparr> pub_id = rule_id r,
                   pub_title = title r,
                   pub_summary = (case summary r of None \<Rightarrow> [] | Some s \<Rightarrow> s),
                   pub_source = (case source r of None \<Rightarrow> [] | Some s \<Rightarrow> s),
                   pub_level = level r,
                   pub_jurisdiction = \<lparr>jur_state = jurisdiction_state r, jur_city = jurisdiction_city r\<rparr>,
                   appliesBecause = rs,
                   action = or_empty (jget c ''action''),
                   owner = or_empty (jget c ''owner''),
                   effort = or_empty (jget c ''effort''),
                   dueDate = due \<rparr>)"

text \<open>\<open>cacheKey\<close>: both lists sorted (by code unit) and joined.\<close>

definition cacheKey :: "string list \<Rightarrow> string list \<Rightarrow> string" where
  "cacheKey states cities = join '','' (sort states) @ ''|'' @ join '','' (sort cities)"

record Grouped =
  grp_federal :: "PublicRule list"
  grp_state :: "PublicRule list"
  grp_city :: "PublicRule list"
  grp_industry :: "PublicRule list"

record MatchOutput =
  grouped :: Grouped
  count :: nat

text \<open>The loop \<open>for (const r of rows) { ... if (ok) matched.push({ row: r, reasons }) }\<close>; a throw
  of \<open>evalConditions\<close> ends it.\<close>

fun collect_matched :: "RuleRow list \<Rightarrow> Ctx \<Rightarrow> error + (RuleRow \<times> string list) list" where
  "collect_matched [] ctx = Inr []"
| "collect_matched (r # rows) ctx =
     (case evalConditions (conditions r) ctx of
        Inl e \<Rightarrow> Inl e
      | Inr res \<Rightarrow>
          (case collect_matched rows ctx of
             Inl e \<Rightarrow> Inl e
           | Inr ms \<Rightarrow> Inr (if ok res then (r, reasons res) # ms else ms)))"

text \<open>\<open>matched.filter((m) => m.row.level === lv).map((m) => toPublic(m.row, m.reasons, ctx.raw))\<close>\<close>

definition bucket :: "js_engine \<Rightarrow> Ctx \<Rightarrow> Level \<Rightarrow> (RuleRow \<times> string list) list \<Rightarrow> error + PublicRule list" where
  "bucket eng ctx lv matched =
     map_throw (\<lambda>m. toPublic eng (fst m) (snd m) (ctx_raw ctx)) (filter (\<lambda>m. level (fst m) = lv) matched)"

text \<open>Everything after the candidate rows are known.\<close>

definition group_rows :: "js_engine \<Rightarrow> Ctx \<Rightarrow> RuleRow list \<Rightarrow> error + MatchOutput" where
  "group_rows eng ctx rows =
     (case collect_matched rows ctx of
        Inl e \<Rightarrow> Inl e
      | Inr matched \<Rightarrow>
          (case bucket eng ctx LFederal matched of
             Inl e \<Rightarrow> Inl e
           | Inr fed \<Rightarrow>
               (case bucket eng ctx LState matched of
                  Inl e \<Rightarrow> Inl e
                | Inr st \<Rightarrow>
                    (case bucket eng ctx LCity matched of
                       Inl e \<Rightarrow> Inl e
                     | Inr ci \<Rightarrow>
                         (let g = \<lparr>grp_federal = fed, grp_state = st, grp_city = ci, grp_industry = []\<rparr>
                          in Inr \<lparr>grouped = g,
                                  count = length (grp_federal g) + length (grp_state g)
                                          + length (grp_city g) + length (grp_industry g)\<rparr>)))))"

text \<open>
  \<open>matchRules\<close> itself. The process-wide \<open>jurCache\<close> is passed in and returned; \<open>now\<close> is
  \<open>Date.now()\<close>; \<open>query\<close> is the catalog query with its two parameters (the states and the
  cities of the footprint), which may reject. The timing logs do not affect the result.
\<close>

type_synonym jur_cache = "string \<rightharpoonup> (RuleRow list \<times> int)"

definition matchRules ::
  "js_engine \<Rightarrow> (string list \<Rightarrow> string list \<Rightarrow> error + RuleRow list) \<Rightarrow> int \<Rightarrow> jur_cache \<Rightarrow> Payload
     \<Rightarrow> (error + MatchOutput) \<times> jur_cache" where
  "matchRules eng query now jurCache payload =
     (let ctx = buildCtx payload;
          key = cacheKey (ctx_statesArr ctx) (ctx_citiesArr ctx);
          hit = (case jurCache key of
                   Some (rows, exp) \<Rightarrow> if exp > now then Some rows else None
                 | None \<Rightarrow> None)
      in case hit of
           Some rows \<Rightarrow> (group_rows eng ctx rows, jurCache)
         | None \<Rightarrow>
             (case query (ctx_statesArr ctx) (ctx_citiesArr ctx) of
                Inl e \<Rightarrow> (Inl e, jurCache)
              | Inr rows \<Rightarrow> (group_rows eng ctx rows, jurCache(key \<mapsto> (rows, now + 60000)))))"

text \<open>An engine instance for concrete evaluations. It reads a string of decimal digits, with
  an optional sign and surrounded by white space, as a number and gives \<open>NaN\<close> to every other
  string (fractions, exponents, other radices and \<open>Infinity\<close> are not read); it has no fallback
  date formats; and it prints the inherited members as V8 does.\<close>

definition decimal_literal :: "string \<Rightarrow> int option" where
  "decimal_literal s =
     (case trim s of
        [] \<Rightarrow> Some 0
      | c # cs \<Rightarrow>
          if c = CHR ''-'' \<and> cs \<noteq> [] \<and> list_all is_digit cs then Some (- digits_val cs)
          else if c = CHR ''+'' \<and> cs \<noteq> [] \<and> list_all is_digit cs then Some (digits_val cs)
          else if list_all is_digit (c # cs) then Some (digits_val (c # cs))
          else None)"

definition no_fallback :: "string \<Rightarrow> int option" where
  "no_fallback s = None"

definition native_text :: "string \<Rightarrow> string" where
  "native_text k =
     (if k = ''__proto__'' then ''[object Object]''
      else ''function '' @ (if k = ''constructor'' then ''Object'' else k) @ ''() { [native code] }'')"

definition sample_engine :: js_engine where
  "sample_engine = \<lparr> StringToNumber = decimal_literal, lenient_day = True,
                      parse_fallback = no_fallback, builtin_text = native_text \<rparr>"

section \<open>Concrete profiles and rules\<close>

text \<open>The profiles of the scenarios.\<close>

definition multi_state_profile :: Payload where
  "multi_state_profile =
     defaultBusinessForm\<lparr>state := NY, salesStates := [CA, NY], collectsFromCA := True\<rparr>"

definition la_profile :: Payload where
  "la_profile =
     defaultBusinessForm\<lparr>state := CA, city := ''Los Angeles'', sellsAlcohol := True,
       alcoholSalesContext := Some OffPremise, employeesTotal := 3\<rparr>"

definition alcohol_rule :: json where
  "alcohol_rule =
     JObj [(''requiresAlcohol'', JBool True),
           (''alcoholSalesContext'', JArr [JStr ''off-premise'', JStr ''both''])]"

text \<open>The string a state code is after \<open>toUpperCase\<close>.\<close>

definition upper_state :: "State \<Rightarrow> string" where
  "upper_state s = toUpperCase (State_str s)"

definition food_rule :: json where
  "food_rule = JObj [(''requiresFood'', JBool True)]"

definition alcohol_only_rule :: json where
  "alcohol_only_rule = JObj [(''requiresAlcohol'', JBool True)]"

text \<open>Rules whose gate keys hold \<open>false\<close>, and a business that handles food.\<close>

definition no_food_rule :: json where
  "no_food_rule = JObj [(''requiresFood'', JBool False)]"

definition no_food_alcohol_rule :: json where
  "no_food_alcohol_rule = JObj [(''requiresFood'', JBool False), (''requiresAlcohol'', JBool True)]"

definition no_alcohol_rule :: json where
  "no_alcohol_rule = JObj [(''requiresAlcohol'', JBool False)]"

definition food_no_alcohol_rule :: json where
  "food_no_alcohol_rule = JObj [(''requiresFood'', JBool True), (''requiresAlcohol'', JBool False)]"

definition food_profile :: Payload where
  "food_profile = defaultBusinessForm\<lparr>handlesFood := True\<rparr>"

text \<open>A rule whose \<open>employeesMin\<close> is a string.\<close>

definition malformed_min_rule :: json where
  "malformed_min_rule = JObj [(''employeesMin'', JStr ''10'')]"

text \<open>A rule whose \<open>industry\<close> array holds a number.\<close>

definition bad_industry_rule :: json where
  "bad_industry_rule = JObj [(''industry'', JArr [JNum 5]), (''requiresFood'', JBool True)]"

definition lowercase_states_rule :: json where
  "lowercase_states_rule = JObj [(''collectsFromOtherStates'', JArr [JStr ''ca''])]"

definition privacy_profile :: Payload where
  "privacy_profile = defaultBusinessForm\<lparr>collectsFromOtherStates := [CA]\<rparr>"

section \<open>Recognised keys and the shape each guard expects\<close>

text \<open>
  The guards of the evaluator are \<open>typeof v === "number"\<close> for the two employee bounds,
  \<open>Array.isArray(v)\<close> for the allow-lists, and \<open>typeof v === "boolean"\<close> (or
  \<open>v === true\<close>) for the flags. A value is of the wrong shape for a key when it is not of
  the type the key's guard asks for.
\<close>

definition number_keys :: "string list" where
  "number_keys = [''employeesMin'', ''employeesMax'']"

definition array_keys :: "string list" where
  "array_keys = [''industry'', ''alcoholType'', ''alcoholSalesContext'', ''cities'', ''minorsAges'',
                 ''tippedPercentBand'', ''collectsFromOtherStates'', ''dataVolumeBand'',
                 ''revenueBand'', ''legalStructure'', ''payrollFrequency'', ''numLocations'']"

definition boolean_keys :: "string list" where
  "boolean_keys = [''requiresFood'', ''requiresAlcohol'', ''employsMinors'', ''tippedWorkers'']
                  @ transport_keys @ privacy_keys @ facility_keys"

fun is_number :: "json \<Rightarrow> bool" where
  "is_number (JNum n) = True"
| "is_number _ = False"

fun is_array :: "json \<Rightarrow> bool" where
  "is_array (JArr xs) = True"
| "is_array _ = False"

fun is_boolean :: "json \<Rightarrow> bool" where
  "is_boolean (JBool b) = True"
| "is_boolean _ = False"

definition wrong_shape :: "string \<Rightarrow> json \<Rightarrow> bool" where
  "wrong_shape k v =
     ((k \<in> set number_keys \<and> \<not> is_number v) \<or> (k \<in> set array_keys \<and> \<not> is_array v)
      \<or> (k \<in> set boolean_keys \<and> \<not> is_boolean v))"

section \<open>A document without one of its keys\<close>

text \<open>The condition document with every binding of a key removed; a value that is not an
  object has no keys of that kind. The verdict of an evaluation is its error, or whether the
  rule matched.\<close>

fun without :: "string \<Rightarrow> json \<Rightarrow> json" where
  "without k (JObj kvs) = JObj (filter (\<lambda>kv. fst kv \<noteq> k) kvs)"
| "without k v = v"

definition verdict :: "error + EvalResult \<Rightarrow> error + bool" where
  "verdict r = (case r of Inl e \<Rightarrow> Inl e | Inr x \<Rightarrow> Inr (ok x))"


section \<open>The candidate query\<close>

text \<open>
  The rows \<open>matchRules\<close> evaluates: the cache entry when it is present and not expired,
  the result of the query otherwise.
\<close>

definition candidate_rows ::
  "(string list \<Rightarrow> string list \<Rightarrow> error + RuleRow list) \<Rightarrow> int \<Rightarrow> jur_cache \<Rightarrow> Payload
     \<Rightarrow> error + RuleRow list" where
  "candidate_rows query now jurCache payload =
     (let ctx = buildCtx payload;
          key = cacheKey (ctx_statesArr ctx) (ctx_citiesArr ctx)
      in case jurCache key of
           Some (rows, exp) \<Rightarrow>
             if exp > now then Inr rows else query (ctx_statesArr ctx) (ctx_citiesArr ctx)
         | None \<Rightarrow> query (ctx_statesArr ctx) (ctx_citiesArr ctx))"

text \<open>Whether a row ends up in \<open>matched\<close>.\<close>

definition is_match :: "Ctx \<Rightarrow> RuleRow \<Rightarrow> bool" where
  "is_match ctx r = (case evalConditions (conditions r) ctx of Inl e \<Rightarrow> False | Inr res \<Rightarrow> ok res)"

text \<open>What identifies a rule in the catalog and in the output.\<close>

definition row_key :: "RuleRow \<Rightarrow> string \<times> string \<times> Level" where
  "row_key r = (rule_id r, title r, level r)"

definition pub_key :: "PublicRule \<Rightarrow> string \<times> string \<times> Level" where
  "pub_key p = (pub_id p, pub_title p, pub_level p)"

text \<open>
  The SQL text of the query over a catalog held as a list: the \<open>WHERE\<close> clause, then
  \<open>ORDER BY CASE level ... END, title ASC\<close>. Titles are compared by code unit, and rows
  that tie keep their catalog order.
\<close>

definition level_rank :: "Level \<Rightarrow> nat" where
  "level_rank lv = (case lv of LFederal \<Rightarrow> 1 | LState \<Rightarrow> 2 | LCity \<Rightarrow> 3)"

definition in_where :: "string list \<Rightarrow> string list \<Rightarrow> RuleRow \<Rightarrow> bool" where
  "in_where states cities r =
     (level r = LFederal
      \<or> (level r = LState
          \<and> (case jurisdiction_state r of None \<Rightarrow> False | Some s \<Rightarrow> s \<in> set states))
      \<or> (level r = LCity
          \<and> (case jurisdiction_state r of None \<Rightarrow> False | Some s \<Rightarrow> s \<in> set states)
          \<and> (case jurisdiction_city r of None \<Rightarrow> False | Some c \<Rightarrow> toLowerCase c \<in> set cities)))"

definition rules_query :: "RuleRow list \<Rightarrow> string list \<Rightarrow> string list \<Rightarrow> error + RuleRow list" where
  "rules_query catalog states cities =
     Inr (sort_key (\<lambda>r. (level_rank (level r), title r)) (filter (in_where states cities) catalog))"

text \<open>A small catalog, deliberately not in query order.\<close>

definition sample_catalog :: "RuleRow list" where
  "sample_catalog =
     [\<lparr> rule_id = ''la-large'', title = ''Large employer ordinance'', summary = None, source = None,
         level = LCity, jurisdiction_state = Some ''CA'', jurisdiction_city = Some ''Los Angeles'',
         conditions = JObj [(''employeesMin'', JNum 10)] \<rparr>,
      \<lparr> rule_id = ''ca-abc'', title = ''Alcohol licence'', summary = Some ''ABC licence'',
         source = None, level = LState, jurisdiction_state = Some ''CA'', jurisdiction_city = None,
         conditions = alcohol_rule \<rparr>,
      \<lparr> rule_id = ''ny-poster'', title = ''Wage poster'', summary = None, source = None,
         level = LState, jurisdiction_state = Some ''NY'', jurisdiction_city = None,
         conditions = JObj [] \<rparr>,
      \<lparr> rule_id = ''fed-w4'', title = ''Form W-4'', summary = None, source = Some ''IRS'',
         level = LFederal, jurisdiction_state = None, jurisdiction_city = None,
         conditions = JObj [(''dueFrom'', JStr ''firstPayrollDate''), (''dueInDays'', JNum 30)] \<rparr>,
      \<lparr> rule_id = ''fed-i9'', title = ''Form I-9'', summary = None, source = None,
         level = LFederal, jurisdiction_state = None, jurisdiction_city = None,
         conditions = JNull \<rparr>,
      \<lparr> rule_id = ''ca-poster'', title = ''CA wage poster'', summary = None, source = None,
         level = LState, jurisdiction_state = Some ''CA'', jurisdiction_city = None,
         conditions = JObj [] \<rparr>]"

definition no_cache :: jur_cache where
  "no_cache = Map.empty"

definition payroll_profile :: Payload where
  "payroll_profile = la_profile\<lparr>firstPayrollDate := Some ''2024-01-01''\<rparr>"

text \<open>The candidates of the Los Angeles profile, whose footprint is \<open>CA\<close> and \<open>los angeles\<close>.\<close>

definition sample_candidates :: "RuleRow list" where
  "sample_candidates =
     sort_key (\<lambda>r. (level_rank (level r), title r))
       (filter (in_where [''CA''] [''los angeles'']) sample_catalog)"

section \<open>Calendar dates as text\<close>

text \<open>The text \<open>YYYY-MM-DD\<close> of a date, and the shape a profile's date fields are validated
  against.\<close>

definition iso_date :: "int \<Rightarrow> int \<Rightarrow> int \<Rightarrow> string" where
  "iso_date y m d = pad4 y @ ''-'' @ pad2 m @ ''-'' @ pad2 d"

definition is_ymd_text :: "string \<Rightarrow> bool" where
  "is_ymd_text s =
     (length s = 10 \<and> s ! 4 = CHR ''-'' \<and> s ! 7 = CHR ''-''
      \<and> list_all is_digit (take 4 s) \<and> list_all is_digit (take 2 (drop 5 s))
      \<and> list_all is_digit (take 2 (drop 8 s)))"

text \<open>A date of the proleptic Gregorian calendar with a four-digit year.\<close>

definition calendar_date :: "int \<Rightarrow> int \<Rightarrow> int \<Rightarrow> bool" where
  "calendar_date y m d = (1 \<le> m \<and> m \<le> 12 \<and> 1 \<le> d \<and> d \<le> DaysInMonth y m)"

definition valid_date :: "int \<Rightarrow> int \<Rightarrow> int \<Rightarrow> bool" where
  "valid_date y m d = (0 \<le> y \<and> y \<le> 9999 \<and> calendar_date y m d)"

text \<open>The day number of a date (days since 1970-01-01), the date of a day number, and a
  date shifted by a number of days.\<close>

definition day_number :: "int \<Rightarrow> int \<Rightarrow> int \<Rightarrow> int" where
  "day_number y m d = MakeDay y (m - 1) d"

definition date_of_day :: "int \<Rightarrow> int \<times> int \<times> int" where
  "date_of_day n =
     (let t = n * msPerDay in (YearFromTime t, MonthFromTime t + 1, DateFromTime t))"

definition add_days :: "int \<times> int \<times> int \<Rightarrow> int \<Rightarrow> int \<times> int \<times> int" where
  "add_days ymd n = (case ymd of (y, m, d) \<Rightarrow> date_of_day (day_number y m d + n))"

text \<open>The day after a date, by the calendar's own rules.\<close>

definition next_day :: "int \<times> int \<times> int \<Rightarrow> int \<times> int \<times> int" where
  "next_day ymd =
     (case ymd of (y, m, d) \<Rightarrow>
        if d < DaysInMonth y m then (y, m, d + 1)
        else if m < 12 then (y, m + 1, 1)
        else (y + 1, 1, 1))"

text \<open>The number of days \<open>computeDueDate\<close> adds: \<open>Number(conditions?.dueInDays ?? 0)\<close>
  when that is finite, and nothing otherwise.\<close>

definition due_days :: "js_engine \<Rightarrow> json \<Rightarrow> int" where
  "due_days eng c = (case dueInDays_number eng c of Inr (Some n) \<Rightarrow> n | _ \<Rightarrow> 0)"

text \<open>A rule with a due date taken from \<open>firstPayrollDate\<close>, profiles with that date, and an
  engine that rejects a day beyond the month's length.\<close>

definition due_rule :: "int \<Rightarrow> json" where
  "due_rule n = JObj [(''dueFrom'', JStr ''firstPayrollDate''), (''dueInDays'', JNum n)]"

definition payroll_on :: "string \<Rightarrow> Payload" where
  "payroll_on s = defaultBusinessForm\<lparr>firstPayrollDate := Some s\<rparr>"

definition strict_engine :: js_engine where
  "strict_engine = sample_engine\<lparr>lenient_day := False\<rparr>"

text \<open>Rules whose \<open>dueInDays\<close> or \<open>dueFrom\<close> is an object with an own key \<open>toString\<close>, a rule
  that names a member every object inherits, and a rule that names a list field.\<close>

definition unconvertible :: json where
  "unconvertible = JObj [(''toString'', JNum 0)]"

definition bad_offset_rule :: json where
  "bad_offset_rule = JObj [(''dueInDays'', unconvertible)]"

definition bad_source_rule :: json where
  "bad_source_rule = JObj [(''dueFrom'', unconvertible)]"

definition inherited_source_rule :: json where
  "inherited_source_rule = JObj [(''dueFrom'', JStr ''toString'')]"

definition list_source_rule :: json where
  "list_source_rule = JObj [(''dueFrom'', JStr ''otherStates'')]"


section \<open>Properties of the jurisdiction footprint\<close>

lemma normState_State [simp]: "normState (Some (State_str s)) = State_str s"
  by (cases s)
     (simp_all add: normState_def normalizeStr_def trim_def is_space_def toUpperCase_def upper_char_def)

lemma toUpperCase_State [simp]: "toUpperCase (State_str s) = State_str s"
  by (cases s) (simp_all add: toUpperCase_def upper_char_def)

lemma set_Set_add [simp]: "set (Set_add xs x) = insert x (set xs)"
  by (auto simp: Set_add_def)

lemma distinct_Set_add [simp]: "distinct xs \<Longrightarrow> distinct (Set_add xs x)"
  by (simp add: Set_add_def)

lemma set_add_states [simp]: "set (add_states acc xs) = set acc \<union> State_str ` set xs"
  unfolding add_states_def by (induction xs arbitrary: acc) auto

lemma distinct_add_states [simp]: "distinct acc \<Longrightarrow> distinct (add_states acc xs)"
  unfolding add_states_def by (induction xs arbitrary: acc) auto

text \<open>
  C5. For every profile, \<open>statesArr\<close> has no duplicates and its elements are exactly the
  upper-cased primary state, the upper-cased members of \<open>otherStates\<close>,
  \<open>remoteEmployeeStates\<close>, \<open>salesStates\<close> and \<open>collectsFromOtherStates\<close>, and \<open>CA\<close> when
  \<open>collectsFromCA\<close> is set.
\<close>

theorem footprint_is_dedup_union:
  "set (ctx_statesArr (buildCtx p)) =
     {upper_state (state p)} \<union> upper_state ` set (otherStates p)
       \<union> upper_state ` set (remoteEmployeeStates p) \<union> upper_state ` set (salesStates p)
       \<union> upper_state ` set (collectsFromOtherStates p)
       \<union> (if collectsFromCA p then {''CA''} else {})
   \<and> distinct (ctx_statesArr (buildCtx p))"
  by (auto simp: buildCtx_def statesArr_of_def Let_def upper_state_def)

text \<open>The multi-state scenario: home state NY, and CA is in the footprint.\<close>

theorem footprint_is_dedup_union_witness:
  "state multi_state_profile = NY
   \<and> ''CA'' \<in> set (ctx_statesArr (buildCtx multi_state_profile))
   \<and> distinct (ctx_statesArr (buildCtx multi_state_profile))"
  using footprint_is_dedup_union [of multi_state_profile]
  by (simp add: multi_state_profile_def defaultBusinessForm_def)

lemma footprint_multi_state:
  "ctx_statesArr (buildCtx multi_state_profile) = [''NY'', ''CA'']"
  by (simp add: buildCtx_def statesArr_of_def multi_state_profile_def defaultBusinessForm_def
      add_states_def Set_add_def normState_def normalizeStr_def trim_def is_space_def
      toUpperCase_def upper_char_def)

section \<open>Properties of the condition evaluator\<close>

text \<open>
  C3. A rule whose condition document is absent (null) or empty matches every context, and
  the result carries exactly one reason, the generic one.
\<close>

theorem empty_conditions_match:
  "c = JNull \<or> c = JObj [] \<Longrightarrow>
     evalConditions c ctx = Inr \<lparr>ok = True, reasons = [''Applies generally (no extra conditions).'']\<rparr>"
  by (auto simp: evalConditions_def)

theorem empty_conditions_match_witness:
  "evalConditions (JObj []) (buildCtx la_profile)
     = Inr \<lparr>ok = True, reasons = [''Applies generally (no extra conditions).'']\<rparr>
   \<and> evalConditions JNull (buildCtx la_profile)
     = Inr \<lparr>ok = True, reasons = [''Applies generally (no extra conditions).'']\<rparr>"
  using empty_conditions_match [of "JObj []" "buildCtx la_profile"]
        empty_conditions_match [of JNull "buildCtx la_profile"]
  by simp

subsection \<open>Running the blocks\<close>

lemma run_raise: "run os rs = Inl e \<Longrightarrow> Raise e \<in> set os"
  by (induction os rs rule: run.induct) auto

lemma run_ok:
  "run os rs = Inr r \<Longrightarrow> ok r \<Longrightarrow> Reject \<notin> set os \<and> reasons r \<noteq> []"
  by (induction os rs arbitrary: r rule: run.induct) (auto split: if_splits)

lemma run_not_ok:
  "run os rs = Inr r \<Longrightarrow> \<not> ok r \<Longrightarrow> reasons r = []"
  by (induction os rs arbitrary: r rule: run.induct) (auto split: if_splits)

lemma run_reject:
  "Reject \<in> set os \<Longrightarrow> \<forall>e. Raise e \<notin> set os \<Longrightarrow> run os rs = Inr \<lparr>ok = False, reasons = []\<rparr>"
  by (induction os rs rule: run.induct) auto

lemma run_ok_clean:
  "run os rs = Inr r \<Longrightarrow> ok r \<Longrightarrow> Reject \<notin> set os \<and> (\<forall>e. Raise e \<notin> set os)"
  by (induction os rs arbitrary: r rule: run.induct) (auto split: if_splits)

lemma eval_ok_no_reject:
  assumes "evalConditions c ctx = Inr r" "ok r" "\<not> falsy c" "keys_length c \<noteq> 0"
  shows "Reject \<notin> set (steps c ctx)"
  using assms run_ok by (auto simp: evalConditions_def)

lemma jget_nonempty: "jget c k = Some v \<Longrightarrow> \<not> falsy c \<and> keys_length c \<noteq> 0"
  by (cases c) auto

lemma eval_ok_clean:
  assumes "evalConditions c ctx = Inr r" "ok r" "jget c key = Some v"
  shows "Reject \<notin> set (steps c ctx) \<and> (\<forall>e. Raise e \<notin> set (steps c ctx))"
  using assms run_ok_clean jget_nonempty [OF assms(3)] by (auto simp: evalConditions_def)

lemmas step_defs = step_employeesMin_def step_employeesMax_def step_industry_def
  step_requiresFood_def step_requiresAlcohol_def step_alcoholType_def step_alcoholSalesContext_def
  step_cities_def step_employsMinors_def step_minorsAges_def step_tippedWorkers_def
  step_tippedPercentBand_def step_collectsFromOtherStates_def step_dataVolumeBand_def

lemmas key_defs = number_keys_def array_keys_def boolean_keys_def transport_keys_def
  privacy_keys_def facility_keys_def

text \<open>Only the lookup of keys matters, not the order in which an object lists them.\<close>

lemma steps_depend_on_lookup:
  "map_of kvs = map_of kvs' \<Longrightarrow> steps (JObj kvs) ctx = steps (JObj kvs') ctx"
  by (simp add: steps_def step_defs allow_step_def flag_step_def structure_step_def)

lemma key_order_irrelevant:
  assumes "map_of kvs = map_of kvs'" "kvs = [] \<longleftrightarrow> kvs' = []"
  shows "evalConditions (JObj kvs) ctx = evalConditions (JObj kvs') ctx"
  using assms steps_depend_on_lookup [OF assms(1)] by (simp add: evalConditions_def)

subsection \<open>The derived-boolean gates\<close>

text \<open>No block but its own reads a derived flag.\<close>

lemma ctx_flag_food [simp]: "ctx_flag (ctx\<lparr>ctx_requiresFood := b\<rparr>) = ctx_flag ctx"
  by (simp add: fun_eq_iff ctx_flag_def)

lemma ctx_band_food [simp]: "ctx_band (ctx\<lparr>ctx_requiresFood := b\<rparr>) = ctx_band ctx"
  by (simp add: fun_eq_iff ctx_band_def)

lemma ctx_flag_alc [simp]: "ctx_flag (ctx\<lparr>ctx_requiresAlcohol := b\<rparr>) = ctx_flag ctx"
  by (simp add: fun_eq_iff ctx_flag_def)

lemma ctx_band_alc [simp]: "ctx_band (ctx\<lparr>ctx_requiresAlcohol := b\<rparr>) = ctx_band ctx"
  by (simp add: fun_eq_iff ctx_band_def)

lemma frame_food:
  "step_employeesMin c (ctx\<lparr>ctx_requiresFood := b\<rparr>) = step_employeesMin c ctx"
  "step_employeesMax c (ctx\<lparr>ctx_requiresFood := b\<rparr>) = step_employeesMax c ctx"
  "step_industry c (ctx\<lparr>ctx_requiresFood := b\<rparr>) = step_industry c ctx"
  "step_requiresAlcohol c (ctx\<lparr>ctx_requiresFood := b\<rparr>) = step_requiresAlcohol c ctx"
  "step_alcoholType c (ctx\<lparr>ctx_requiresFood := b\<rparr>) = step_alcoholType c ctx"
  "step_alcoholSalesContext c (ctx\<lparr>ctx_requiresFood := b\<rparr>) = step_alcoholSalesContext c ctx"
  "step_cities c (ctx\<lparr>ctx_requiresFood := b\<rparr>) = step_cities c ctx"
  "step_employsMinors c (ctx\<lparr>ctx_requiresFood := b\<rparr>) = step_employsMinors c ctx"
  "step_minorsAges c (ctx\<lparr>ctx_requiresFood := b\<rparr>) = step_minorsAges c ctx"
  "step_tippedWorkers c (ctx\<lparr>ctx_requiresFood := b\<rparr>) = step_tippedWorkers c ctx"
  "step_tippedPercentBand c (ctx\<lparr>ctx_requiresFood := b\<rparr>) = step_tippedPercentBand c ctx"
  "step_collectsFromOtherStates c (ctx\<lparr>ctx_requiresFood := b\<rparr>) = step_collectsFromOtherStates c ctx"
  "step_dataVolumeBand c (ctx\<lparr>ctx_requiresFood := b\<rparr>) = step_dataVolumeBand c ctx"
  "flag_step yes c (ctx\<lparr>ctx_requiresFood := b\<rparr>) = flag_step yes c ctx"
  "structure_step c (ctx\<lparr>ctx_requiresFood := b\<rparr>) = structure_step c ctx"
  by (simp_all add: step_defs flag_step_def structure_step_def fun_eq_iff
        split: option.split json.split sum.split)

lemma frame_alcohol:
  "step_employeesMin c (ctx\<lparr>ctx_requiresAlcohol := b\<rparr>) = step_employeesMin c ctx"
  "step_employeesMax c (ctx\<lparr>ctx_requiresAlcohol := b\<rparr>) = step_employeesMax c ctx"
  "step_industry c (ctx\<lparr>ctx_requiresAlcohol := b\<rparr>) = step_industry c ctx"
  "step_requiresFood c (ctx\<lparr>ctx_requiresAlcohol := b\<rparr>) = step_requiresFood c ctx"
  "step_alcoholType c (ctx\<lparr>ctx_requiresAlcohol := b\<rparr>) = step_alcoholType c ctx"
  "step_alcoholSalesContext c (ctx\<lparr>ctx_requiresAlcohol := b\<rparr>) = step_alcoholSalesContext c ctx"
  "step_cities c (ctx\<lparr>ctx_requiresAlcohol := b\<rparr>) = step_cities c ctx"
  "step_employsMinors c (ctx\<lparr>ctx_requiresAlcohol := b\<rparr>) = step_employsMinors c ctx"
  "step_minorsAges c (ctx\<lparr>ctx_requiresAlcohol := b\<rparr>) = step_minorsAges c ctx"
  "step_tippedWorkers c (ctx\<lparr>ctx_requiresAlcohol := b\<rparr>) = step_tippedWorkers c ctx"
  "step_tippedPercentBand c (ctx\<lparr>ctx_requiresAlcohol := b\<rparr>) = step_tippedPercentBand c ctx"
  "step_collectsFromOtherStates c (ctx\<lparr>ctx_requiresAlcohol := b\<rparr>) = step_collectsFromOtherStates c ctx"
  "step_dataVolumeBand c (ctx\<lparr>ctx_requiresAlcohol := b\<rparr>) = step_dataVolumeBand c ctx"
  "flag_step yes c (ctx\<lparr>ctx_requiresAlcohol := b\<rparr>) = flag_step yes c ctx"
  "structure_step c (ctx\<lparr>ctx_requiresAlcohol := b\<rparr>) = structure_step c ctx"
  by (simp_all add: step_defs flag_step_def structure_step_def fun_eq_iff
        split: option.split json.split sum.split)

lemma steps_food_irrelevant:
  "jget c ''requiresFood'' \<noteq> Some (JBool True) \<Longrightarrow> steps c (ctx\<lparr>ctx_requiresFood := b\<rparr>) = steps c ctx"
  by (simp add: steps_def frame_food) (simp add: step_requiresFood_def)

lemma steps_alcohol_irrelevant:
  "jget c ''requiresAlcohol'' \<noteq> Some (JBool True) \<Longrightarrow> steps c (ctx\<lparr>ctx_requiresAlcohol := b\<rparr>) = steps c ctx"
  by (simp add: steps_def frame_alcohol) (simp add: step_requiresAlcohol_def)

lemma step_food_in: "step_requiresFood c ctx \<in> set (steps c ctx)"
  by (simp add: steps_def)

lemma step_alc_in: "step_requiresAlcohol c ctx \<in> set (steps c ctx)"
  by (simp add: steps_def)

lemma jget_without: "jget (without K c) k = (if k = K then None else jget c k)"
proof (cases c)
  case (JObj kvs)
  show ?thesis
    unfolding JObj by (induction kvs) auto
qed simp_all

lemma without_absent: "jget c K = None \<Longrightarrow> without K c = c"
proof (cases c)
  case (JObj kvs)
  assume "jget c K = None"
  then have "K \<notin> fst ` set kvs" by (simp add: JObj map_of_eq_None_iff)
  then have "filter (\<lambda>kv. fst kv \<noteq> K) kvs = kvs"
    by (induction kvs) auto
  then show ?thesis by (simp add: JObj)
qed simp_all

lemma without_flag_step:
  "key \<noteq> K \<Longrightarrow> flag_step yes (without K c) ctx key = flag_step yes c ctx key"
  by (simp add: flag_step_def jget_without)

lemma without_structure_step:
  "fst kv \<noteq> K \<Longrightarrow> structure_step (without K c) ctx kv = structure_step c ctx kv"
  by (simp add: structure_step_def jget_without)

lemma without_allow_step:
  "key \<noteq> K \<Longrightarrow> allow_step key x m (without K c) = allow_step key x m c"
  by (simp add: allow_step_def jget_without)

lemma gate_not_listed:
  "''requiresFood'' \<notin> set transport_keys" "''requiresFood'' \<notin> set privacy_keys"
  "''requiresFood'' \<notin> set facility_keys" "''requiresFood'' \<notin> fst ` set structure_keys"
  "''requiresAlcohol'' \<notin> set transport_keys" "''requiresAlcohol'' \<notin> set privacy_keys"
  "''requiresAlcohol'' \<notin> set facility_keys" "''requiresAlcohol'' \<notin> fst ` set structure_keys"
  by (simp_all add: transport_keys_def privacy_keys_def facility_keys_def structure_keys_def)

lemma without_flag_steps:
  "K \<notin> set ks \<Longrightarrow> map (flag_step yes (without K c) ctx) ks = map (flag_step yes c ctx) ks"
  by (induction ks) (auto simp: without_flag_step)

lemma without_structure_steps:
  "K \<notin> fst ` set ks \<Longrightarrow> map (structure_step (without K c) ctx) ks = map (structure_step c ctx) ks"
  by (induction ks) (auto simp: without_structure_step)

text \<open>The blocks of a document and of the document without a gate key differ in the gate's
  own block only, which does nothing when the key is absent.\<close>

lemma steps_without_food:
  "steps c ctx = (steps (without ''requiresFood'' c) ctx)[3 := step_requiresFood c ctx]"
  "steps (without ''requiresFood'' c) ctx ! 3 = Skip"
  by (simp_all add: steps_def step_defs jget_without without_allow_step without_flag_steps
        without_structure_steps gate_not_listed)

lemma steps_without_alcohol:
  "steps c ctx = (steps (without ''requiresAlcohol'' c) ctx)[4 := step_requiresAlcohol c ctx]"
  "steps (without ''requiresAlcohol'' c) ctx ! 4 = Skip"
  by (simp_all add: steps_def step_defs jget_without without_allow_step without_flag_steps
        without_structure_steps gate_not_listed)

lemma list_update_same: "xs ! i = x \<Longrightarrow> xs[i := x] = xs"
  using list_update_id [of xs i] by simp

lemma steps_length: "3 < length (steps c ctx)" "4 < length (steps c ctx)"
  by (simp_all add: steps_def)

lemma run_verdict_reasons: "verdict (run os rs) = verdict (run os rs')"
  by (induction os rs arbitrary: rs' rule: run.induct) (auto simp: verdict_def)

lemma run_verdict_pass:
  "i < length os \<Longrightarrow> os ! i = Skip \<Longrightarrow> verdict (run (os[i := Pass r]) rs) = verdict (run os rs)"
proof (induction os rs arbitrary: i rule: run.induct)
  case (2 os rs)
  then show ?case
    using run_verdict_reasons [of os "rs @ [r]" rs] by (cases i) auto
next
  case (4 r' os rs)
  then show ?case by (cases i) auto
qed (auto split: nat.splits)

lemma steps_empty: "keys_length c = 0 \<Longrightarrow> steps c ctx = replicate 35 Skip"
proof (cases c)
  case (JObj kvs)
  assume "keys_length c = 0"
  then have "kvs = []" by (simp add: JObj)
  then show ?thesis
    by (simp add: JObj steps_def step_defs allow_step_def flag_step_def structure_step_def key_defs
        structure_keys_def numeral_eq_Suc)
qed (simp_all add: steps_def step_defs allow_step_def flag_step_def structure_step_def key_defs
        structure_keys_def numeral_eq_Suc)

lemma run_all_skip:
  "run (replicate n Skip) [] = Inr \<lparr>ok = True, reasons = [''Meets rule conditions.'']\<rparr>"
  by (induction n) auto

lemma eval_without_food:
  assumes "jget c ''requiresFood'' \<noteq> Some (JBool True)"
  shows "keys_length (without ''requiresFood'' c) \<noteq> 0 \<Longrightarrow>
           evalConditions c ctx = evalConditions (without ''requiresFood'' c) ctx"
    and "keys_length (without ''requiresFood'' c) = 0 \<Longrightarrow>
           evalConditions c ctx
             = Inr \<lparr>ok = True,
                    reasons = [if jget c ''requiresFood'' = None
                               then ''Applies generally (no extra conditions).''
                               else ''Meets rule conditions.'']\<rparr>"
proof -
  have s: "steps c ctx = steps (without ''requiresFood'' c) ctx"
    using assms steps_without_food [of c ctx]
      list_update_same [of "steps (without ''requiresFood'' c) ctx" 3 Skip]
    by (simp add: step_requiresFood_def)
  have f: "falsy (without ''requiresFood'' c) = falsy c" by (cases c) simp_all
  have k: "keys_length (without ''requiresFood'' c) \<noteq> 0 \<Longrightarrow> keys_length c \<noteq> 0"
    by (cases c) auto
  show "evalConditions c ctx = evalConditions (without ''requiresFood'' c) ctx"
    if "keys_length (without ''requiresFood'' c) \<noteq> 0"
    using that k by (simp add: evalConditions_def s f)
  show "evalConditions c ctx
          = Inr \<lparr>ok = True,
                 reasons = [if jget c ''requiresFood'' = None
                            then ''Applies generally (no extra conditions).''
                            else ''Meets rule conditions.'']\<rparr>"
    if e: "keys_length (without ''requiresFood'' c) = 0"
  proof (cases "jget c ''requiresFood''")
    case None
    then show ?thesis
      using e without_absent [of c "''requiresFood''"] by (simp add: evalConditions_def)
  next
    case (Some v)
    then have "\<not> falsy c \<and> keys_length c \<noteq> 0" by (rule jget_nonempty)
    then show ?thesis
      using Some s steps_empty [OF e, of ctx] by (simp add: evalConditions_def run_all_skip)
  qed
qed

lemma eval_without_alcohol:
  assumes "jget c ''requiresAlcohol'' \<noteq> Some (JBool True)"
  shows "keys_length (without ''requiresAlcohol'' c) \<noteq> 0 \<Longrightarrow>
           evalConditions c ctx = evalConditions (without ''requiresAlcohol'' c) ctx"
    and "keys_length (without ''requiresAlcohol'' c) = 0 \<Longrightarrow>
           evalConditions c ctx
             = Inr \<lparr>ok = True,
                    reasons = [if jget c ''requiresAlcohol'' = None
                               then ''Applies generally (no extra conditions).''
                               else ''Meets rule conditions.'']\<rparr>"
proof -
  have s: "steps c ctx = steps (without ''requiresAlcohol'' c) ctx"
    using assms steps_without_alcohol [of c ctx]
      list_update_same [of "steps (without ''requiresAlcohol'' c) ctx" 4 Skip]
    by (simp add: step_requiresAlcohol_def)
  have f: "falsy (without ''requiresAlcohol'' c) = falsy c" by (cases c) simp_all
  have k: "keys_length (without ''requiresAlcohol'' c) \<noteq> 0 \<Longrightarrow> keys_length c \<noteq> 0"
    by (cases c) auto
  show "evalConditions c ctx = evalConditions (without ''requiresAlcohol'' c) ctx"
    if "keys_length (without ''requiresAlcohol'' c) \<noteq> 0"
    using that k by (simp add: evalConditions_def s f)
  show "evalConditions c ctx
          = Inr \<lparr>ok = True,
                 reasons = [if jget c ''requiresAlcohol'' = None
                            then ''Applies generally (no extra conditions).''
                            else ''Meets rule conditions.'']\<rparr>"
    if e: "keys_length (without ''requiresAlcohol'' c) = 0"
  proof (cases "jget c ''requiresAlcohol''")
    case None
    then show ?thesis
      using e without_absent [of c "''requiresAlcohol''"] by (simp add: evalConditions_def)
  next
    case (Some v)
    then have "\<not> falsy c \<and> keys_length c \<noteq> 0" by (rule jget_nonempty)
    then show ?thesis
      using Some s steps_empty [OF e, of ctx] by (simp add: evalConditions_def run_all_skip)
  qed
qed

text \<open>A gate that passes adds a reason and leaves the verdict as it is without the key.\<close>

lemma verdict_without:
  assumes "steps c ctx = (steps (without K c) ctx)[i := Pass r]"
    and "steps (without K c) ctx ! i = Skip" "i < length (steps (without K c) ctx)"
    and "jget c K = Some v"
  shows "verdict (evalConditions c ctx) = verdict (evalConditions (without K c) ctx)"
proof -
  have c: "\<not> falsy c \<and> keys_length c \<noteq> 0" using assms(4) by (rule jget_nonempty)
  have r: "verdict (run (steps c ctx) []) = verdict (run (steps (without K c) ctx) [])"
    using run_verdict_pass [OF assms(3,2)] assms(1) by simp
  show ?thesis
  proof (cases "falsy (without K c) \<or> keys_length (without K c) = 0")
    case True
    then have "keys_length (without K c) = 0" using c by (cases c) auto
    then have "run (steps (without K c) ctx) [] = Inr \<lparr>ok = True, reasons = [''Meets rule conditions.'']\<rparr>"
      using steps_empty [of "without K c" ctx] by (simp add: run_all_skip)
    then show ?thesis
      using True c r by (simp add: evalConditions_def verdict_def)
  next
    case False
    then show ?thesis using c r by (simp add: evalConditions_def)
  qed
qed

lemma verdict_without_food:
  assumes "jget c ''requiresFood'' = Some (JBool True)" "ctx_requiresFood ctx"
  shows "verdict (evalConditions c ctx) = verdict (evalConditions (without ''requiresFood'' c) ctx)"
proof -
  have "step_requiresFood c ctx = Pass ''Handles food / on-site prep.''"
    using assms by (simp add: step_requiresFood_def)
  then show ?thesis
    using verdict_without [of c ctx "''requiresFood''" 3, OF _ _ _ assms(1)]
      steps_without_food [of c ctx] steps_length(1) [of "without ''requiresFood'' c" ctx]
    by simp
qed

lemma verdict_without_alcohol:
  assumes "jget c ''requiresAlcohol'' = Some (JBool True)" "ctx_requiresAlcohol ctx"
  shows "verdict (evalConditions c ctx) = verdict (evalConditions (without ''requiresAlcohol'' c) ctx)"
proof -
  have "step_requiresAlcohol c ctx = Pass ''Sells alcohol.''"
    using assms by (simp add: step_requiresAlcohol_def)
  then show ?thesis
    using verdict_without [of c ctx "''requiresAlcohol''" 4, OF _ _ _ assms(1)]
      steps_without_alcohol [of c ctx] steps_length(2) [of "without ''requiresAlcohol'' c" ctx]
    by simp
qed

text \<open>
  C6. The gate keys \<open>requiresFood\<close> and \<open>requiresAlcohol\<close> constrain the match only when
  their value is exactly \<open>true\<close>.
  \<^item> With the value \<open>true\<close>, a context whose derived flag is false is never matched, and for a
    context whose derived flag is true the verdict (the error, or whether the rule matches)
    is the verdict of the document without the key.
  \<^item> With any other value (\<open>false\<close>, a non-boolean, or no value) the result of the evaluation
    does not depend on the derived flag, and it is the result for the document without the
    key: the same result when other keys remain, and a match with one generic reason when none
    remains. So \<open>false\<close> never requires the flag to be false, nor anything else.
\<close>

theorem gates_only_constrain_on_true:
  "(jget c ''requiresFood'' = Some (JBool True) \<and> \<not> ctx_requiresFood ctx
      \<longrightarrow> (\<forall>r. evalConditions c ctx = Inr r \<longrightarrow> \<not> ok r))
   \<and> (jget c ''requiresFood'' = Some (JBool True) \<and> ctx_requiresFood ctx
      \<longrightarrow> verdict (evalConditions c ctx) = verdict (evalConditions (without ''requiresFood'' c) ctx))
   \<and> (jget c ''requiresFood'' \<noteq> Some (JBool True)
      \<longrightarrow> evalConditions c (ctx\<lparr>ctx_requiresFood := b\<rparr>) = evalConditions c ctx
          \<and> (keys_length (without ''requiresFood'' c) \<noteq> 0
               \<longrightarrow> evalConditions c ctx = evalConditions (without ''requiresFood'' c) ctx)
          \<and> (keys_length (without ''requiresFood'' c) = 0
               \<longrightarrow> evalConditions c ctx
                     = Inr \<lparr>ok = True,
                            reasons = [if jget c ''requiresFood'' = None
                                       then ''Applies generally (no extra conditions).''
                                       else ''Meets rule conditions.'']\<rparr>))
   \<and> (jget c ''requiresAlcohol'' = Some (JBool True) \<and> \<not> ctx_requiresAlcohol ctx
      \<longrightarrow> (\<forall>r. evalConditions c ctx = Inr r \<longrightarrow> \<not> ok r))
   \<and> (jget c ''requiresAlcohol'' = Some (JBool True) \<and> ctx_requiresAlcohol ctx
      \<longrightarrow> verdict (evalConditions c ctx) = verdict (evalConditions (without ''requiresAlcohol'' c) ctx))
   \<and> (jget c ''requiresAlcohol'' \<noteq> Some (JBool True)
      \<longrightarrow> evalConditions c (ctx\<lparr>ctx_requiresAlcohol := b'\<rparr>) = evalConditions c ctx
          \<and> (keys_length (without ''requiresAlcohol'' c) \<noteq> 0
               \<longrightarrow> evalConditions c ctx = evalConditions (without ''requiresAlcohol'' c) ctx)
          \<and> (keys_length (without ''requiresAlcohol'' c) = 0
               \<longrightarrow> evalConditions c ctx
                     = Inr \<lparr>ok = True,
                            reasons = [if jget c ''requiresAlcohol'' = None
                                       then ''Applies generally (no extra conditions).''
                                       else ''Meets rule conditions.'']\<rparr>))"
proof (intro conjI impI allI)
  fix r
  assume a: "jget c ''requiresFood'' = Some (JBool True) \<and> \<not> ctx_requiresFood ctx"
    and e: "evalConditions c ctx = Inr r"
  show "\<not> ok r"
  proof
    assume "ok r"
    with e a have "Reject \<notin> set (steps c ctx)"
      using eval_ok_no_reject jget_nonempty by blast
    moreover have "step_requiresFood c ctx = Reject" using a by (simp add: step_requiresFood_def)
    ultimately show False using step_food_in [of c ctx] by simp
  qed
next
  fix r
  assume a: "jget c ''requiresAlcohol'' = Some (JBool True) \<and> \<not> ctx_requiresAlcohol ctx"
    and e: "evalConditions c ctx = Inr r"
  show "\<not> ok r"
  proof
    assume "ok r"
    with e a have "Reject \<notin> set (steps c ctx)"
      using eval_ok_no_reject jget_nonempty by blast
    moreover have "step_requiresAlcohol c ctx = Reject" using a by (simp add: step_requiresAlcohol_def)
    ultimately show False using step_alc_in [of c ctx] by simp
  qed
next
  assume "jget c ''requiresFood'' = Some (JBool True) \<and> ctx_requiresFood ctx"
  then show "verdict (evalConditions c ctx) = verdict (evalConditions (without ''requiresFood'' c) ctx)"
    using verdict_without_food by blast
next
  assume "jget c ''requiresAlcohol'' = Some (JBool True) \<and> ctx_requiresAlcohol ctx"
  then show "verdict (evalConditions c ctx) = verdict (evalConditions (without ''requiresAlcohol'' c) ctx)"
    using verdict_without_alcohol by blast
next
  assume "jget c ''requiresFood'' \<noteq> Some (JBool True)"
  then show "evalConditions c (ctx\<lparr>ctx_requiresFood := b\<rparr>) = evalConditions c ctx"
    by (simp add: evalConditions_def steps_food_irrelevant)
next
  assume "jget c ''requiresAlcohol'' \<noteq> Some (JBool True)"
  then show "evalConditions c (ctx\<lparr>ctx_requiresAlcohol := b'\<rparr>) = evalConditions c ctx"
    by (simp add: evalConditions_def steps_alcohol_irrelevant)
next
  assume "jget c ''requiresFood'' \<noteq> Some (JBool True)"
    and "keys_length (without ''requiresFood'' c) \<noteq> 0"
  then show "evalConditions c ctx = evalConditions (without ''requiresFood'' c) ctx"
    by (rule eval_without_food(1))
next
  assume "jget c ''requiresFood'' \<noteq> Some (JBool True)"
    and "keys_length (without ''requiresFood'' c) = 0"
  then show "evalConditions c ctx
               = Inr \<lparr>ok = True,
                      reasons = [if jget c ''requiresFood'' = None
                                 then ''Applies generally (no extra conditions).''
                                 else ''Meets rule conditions.'']\<rparr>"
    by (rule eval_without_food(2))
next
  assume "jget c ''requiresAlcohol'' \<noteq> Some (JBool True)"
    and "keys_length (without ''requiresAlcohol'' c) \<noteq> 0"
  then show "evalConditions c ctx = evalConditions (without ''requiresAlcohol'' c) ctx"
    by (rule eval_without_alcohol(1))
next
  assume "jget c ''requiresAlcohol'' \<noteq> Some (JBool True)"
    and "keys_length (without ''requiresAlcohol'' c) = 0"
  then show "evalConditions c ctx
               = Inr \<lparr>ok = True,
                      reasons = [if jget c ''requiresAlcohol'' = None
                                 then ''Applies generally (no extra conditions).''
                                 else ''Meets rule conditions.'']\<rparr>"
    by (rule eval_without_alcohol(2))
qed

text \<open>\<open>{requiresFood: true}\<close> rejects the Los Angeles profile and matches a business that
  handles food; \<open>{requiresFood: false}\<close> matches both; with \<open>requiresFood: false\<close> added, the
  rule \<open>{requiresAlcohol: true}\<close> still matches the Los Angeles profile, for the same reason. The same
  holds with the two keys exchanged, and with the derived flag of the context switched off.\<close>

theorem gates_only_constrain_on_true_witness:
  "evalConditions food_rule (buildCtx la_profile) = Inr \<lparr>ok = False, reasons = []\<rparr>
   \<and> verdict (evalConditions food_rule (buildCtx food_profile)) = Inr True
   \<and> evalConditions no_food_rule (buildCtx food_profile)
       = Inr \<lparr>ok = True, reasons = [''Meets rule conditions.'']\<rparr>
   \<and> evalConditions no_food_rule (buildCtx la_profile)
       = Inr \<lparr>ok = True, reasons = [''Meets rule conditions.'']\<rparr>
   \<and> evalConditions no_food_alcohol_rule (buildCtx la_profile)
       = Inr \<lparr>ok = True, reasons = [''Sells alcohol.'']\<rparr>
   \<and> evalConditions alcohol_only_rule (buildCtx defaultBusinessForm) = Inr \<lparr>ok = False, reasons = []\<rparr>
   \<and> verdict (evalConditions alcohol_only_rule (buildCtx la_profile)) = Inr True
   \<and> evalConditions no_alcohol_rule (buildCtx la_profile)
       = Inr \<lparr>ok = True, reasons = [''Meets rule conditions.'']\<rparr>
   \<and> evalConditions food_no_alcohol_rule (buildCtx food_profile)
       = Inr \<lparr>ok = True, reasons = [''Handles food / on-site prep.'']\<rparr>
   \<and> evalConditions no_food_rule ((buildCtx food_profile)\<lparr>ctx_requiresFood := False\<rparr>)
       = Inr \<lparr>ok = True, reasons = [''Meets rule conditions.'']\<rparr>
   \<and> evalConditions no_alcohol_rule ((buildCtx la_profile)\<lparr>ctx_requiresAlcohol := False\<rparr>)
       = Inr \<lparr>ok = True, reasons = [''Meets rule conditions.'']\<rparr>"
proof -
  note t = gates_only_constrain_on_true
  have flags: "\<not> ctx_requiresFood (buildCtx la_profile)" "ctx_requiresFood (buildCtx food_profile)"
    "\<not> ctx_requiresAlcohol (buildCtx defaultBusinessForm)" "ctx_requiresAlcohol (buildCtx la_profile)"
    by code_simp+
  have j: "jget food_rule ''requiresFood'' = Some (JBool True)"
    "jget no_food_rule ''requiresFood'' = Some (JBool False)"
    "jget no_food_alcohol_rule ''requiresFood'' = Some (JBool False)"
    "jget alcohol_only_rule ''requiresAlcohol'' = Some (JBool True)"
    "jget no_alcohol_rule ''requiresAlcohol'' = Some (JBool False)"
    "jget food_no_alcohol_rule ''requiresAlcohol'' = Some (JBool False)"
    by (simp_all add: food_rule_def no_food_rule_def no_food_alcohol_rule_def alcohol_only_rule_def
        no_alcohol_rule_def food_no_alcohol_rule_def)
  have w: "without ''requiresFood'' food_rule = JObj []"
    "without ''requiresFood'' no_food_rule = JObj []"
    "without ''requiresFood'' no_food_alcohol_rule = alcohol_only_rule"
    "without ''requiresAlcohol'' alcohol_only_rule = JObj []"
    "without ''requiresAlcohol'' no_alcohol_rule = JObj []"
    "without ''requiresAlcohol'' food_no_alcohol_rule = food_rule"
    by (simp_all add: food_rule_def no_food_rule_def no_food_alcohol_rule_def alcohol_only_rule_def
        no_alcohol_rule_def food_no_alcohol_rule_def)
  have rest: "verdict (evalConditions (JObj []) (buildCtx food_profile)) = Inr True"
    "verdict (evalConditions (JObj []) (buildCtx la_profile)) = Inr True"
    "evalConditions alcohol_only_rule (buildCtx la_profile) = Inr \<lparr>ok = True, reasons = [''Sells alcohol.'']\<rparr>"
    "evalConditions food_rule (buildCtx food_profile)
       = Inr \<lparr>ok = True, reasons = [''Handles food / on-site prep.'']\<rparr>"
    by code_simp+
  have run1: "evalConditions food_rule (buildCtx la_profile) = Inr \<lparr>ok = False, reasons = []\<rparr>"
    "evalConditions alcohol_only_rule (buildCtx defaultBusinessForm) = Inr \<lparr>ok = False, reasons = []\<rparr>"
    by code_simp+
  have 1: "evalConditions food_rule (buildCtx la_profile) = Inr \<lparr>ok = False, reasons = []\<rparr>"
    using t [of food_rule "buildCtx la_profile"] j(1) flags(1) run1(1) by simp
  have 2: "verdict (evalConditions food_rule (buildCtx food_profile)) = Inr True"
    using t [of food_rule "buildCtx food_profile"] j(1) flags(2) w(1) rest(1) by simp
  have 3: "evalConditions no_food_rule (buildCtx food_profile)
             = Inr \<lparr>ok = True, reasons = [''Meets rule conditions.'']\<rparr>"
    using t [of no_food_rule "buildCtx food_profile"] j(2) w(2) by simp
  have 4: "evalConditions no_food_rule (buildCtx la_profile)
             = Inr \<lparr>ok = True, reasons = [''Meets rule conditions.'']\<rparr>"
    using t [of no_food_rule "buildCtx la_profile"] j(2) w(2) by simp
  have 5: "evalConditions no_food_alcohol_rule (buildCtx la_profile)
             = Inr \<lparr>ok = True, reasons = [''Sells alcohol.'']\<rparr>"
    using t [of no_food_alcohol_rule "buildCtx la_profile"] j(3) w(3) rest(3)
    by (simp add: alcohol_only_rule_def)
  have 6: "evalConditions alcohol_only_rule (buildCtx defaultBusinessForm) = Inr \<lparr>ok = False, reasons = []\<rparr>"
    using t [of alcohol_only_rule "buildCtx defaultBusinessForm"] j(4) flags(3) run1(2) by simp
  have 7: "verdict (evalConditions alcohol_only_rule (buildCtx la_profile)) = Inr True"
    using t [of alcohol_only_rule "buildCtx la_profile"] j(4) flags(4) w(4) rest(2) by simp
  have 8: "evalConditions no_alcohol_rule (buildCtx la_profile)
             = Inr \<lparr>ok = True, reasons = [''Meets rule conditions.'']\<rparr>"
    using t [of no_alcohol_rule "buildCtx la_profile"] j(5) w(5) by simp
  have 9: "evalConditions food_no_alcohol_rule (buildCtx food_profile)
             = Inr \<lparr>ok = True, reasons = [''Handles food / on-site prep.'']\<rparr>"
    using t [of food_no_alcohol_rule "buildCtx food_profile"] j(6) w(6) rest(4)
    by (simp add: food_rule_def)
  have 10: "evalConditions no_food_rule ((buildCtx food_profile)\<lparr>ctx_requiresFood := False\<rparr>)
              = Inr \<lparr>ok = True, reasons = [''Meets rule conditions.'']\<rparr>"
    using t [of no_food_rule "buildCtx food_profile" False] j(2) 3 by simp
  have 11: "evalConditions no_alcohol_rule ((buildCtx la_profile)\<lparr>ctx_requiresAlcohol := False\<rparr>)
              = Inr \<lparr>ok = True, reasons = [''Meets rule conditions.'']\<rparr>"
    using t [of no_alcohol_rule "buildCtx la_profile" _ False] j(5) 8 by simp
  show ?thesis by (intro conjI 1 2 3 4 5 6 7 8 9 10 11)
qed

subsection \<open>Values of the wrong shape\<close>

lemma map_of_fresh: "k \<notin> fst ` set kvs \<Longrightarrow> map_of kvs k = None"
  by (simp add: map_of_eq_None_iff)

lemma wrong_shape_number_keys: "k \<in> set number_keys \<Longrightarrow> wrong_shape k v = (\<not> is_number v)"
  by (auto simp: wrong_shape_def key_defs)

lemma wrong_shape_array_keys: "k \<in> set array_keys \<Longrightarrow> wrong_shape k v = (\<not> is_array v)"
  by (auto simp: wrong_shape_def key_defs)

lemma wrong_shape_boolean_keys: "k \<in> set boolean_keys \<Longrightarrow> wrong_shape k v = (\<not> is_boolean v)"
  by (auto simp: wrong_shape_def key_defs)

lemma ignore_employeesMin:
  assumes "k \<notin> fst ` set kvs" "wrong_shape k v"
  shows "step_employeesMin (JObj ((k, v) # kvs)) ctx = step_employeesMin (JObj kvs) ctx"
proof (cases "k = ''employeesMin''")
  case True
  then have "\<not> is_number v"
    using assms(2) wrong_shape_number_keys [of k v] by (simp add: key_defs)
  then show ?thesis
    using True map_of_fresh [OF assms(1)] by (cases v) (simp_all add: step_employeesMin_def)
next
  case False
  then show ?thesis by (auto simp: step_employeesMin_def)
qed

lemma ignore_employeesMax:
  assumes "k \<notin> fst ` set kvs" "wrong_shape k v"
  shows "step_employeesMax (JObj ((k, v) # kvs)) ctx = step_employeesMax (JObj kvs) ctx"
proof (cases "k = ''employeesMax''")
  case True
  then have "\<not> is_number v"
    using assms(2) wrong_shape_number_keys [of k v] by (simp add: key_defs)
  then show ?thesis
    using True map_of_fresh [OF assms(1)] by (cases v) (simp_all add: step_employeesMax_def)
next
  case False
  then show ?thesis by (auto simp: step_employeesMax_def)
qed

lemma ignore_industry:
  assumes "k \<notin> fst ` set kvs" "wrong_shape k v"
  shows "step_industry (JObj ((k, v) # kvs)) ctx = step_industry (JObj kvs) ctx"
proof (cases "k = ''industry''")
  case True
  then have "\<not> is_array v"
    using assms(2) wrong_shape_array_keys [of k v] by (simp add: key_defs)
  then show ?thesis
    using True map_of_fresh [OF assms(1)] by (cases v) (simp_all add: step_industry_def)
next
  case False
  then show ?thesis by (auto simp: step_industry_def)
qed

lemma ignore_requiresFood:
  assumes "k \<notin> fst ` set kvs" "wrong_shape k v"
  shows "step_requiresFood (JObj ((k, v) # kvs)) ctx = step_requiresFood (JObj kvs) ctx"
proof (cases "k = ''requiresFood''")
  case True
  then have "\<not> is_boolean v"
    using assms(2) wrong_shape_boolean_keys [of k v] by (simp add: key_defs)
  then show ?thesis
    using True map_of_fresh [OF assms(1)] by (cases v) (simp_all add: step_requiresFood_def)
next
  case False
  then show ?thesis by (auto simp: step_requiresFood_def)
qed

lemma ignore_requiresAlcohol:
  assumes "k \<notin> fst ` set kvs" "wrong_shape k v"
  shows "step_requiresAlcohol (JObj ((k, v) # kvs)) ctx = step_requiresAlcohol (JObj kvs) ctx"
proof (cases "k = ''requiresAlcohol''")
  case True
  then have "\<not> is_boolean v"
    using assms(2) wrong_shape_boolean_keys [of k v] by (simp add: key_defs)
  then show ?thesis
    using True map_of_fresh [OF assms(1)] by (cases v) (simp_all add: step_requiresAlcohol_def)
next
  case False
  then show ?thesis by (auto simp: step_requiresAlcohol_def)
qed

lemma ignore_cities:
  assumes "k \<notin> fst ` set kvs" "wrong_shape k v"
  shows "step_cities (JObj ((k, v) # kvs)) ctx = step_cities (JObj kvs) ctx"
proof (cases "k = ''cities''")
  case True
  then have "\<not> is_array v"
    using assms(2) wrong_shape_array_keys [of k v] by (simp add: key_defs)
  then show ?thesis
    using True map_of_fresh [OF assms(1)] by (cases v) (simp_all add: step_cities_def)
next
  case False
  then show ?thesis by (auto simp: step_cities_def)
qed

lemma ignore_employsMinors:
  assumes "k \<notin> fst ` set kvs" "wrong_shape k v"
  shows "step_employsMinors (JObj ((k, v) # kvs)) ctx = step_employsMinors (JObj kvs) ctx"
proof (cases "k = ''employsMinors''")
  case True
  then have "\<not> is_boolean v"
    using assms(2) wrong_shape_boolean_keys [of k v] by (simp add: key_defs)
  then show ?thesis
    using True map_of_fresh [OF assms(1)] by (cases v) (simp_all add: step_employsMinors_def)
next
  case False
  then show ?thesis by (auto simp: step_employsMinors_def)
qed

lemma ignore_minorsAges:
  assumes "k \<notin> fst ` set kvs" "wrong_shape k v"
  shows "step_minorsAges (JObj ((k, v) # kvs)) ctx = step_minorsAges (JObj kvs) ctx"
proof (cases "k = ''minorsAges''")
  case True
  then have "\<not> is_array v"
    using assms(2) wrong_shape_array_keys [of k v] by (simp add: key_defs)
  then show ?thesis
    using True map_of_fresh [OF assms(1)] by (cases v) (simp_all add: step_minorsAges_def)
next
  case False
  then show ?thesis by (auto simp: step_minorsAges_def)
qed

lemma ignore_tippedWorkers:
  assumes "k \<notin> fst ` set kvs" "wrong_shape k v"
  shows "step_tippedWorkers (JObj ((k, v) # kvs)) ctx = step_tippedWorkers (JObj kvs) ctx"
proof (cases "k = ''tippedWorkers''")
  case True
  then have "\<not> is_boolean v"
    using assms(2) wrong_shape_boolean_keys [of k v] by (simp add: key_defs)
  then show ?thesis
    using True map_of_fresh [OF assms(1)] by (cases v) (simp_all add: step_tippedWorkers_def)
next
  case False
  then show ?thesis by (auto simp: step_tippedWorkers_def)
qed

lemma ignore_collectsFromOtherStates:
  assumes "k \<notin> fst ` set kvs" "wrong_shape k v"
  shows "step_collectsFromOtherStates (JObj ((k, v) # kvs)) ctx = step_collectsFromOtherStates (JObj kvs) ctx"
proof (cases "k = ''collectsFromOtherStates''")
  case True
  then have "\<not> is_array v"
    using assms(2) wrong_shape_array_keys [of k v] by (simp add: key_defs)
  then show ?thesis
    using True map_of_fresh [OF assms(1)] by (cases v) (simp_all add: step_collectsFromOtherStates_def)
next
  case False
  then show ?thesis by (auto simp: step_collectsFromOtherStates_def)
qed

lemma ignore_allow_step:
  assumes "k \<notin> fst ` set kvs" "wrong_shape k v" "key \<in> set array_keys"
  shows "allow_step key x m (JObj ((k, v) # kvs)) = allow_step key x m (JObj kvs)"
proof (cases "k = key")
  case True
  then have "\<not> is_array v"
    using assms(2,3) wrong_shape_array_keys [of k v] by simp
  then show ?thesis
    using True map_of_fresh [OF assms(1)] by (cases v) (simp_all add: allow_step_def)
next
  case False
  then show ?thesis by (auto simp: allow_step_def)
qed

lemma ignore_flag_step:
  assumes "k \<notin> fst ` set kvs" "wrong_shape k v" "key \<in> set boolean_keys"
  shows "flag_step yes (JObj ((k, v) # kvs)) ctx key = flag_step yes (JObj kvs) ctx key"
proof (cases "k = key")
  case True
  then have "\<not> is_boolean v"
    using assms(2,3) wrong_shape_boolean_keys [of k v] by simp
  then show ?thesis
    using True map_of_fresh [OF assms(1)] by (cases v) (simp_all add: flag_step_def)
next
  case False
  then show ?thesis by (auto simp: flag_step_def)
qed

lemma ignore_structure_step:
  assumes "k \<notin> fst ` set kvs" "wrong_shape k v" "fst kv \<in> set array_keys"
  shows "structure_step (JObj ((k, v) # kvs)) ctx kv = structure_step (JObj kvs) ctx kv"
proof (cases "k = fst kv")
  case True
  then have "\<not> is_array v"
    using assms(2,3) wrong_shape_array_keys [of k v] by simp
  then show ?thesis
    using True map_of_fresh [OF assms(1)] by (cases v) (simp_all add: structure_step_def)
next
  case False
  then show ?thesis by (auto simp: structure_step_def)
qed

lemma ignore_steps:
  assumes "k \<notin> fst ` set kvs" "wrong_shape k v"
  shows "steps (JObj ((k, v) # kvs)) ctx = steps (JObj kvs) ctx"
proof -
  note ig = ignore_employeesMin [OF assms] ignore_employeesMax [OF assms] ignore_industry [OF assms]
    ignore_requiresFood [OF assms] ignore_requiresAlcohol [OF assms] ignore_cities [OF assms]
    ignore_employsMinors [OF assms] ignore_minorsAges [OF assms] ignore_tippedWorkers [OF assms]
    ignore_collectsFromOtherStates [OF assms]
  have a: "allow_step key x m (JObj ((k, v) # kvs)) = allow_step key x m (JObj kvs)"
    if "key \<in> set array_keys" for key x m
    using ignore_allow_step [OF assms that] .
  have f: "map (flag_step yes (JObj ((k, v) # kvs)) ctx) ks = map (flag_step yes (JObj kvs) ctx) ks"
    if "set ks \<subseteq> set boolean_keys" for yes ks
    using that ignore_flag_step [OF assms] by (induction ks) auto
  have s: "map (structure_step (JObj ((k, v) # kvs)) ctx) structure_keys
           = map (structure_step (JObj kvs) ctx) structure_keys"
    using ignore_structure_step [OF assms] by (simp add: structure_keys_def array_keys_def)
  have t: "set transport_keys \<subseteq> set boolean_keys" "set privacy_keys \<subseteq> set boolean_keys"
    "set facility_keys \<subseteq> set boolean_keys"
    by (auto simp: boolean_keys_def)
  show ?thesis
    unfolding steps_def step_alcoholType_def step_alcoholSalesContext_def
      step_tippedPercentBand_def step_dataVolumeBand_def
    by (simp add: ig f [OF t(1)] f [OF t(2)] f [OF t(3)] s a array_keys_def)
qed

text \<open>
  C1 (as amended). A recognised key whose value has the wrong shape is ignored, as if the
  key were absent: the result is that of the document without the key, and a document
  with no other key matches with the default reason. (The claim as stated, that such a rule
  is rejected, fails: see the counterexample.)
\<close>

theorem wrong_shape_ignored:
  assumes "k \<notin> fst ` set kvs" and "wrong_shape k v"
  shows "(kvs \<noteq> [] \<longrightarrow> evalConditions (JObj ((k, v) # kvs)) ctx = evalConditions (JObj kvs) ctx)
       \<and> (kvs = [] \<longrightarrow> evalConditions (JObj ((k, v) # kvs)) ctx
                          = Inr \<lparr>ok = True, reasons = [''Meets rule conditions.'']\<rparr>)"
proof (intro conjI impI)
  assume "kvs \<noteq> []"
  then show "evalConditions (JObj ((k, v) # kvs)) ctx = evalConditions (JObj kvs) ctx"
    by (simp add: evalConditions_def ignore_steps [OF assms])
next
  assume e: "kvs = []"
  have "steps (JObj []) ctx = replicate 35 Skip"
    by (simp add: steps_def step_defs allow_step_def flag_step_def structure_step_def key_defs
        structure_keys_def numeral_eq_Suc)
  then have "run (steps (JObj [(k, v)]) ctx) [] = Inr \<lparr>ok = True, reasons = [''Meets rule conditions.'']\<rparr>"
    using ignore_steps [OF assms, of ctx] e by (simp add: numeral_eq_Suc)
  then show "evalConditions (JObj ((k, v) # kvs)) ctx
               = Inr \<lparr>ok = True, reasons = [''Meets rule conditions.'']\<rparr>"
    using e by (simp add: evalConditions_def)
qed

theorem wrong_shape_ignored_witness:
  "''employeesMin'' \<notin> fst ` set [(''requiresAlcohol'', JBool True)]
   \<and> wrong_shape ''employeesMin'' (JStr ''10'')
   \<and> evalConditions (JObj [(''employeesMin'', JStr ''10''), (''requiresAlcohol'', JBool True)]) (buildCtx la_profile)
       = Inr \<lparr>ok = True, reasons = [''Sells alcohol.'']\<rparr>
   \<and> evalConditions (JObj [(''employeesMin'', JStr ''10'')]) (buildCtx la_profile)
       = Inr \<lparr>ok = True, reasons = [''Meets rule conditions.'']\<rparr>"
proof -
  have w: "wrong_shape ''employeesMin'' (JStr ''10'')"
    by code_simp
  have e: "evalConditions (JObj [(''requiresAlcohol'', JBool True)]) (buildCtx la_profile)
             = Inr \<lparr>ok = True, reasons = [''Sells alcohol.'']\<rparr>"
    by code_simp
  show ?thesis
    using wrong_shape_ignored [of "''employeesMin''" "[(''requiresAlcohol'', JBool True)]" "JStr ''10''" "buildCtx la_profile"]
      wrong_shape_ignored [of "''employeesMin''" "[]" "JStr ''10''" "buildCtx la_profile"] w e
    by simp
qed

text \<open>The rule \<open>{employeesMin: "10"}\<close> holds a string where a number is expected, and it matches
  a profile of three employees.\<close>

theorem wrong_shape_rejects_counterexample:
  "wrong_shape ''employeesMin'' (JStr ''10'')
   \<and> jget malformed_min_rule ''employeesMin'' = Some (JStr ''10'')
   \<and> evalConditions malformed_min_rule (buildCtx la_profile)
       = Inr \<lparr>ok = True, reasons = [''Meets rule conditions.'']\<rparr>"
  by code_simp

subsection \<open>The short circuit\<close>

text \<open>
  C2. The claim: whenever a recognised key fails its check, the result is
  \<open>{ok: false, reasons: []}\<close>. In the rule \<open>{industry: [5], requiresFood: true}\<close> the key
  \<open>requiresFood\<close> fails its check for a profile that handles no food, but the \<open>industry\<close>
  block, which runs first, calls \<open>lc(5)\<close> and throws: the evaluation returns nothing.
\<close>

theorem short_circuit_failing_input:
  "step_requiresFood bad_industry_rule (buildCtx la_profile) = Reject
   \<and> evalConditions bad_industry_rule (buildCtx la_profile) = Inl TypeError"
  by code_simp

text \<open>Where no block throws, the short-circuit holds: a failing key gives \<open>ok = false\<close> and
  no reasons, and a result carries reasons exactly when it is a match.\<close>

lemma short_circuit_no_raise:
  assumes "\<not> falsy c" "keys_length c \<noteq> 0" "Reject \<in> set (steps c ctx)"
    "\<forall>e. Raise e \<notin> set (steps c ctx)"
  shows "evalConditions c ctx = Inr \<lparr>ok = False, reasons = []\<rparr>"
  using assms by (simp add: evalConditions_def run_reject)

lemma reasons_iff_ok:
  assumes "evalConditions c ctx = Inr r"
  shows "reasons r \<noteq> [] \<longleftrightarrow> ok r"
  using assms run_ok [of "steps c ctx" "[]" r] run_not_ok [of "steps c ctx" "[]" r]
  by (auto simp: evalConditions_def split: if_splits)

subsection \<open>Allow-lists\<close>

lemma map_throw_Inr:
  "map_throw f xs = Inr ys \<Longrightarrow> \<forall>y \<in> set ys. \<exists>x \<in> set xs. f x = Inr y"
  by (induction xs arbitrary: ys) (auto split: sum.splits)

lemma steps_members:
  "step_alcoholType c ctx \<in> set (steps c ctx)"
  "step_alcoholSalesContext c ctx \<in> set (steps c ctx)"
  "step_tippedPercentBand c ctx \<in> set (steps c ctx)"
  "step_dataVolumeBand c ctx \<in> set (steps c ctx)"
  "step_minorsAges c ctx \<in> set (steps c ctx)"
  "step_collectsFromOtherStates c ctx \<in> set (steps c ctx)"
  "kv \<in> set structure_keys \<Longrightarrow> structure_step c ctx kv \<in> set (steps c ctx)"
  by (simp_all add: steps_def)

lemma allow_step_pass:
  assumes "allow_step key v msg c \<noteq> Reject" "jget c key = Some (JArr xs)" "xs \<noteq> []"
  shows "\<exists>s. v = Some s \<and> JStr s \<in> set xs"
  using assms by (auto simp: allow_step_def split: option.splits if_splits)

lemma structure_step_pass:
  assumes "structure_step c ctx (key, val) \<noteq> Reject" "jget c key = Some (JArr xs)" "xs \<noteq> []"
  shows "JStr (case ctx_band ctx val of None \<Rightarrow> [] | Some s \<Rightarrow> s) \<in> set xs"
  using assms by (auto simp: structure_step_def split: if_splits)

text \<open>
  C7 (as amended). If a rule matches and one of the ten allow-list keys holds a non-empty
  array, then: for \<open>alcoholType\<close>, \<open>alcoholSalesContext\<close>, \<open>tippedPercentBand\<close> and
  \<open>dataVolumeBand\<close> the context has a value and the array holds it; for \<open>minorsAges\<close> some
  age of the context is in the array; for \<open>collectsFromOtherStates\<close> some state of the
  context equals an array entry after the entry is trimmed and upper-cased; for
  \<open>revenueBand\<close>, \<open>legalStructure\<close>, \<open>payrollFrequency\<close> and \<open>numLocations\<close> the array holds
  the context's value, an absent value counting as the empty string.
\<close>

theorem allow_list_membership:
  assumes "evalConditions c ctx = Inr r" and "ok r" and "jget c key = Some (JArr xs)" and "xs \<noteq> []"
  shows
    "(key = ''alcoholType'' \<longrightarrow>
        (\<exists>a. ctx_alcoholType ctx = Some a \<and> JStr (AlcoholType_str a) \<in> set xs))
   \<and> (key = ''alcoholSalesContext'' \<longrightarrow>
        (\<exists>a. ctx_alcoholSalesContext ctx = Some a \<and> JStr (AlcoholSalesContext_str a) \<in> set xs))
   \<and> (key = ''tippedPercentBand'' \<longrightarrow>
        (\<exists>a. ctx_tippedPercentBand ctx = Some a \<and> JStr (TippedPercentBand_str a) \<in> set xs))
   \<and> (key = ''dataVolumeBand'' \<longrightarrow>
        (\<exists>a. ctx_dataVolumeBand ctx = Some a \<and> JStr (DataVolumeBand_str a) \<in> set xs))
   \<and> (key = ''minorsAges'' \<longrightarrow> (\<exists>s \<in> set (ctx_minorsAges ctx). JStr s \<in> set xs))
   \<and> (key = ''collectsFromOtherStates'' \<longrightarrow>
        (\<exists>s \<in> set (ctx_collectsFromOtherStates ctx). \<exists>x \<in> set xs. norm_any normState x = Inr s))
   \<and> (key = ''revenueBand'' \<longrightarrow>
        JStr (case ctx_revenueBand ctx of None \<Rightarrow> [] | Some b \<Rightarrow> RevenueBand_str b) \<in> set xs)
   \<and> (key = ''legalStructure'' \<longrightarrow>
        JStr (case ctx_legalStructure ctx of None \<Rightarrow> [] | Some b \<Rightarrow> LegalStructure_str b) \<in> set xs)
   \<and> (key = ''payrollFrequency'' \<longrightarrow>
        JStr (case ctx_payrollFrequency ctx of None \<Rightarrow> [] | Some b \<Rightarrow> PayrollFreq_str b) \<in> set xs)
   \<and> (key = ''numLocations'' \<longrightarrow>
        JStr (case ctx_numLocations ctx of None \<Rightarrow> [] | Some b \<Rightarrow> NumLocations_str b) \<in> set xs)"
proof -
  note clean = eval_ok_clean [OF assms(1,2,3)]
  have nr: "out \<in> set (steps c ctx) \<Longrightarrow> out \<noteq> Reject \<and> (\<forall>e. out \<noteq> Raise e)" for out
    using clean by auto
  have st: "JStr (case ctx_band ctx val of None \<Rightarrow> [] | Some s \<Rightarrow> s) \<in> set xs"
    if "(key, val) \<in> set structure_keys" for val
    using structure_step_pass [OF _ assms(3,4)] nr [OF steps_members(7) [OF that]] by blast
  show ?thesis
  proof (intro conjI impI)
    assume k: "key = ''alcoholType''"
    have "step_alcoholType c ctx \<noteq> Reject" using nr steps_members(1) by blast
    then show "\<exists>a. ctx_alcoholType ctx = Some a \<and> JStr (AlcoholType_str a) \<in> set xs"
      using allow_step_pass [of key _ _ c xs] assms(3,4) k
      by (fastforce simp: step_alcoholType_def)
  next
    assume k: "key = ''alcoholSalesContext''"
    have "step_alcoholSalesContext c ctx \<noteq> Reject" using nr steps_members(2) by blast
    then show "\<exists>a. ctx_alcoholSalesContext ctx = Some a \<and> JStr (AlcoholSalesContext_str a) \<in> set xs"
      using allow_step_pass [of key _ _ c xs] assms(3,4) k
      by (fastforce simp: step_alcoholSalesContext_def)
  next
    assume k: "key = ''tippedPercentBand''"
    have "step_tippedPercentBand c ctx \<noteq> Reject" using nr steps_members(3) by blast
    then show "\<exists>a. ctx_tippedPercentBand ctx = Some a \<and> JStr (TippedPercentBand_str a) \<in> set xs"
      using allow_step_pass [of key _ _ c xs] assms(3,4) k
      by (fastforce simp: step_tippedPercentBand_def)
  next
    assume k: "key = ''dataVolumeBand''"
    have "step_dataVolumeBand c ctx \<noteq> Reject" using nr steps_members(4) by blast
    then show "\<exists>a. ctx_dataVolumeBand ctx = Some a \<and> JStr (DataVolumeBand_str a) \<in> set xs"
      using allow_step_pass [of key _ _ c xs] assms(3,4) k
      by (fastforce simp: step_dataVolumeBand_def)
  next
    assume k: "key = ''minorsAges''"
    have "step_minorsAges c ctx \<noteq> Reject" using nr steps_members(5) by blast
    then show "\<exists>s \<in> set (ctx_minorsAges ctx). JStr s \<in> set xs"
      using assms(3,4) k by (auto simp: step_minorsAges_def hasAny_def split: if_splits)
  next
    assume k: "key = ''collectsFromOtherStates''"
    have "step_collectsFromOtherStates c ctx \<noteq> Reject \<and> (\<forall>e. step_collectsFromOtherStates c ctx \<noteq> Raise e)"
      using nr steps_members(6) by blast
    then obtain want where w: "map_throw (norm_any normState) xs = Inr want"
      and h: "\<exists>s \<in> set (ctx_collectsFromOtherStates ctx). s \<in> set want"
      using assms(3,4) k
      by (auto simp: step_collectsFromOtherStates_def split: sum.splits if_splits)
    then show "\<exists>s \<in> set (ctx_collectsFromOtherStates ctx). \<exists>x \<in> set xs. norm_any normState x = Inr s"
      using map_throw_Inr [OF w] by blast
  next
    assume "key = ''revenueBand''"
    then show "JStr (case ctx_revenueBand ctx of None \<Rightarrow> [] | Some b \<Rightarrow> RevenueBand_str b) \<in> set xs"
      using st [of "''revenueBand''"] by (cases "ctx_band ctx key") (auto simp: structure_keys_def ctx_band_def split: option.splits)
  next
    assume "key = ''legalStructure''"
    then show "JStr (case ctx_legalStructure ctx of None \<Rightarrow> [] | Some b \<Rightarrow> LegalStructure_str b) \<in> set xs"
      using st [of "''legalStructure''"] by (cases "ctx_band ctx key") (auto simp: structure_keys_def ctx_band_def split: option.splits)
  next
    assume "key = ''payrollFrequency''"
    then show "JStr (case ctx_payrollFrequency ctx of None \<Rightarrow> [] | Some b \<Rightarrow> PayrollFreq_str b) \<in> set xs"
      using st [of "''payrollFrequency''"] by (cases "ctx_band ctx key") (auto simp: structure_keys_def ctx_band_def split: option.splits)
  next
    assume "key = ''numLocations''"
    then show "JStr (case ctx_numLocations ctx of None \<Rightarrow> [] | Some b \<Rightarrow> NumLocations_str b) \<in> set xs"
      using st [of "''numLocations''"] by (cases "ctx_band ctx key") (auto simp: structure_keys_def ctx_band_def split: option.splits)
  qed
qed

text \<open>The Los Angeles scenario: the rule matches, with the reason on the alcohol sales
  context.\<close>

theorem allow_list_membership_witness:
  "evalConditions alcohol_rule (buildCtx la_profile)
     = Inr \<lparr>ok = True, reasons = [''Sells alcohol.'', ''Alcohol sales context matches (off-premise).'']\<rparr>
   \<and> jget alcohol_rule ''alcoholSalesContext'' = Some (JArr [JStr ''off-premise'', JStr ''both''])
   \<and> (\<exists>a. ctx_alcoholSalesContext (buildCtx la_profile) = Some a
          \<and> JStr (AlcoholSalesContext_str a) \<in> set [JStr ''off-premise'', JStr ''both''])"
proof -
  have e: "evalConditions alcohol_rule (buildCtx la_profile)
     = Inr \<lparr>ok = True, reasons = [''Sells alcohol.'', ''Alcohol sales context matches (off-premise).'']\<rparr>"
    by code_simp
  have j: "jget alcohol_rule ''alcoholSalesContext'' = Some (JArr [JStr ''off-premise'', JStr ''both''])"
    by (simp add: alcohol_rule_def)
  show ?thesis
    using allow_list_membership [OF e _ j] e j by simp
qed

text \<open>The allow-list \<open>["ca"]\<close> does not hold the context's state \<open>CA\<close>, and the rule
  matches.\<close>

theorem allow_list_literal_counterexample:
  "evalConditions lowercase_states_rule (buildCtx privacy_profile)
     = Inr \<lparr>ok = True, reasons = [''Collects data from specified states.'']\<rparr>
   \<and> jget lowercase_states_rule ''collectsFromOtherStates'' = Some (JArr [JStr ''ca''])
   \<and> ctx_collectsFromOtherStates (buildCtx privacy_profile) = [''CA'']
   \<and> JStr ''CA'' \<notin> set [JStr ''ca'']"
  by code_simp



section \<open>Properties of the grouping\<close>

lemma map_throw_list_all2:
  "map_throw f xs = Inr ys \<Longrightarrow> list_all2 (\<lambda>x y. f x = Inr y) xs ys"
  by (induction xs arbitrary: ys) (auto split: sum.splits)

lemma collect_matched_fst:
  "collect_matched rows ctx = Inr ms \<Longrightarrow> map fst ms = filter (is_match ctx) rows"
  by (induction rows arbitrary: ms) (auto simp: is_match_def split: sum.splits if_splits)

lemma toPublic_key:
  "toPublic eng r rs p = Inr pub \<Longrightarrow> pub_key pub = row_key r \<and> appliesBecause pub = rs"
  by (auto simp: toPublic_def pub_key_def row_key_def Let_def split: sum.splits)

lemma bucket_keys:
  assumes "bucket eng ctx lv ms = Inr ps"
  shows "map pub_key ps = map row_key (filter (\<lambda>r. level r = lv) (map fst ms))"
proof -
  have "list_all2 (\<lambda>m y. toPublic eng (fst m) (snd m) (ctx_raw ctx) = Inr y)
          (filter (\<lambda>m. level (fst m) = lv) ms) ps"
    using assms map_throw_list_all2 unfolding bucket_def by fast
  then have "list_all2 (\<lambda>m y. row_key (fst m) = pub_key y) (filter (\<lambda>m. level (fst m) = lv) ms) ps"
    by (rule list_all2_mono) (use toPublic_key in fastforce)
  then have "map (\<lambda>m. row_key (fst m)) (filter (\<lambda>m. level (fst m) = lv) ms) = map pub_key ps"
    by (induction rule: list_all2_induct) auto
  then show ?thesis by (simp add: filter_map comp_def)
qed

lemma group_rows_groups:
  assumes "group_rows eng ctx rows = Inr out"
  shows "map pub_key (grp_federal (grouped out))
           = map row_key (filter (\<lambda>r. level r = LFederal \<and> is_match ctx r) rows)
       \<and> map pub_key (grp_state (grouped out))
           = map row_key (filter (\<lambda>r. level r = LState \<and> is_match ctx r) rows)
       \<and> map pub_key (grp_city (grouped out))
           = map row_key (filter (\<lambda>r. level r = LCity \<and> is_match ctx r) rows)
       \<and> grp_industry (grouped out) = []
       \<and> count out = length (grp_federal (grouped out)) + length (grp_state (grouped out))
                       + length (grp_city (grouped out))"
proof -
  from assms obtain ms fed st ci where
    ms: "collect_matched rows ctx = Inr ms"
    and b: "bucket eng ctx LFederal ms = Inr fed" "bucket eng ctx LState ms = Inr st"
      "bucket eng ctx LCity ms = Inr ci"
    and out: "out = \<lparr>grouped = \<lparr>grp_federal = fed, grp_state = st, grp_city = ci, grp_industry = []\<rparr>,
                      count = length fed + length st + length ci\<rparr>"
    by (auto simp: group_rows_def Let_def split: sum.splits)
  have f: "filter (\<lambda>r. level r = lv) (map fst ms) = filter (\<lambda>r. level r = lv \<and> is_match ctx r) rows" for lv
    using collect_matched_fst [OF ms] by (simp add: conj_commute)
  show ?thesis
    using bucket_keys [OF b(1)] bucket_keys [OF b(2)] bucket_keys [OF b(3)] by (simp add: out f)
qed

lemma matchRules_result:
  "fst (matchRules eng query now jurCache payload)
     = (case candidate_rows query now jurCache payload of
          Inl e \<Rightarrow> Inl e
        | Inr rows \<Rightarrow> group_rows eng (buildCtx payload) rows)"
  by (auto simp: matchRules_def candidate_rows_def Let_def split: option.splits sum.splits)

lemma sample_candidate_rows:
  "candidate_rows (rules_query sample_catalog) 0 no_cache payroll_profile = Inr sample_candidates"
proof -
  have "ctx_statesArr (buildCtx payroll_profile) = [''CA'']"
    "ctx_citiesArr (buildCtx payroll_profile) = [''los angeles'']"
    by code_simp+
  then show ?thesis
    by (simp add: candidate_rows_def rules_query_def no_cache_def sample_candidates_def)
qed

lemma sample_returns:
  "\<exists>out. fst (matchRules sample_engine (rules_query sample_catalog) 0 no_cache payroll_profile) = Inr out"
proof -
  have "isl (fst (matchRules sample_engine (rules_query sample_catalog) 0 no_cache payroll_profile)) = False"
    by code_simp
  then show ?thesis
    by (cases "fst (matchRules sample_engine (rules_query sample_catalog) 0 no_cache payroll_profile)") auto
qed

text \<open>
  C8. Whatever the order of the candidate rows, each group of the output is the list of the
  matched candidates of its level, in the order of the candidate list, with none left out
  and none added (rows are identified by id, title and level); and \<open>count\<close> is the sum
  of the sizes of the groups.
\<close>

theorem groups_preserve_candidate_order:
  assumes "candidate_rows query now jurCache payload = Inr rows"
    and "fst (matchRules eng query now jurCache payload) = Inr out"
  shows "map pub_key (grp_federal (grouped out))
           = map row_key (filter (\<lambda>r. level r = LFederal \<and> is_match (buildCtx payload) r) rows)
       \<and> map pub_key (grp_state (grouped out))
           = map row_key (filter (\<lambda>r. level r = LState \<and> is_match (buildCtx payload) r) rows)
       \<and> map pub_key (grp_city (grouped out))
           = map row_key (filter (\<lambda>r. level r = LCity \<and> is_match (buildCtx payload) r) rows)
       \<and> count out = length (grp_federal (grouped out)) + length (grp_state (grouped out))
                       + length (grp_city (grouped out)) + length (grp_industry (grouped out))"
  using assms group_rows_groups [of eng "buildCtx payload" rows out]
  by (simp add: matchRules_result)

theorem groups_preserve_candidate_order_witness:
  "candidate_rows (rules_query sample_catalog) 0 no_cache payroll_profile = Inr sample_candidates
   \<and> map rule_id sample_candidates = [''fed-i9'', ''fed-w4'', ''ca-abc'', ''ca-poster'', ''la-large'']
   \<and> (\<exists>out. fst (matchRules sample_engine (rules_query sample_catalog) 0 no_cache payroll_profile) = Inr out
        \<and> map pub_key (grp_federal (grouped out))
            = [(''fed-i9'', ''Form I-9'', LFederal), (''fed-w4'', ''Form W-4'', LFederal)]
        \<and> map pub_key (grp_state (grouped out))
            = [(''ca-abc'', ''Alcohol licence'', LState), (''ca-poster'', ''CA wage poster'', LState)]
        \<and> map pub_key (grp_city (grouped out)) = []
        \<and> count out = 4)"
proof -
  obtain out where
    m: "fst (matchRules sample_engine (rules_query sample_catalog) 0 no_cache payroll_profile) = Inr out"
    using sample_returns by blast
  have ids: "map rule_id sample_candidates = [''fed-i9'', ''fed-w4'', ''ca-abc'', ''ca-poster'', ''la-large'']"
    by code_simp
  have f: "map row_key (filter (\<lambda>r. level r = LFederal \<and> is_match (buildCtx payroll_profile) r) sample_candidates)
             = [(''fed-i9'', ''Form I-9'', LFederal), (''fed-w4'', ''Form W-4'', LFederal)]"
    by code_simp
  have s: "map row_key (filter (\<lambda>r. level r = LState \<and> is_match (buildCtx payroll_profile) r) sample_candidates)
             = [(''ca-abc'', ''Alcohol licence'', LState), (''ca-poster'', ''CA wage poster'', LState)]"
    by code_simp
  have c: "map row_key (filter (\<lambda>r. level r = LCity \<and> is_match (buildCtx payroll_profile) r) sample_candidates) = []"
    by code_simp
  note g = groups_preserve_candidate_order [OF sample_candidate_rows m]
  have gf: "map pub_key (grp_federal (grouped out))
            = [(''fed-i9'', ''Form I-9'', LFederal), (''fed-w4'', ''Form W-4'', LFederal)]"
    using g f by (simp only:)
  have gs: "map pub_key (grp_state (grouped out))
            = [(''ca-abc'', ''Alcohol licence'', LState), (''ca-poster'', ''CA wage poster'', LState)]"
    using g s by (simp only:)
  have gc: "map pub_key (grp_city (grouped out)) = []"
    using g c by (simp only:)
  have gi: "grp_industry (grouped out) = []"
    using m group_rows_groups [of sample_engine "buildCtx payroll_profile" sample_candidates out]
      sample_candidate_rows
    by (simp add: matchRules_result)
  have "length (grp_federal (grouped out)) = 2" "length (grp_state (grouped out)) = 2"
    "length (grp_city (grouped out)) = 0"
    using arg_cong [OF gf, of length] arg_cong [OF gs, of length] arg_cong [OF gc, of length]
    by simp_all
  then have n: "count out = 4" using g gi by simp
  show ?thesis
    by (intro conjI exI [of _ out] sample_candidate_rows ids m gf gs gc n)
qed

lemma multi_returns:
  "\<exists>out. fst (matchRules sample_engine (rules_query sample_catalog) 0 no_cache multi_state_profile) = Inr out"
proof -
  have "isl (fst (matchRules sample_engine (rules_query sample_catalog) 0 no_cache multi_state_profile)) = False"
    by code_simp
  then show ?thesis
    by (cases "fst (matchRules sample_engine (rules_query sample_catalog) 0 no_cache multi_state_profile)") auto
qed

text \<open>
  C9. Whenever \<open>matchRules\<close> returns, the \<open>industry\<close> group of its output is empty, and
  \<open>count\<close> is the sum of the sizes of the federal, state and city groups.
\<close>

theorem industry_bucket_empty:
  assumes "fst (matchRules eng query now jurCache payload) = Inr out"
  shows "grp_industry (grouped out) = []
       \<and> count out = length (grp_federal (grouped out)) + length (grp_state (grouped out))
                       + length (grp_city (grouped out))"
proof -
  from assms obtain rows where "group_rows eng (buildCtx payload) rows = Inr out"
    by (auto simp: matchRules_result split: sum.splits)
  then show ?thesis using group_rows_groups by blast
qed

theorem industry_bucket_empty_witness:
  "\<exists>out. fst (matchRules sample_engine (rules_query sample_catalog) 0 no_cache multi_state_profile) = Inr out
      \<and> grp_industry (grouped out) = []
      \<and> count out = length (grp_federal (grouped out)) + length (grp_state (grouped out))
                      + length (grp_city (grouped out))"
proof -
  obtain out where
    m: "fst (matchRules sample_engine (rules_query sample_catalog) 0 no_cache multi_state_profile) = Inr out"
    using multi_returns by blast
  show ?thesis
    using industry_bucket_empty [OF m] m by blast
qed

lemma multi_state_count:
  "map_sum id count (fst (matchRules sample_engine (rules_query sample_catalog) 0 no_cache multi_state_profile)) = Inr 4"
  by code_simp

text \<open>The query delivers federal rows first, then state rows, then city rows, each level in
  ascending order of title.\<close>

lemma rules_query_sorted:
  "rules_query catalog states cities = Inr rows \<Longrightarrow>
     sorted (map (\<lambda>r. (level_rank (level r), title r)) rows)"
  by (auto simp: rules_query_def)

lemma sorted_level_titles:
  "sorted (map (\<lambda>r. (level_rank (level r), title r)) rows) \<Longrightarrow>
     sorted (map title (filter (\<lambda>r. level r = lv \<and> P r) rows))"
proof (induction rows)
  case Nil
  then show ?case by simp
next
  case (Cons r rows)
  then show ?case by (auto simp: less_eq_prod_def)
qed

lemma pub_key_titles: "map pub_key ps = map row_key rs \<Longrightarrow> map pub_title ps = map title rs"
proof -
  assume "map pub_key ps = map row_key rs"
  then have "map (fst \<circ> snd) (map pub_key ps) = map (fst \<circ> snd) (map row_key rs)" by simp
  then show ?thesis by (simp add: pub_key_def row_key_def comp_def)
qed

lemma groups_sorted_by_title:
  assumes "candidate_rows query now jurCache payload = Inr rows"
    and "fst (matchRules eng query now jurCache payload) = Inr out"
    and "sorted (map (\<lambda>r. (level_rank (level r), title r)) rows)"
  shows "sorted (map pub_title (grp_federal (grouped out)))
       \<and> sorted (map pub_title (grp_state (grouped out)))
       \<and> sorted (map pub_title (grp_city (grouped out)))"
proof -
  from assms(1,2) have "group_rows eng (buildCtx payload) rows = Inr out"
    by (simp add: matchRules_result)
  then show ?thesis
    using group_rows_groups [of eng "buildCtx payload" rows out] sorted_level_titles [OF assms(3)]
    by (auto dest!: pub_key_titles)
qed

text \<open>In particular each group is a subsequence of the candidate list.\<close>

lemma groups_are_subsequences:
  assumes "candidate_rows query now jurCache payload = Inr rows"
    and "fst (matchRules eng query now jurCache payload) = Inr out"
  shows "subseq (map pub_key (grp_federal (grouped out))) (map row_key rows)
       \<and> subseq (map pub_key (grp_state (grouped out))) (map row_key rows)
       \<and> subseq (map pub_key (grp_city (grouped out))) (map row_key rows)"
proof -
  from assms have "group_rows eng (buildCtx payload) rows = Inr out"
    by (simp add: matchRules_result)
  then show ?thesis
    using group_rows_groups [of eng "buildCtx payload" rows out]
    by (simp add: subseq_map)
qed

section \<open>Properties of the calendar functions\<close>

lemma div_succ:
  fixes a k :: int
  assumes "0 < k"
  shows "(a + 1) div k = a div k + (if (a + 1) mod k = 0 then 1 else 0)"
proof -
  define q where "q = a div k"
  define r where "r = a mod k"
  have a: "a = k * q + r" by (simp add: q_def r_def)
  have r: "0 \<le> r" "r < k" using assms by (simp_all add: r_def)
  show ?thesis
  proof (cases "r + 1 = k")
    case True
    then have "a + 1 = k * (q + 1)" using a by (simp add: algebra_simps)
    then show ?thesis using assms by (simp add: q_def [symmetric])
  next
    case False
    then have lt: "r + 1 < k" using r by simp
    have e: "a + 1 = (r + 1) + q * k" using a by simp
    have "(a + 1) div k = q" unfolding e using lt r by (simp add: div_pos_pos_trivial)
    moreover have "(a + 1) mod k = r + 1" unfolding e using lt r by (simp add: mod_pos_pos_trivial)
    ultimately show ?thesis using r by (simp add: q_def)
  qed
qed

lemma step4: "(y + 1 - 1969) div 4 = (y - 1969) div 4 + (if y mod 4 = 0 then 1 else 0)" for y :: int
proof -
  have "(y - 1969 + 1) mod 4 = (y - 4 * 492) mod 4" by simp
  also have "\<dots> = y mod 4" by (rule mod_diff_eq [symmetric, THEN trans]) simp
  finally show ?thesis using div_succ [of 4 "y - 1969"] by (simp add: algebra_simps)
qed

lemma step100: "(y + 1 - 1901) div 100 = (y - 1901) div 100 + (if y mod 100 = 0 then 1 else 0)" for y :: int
proof -
  have "(y - 1901 + 1) mod 100 = (y - 100 * 19) mod 100" by simp
  also have "\<dots> = y mod 100" by (rule mod_diff_eq [symmetric, THEN trans]) simp
  finally show ?thesis using div_succ [of 100 "y - 1901"] by (simp add: algebra_simps)
qed

lemma step400: "(y + 1 - 1601) div 400 = (y - 1601) div 400 + (if y mod 400 = 0 then 1 else 0)" for y :: int
proof -
  have "(y - 1601 + 1) mod 400 = (y - 400 * 4) mod 400" by simp
  also have "\<dots> = y mod 400" by (rule mod_diff_eq [symmetric, THEN trans]) simp
  finally show ?thesis using div_succ [of 400 "y - 1601"] by (simp add: algebra_simps)
qed

lemma mod_chain: "y mod 400 = 0 \<Longrightarrow> y mod 100 = 0" "y mod 100 = 0 \<Longrightarrow> y mod 4 = 0" for y :: int
proof -
  have d: "(100 :: int) dvd 400" "(4 :: int) dvd 100" by simp_all
  show "y mod 400 = 0 \<Longrightarrow> y mod 100 = 0"
    using dvd_trans [OF d(1), of y] by (simp add: mod_eq_0_iff_dvd)
  show "y mod 100 = 0 \<Longrightarrow> y mod 4 = 0"
    using dvd_trans [OF d(2), of y] by (simp add: mod_eq_0_iff_dvd)
qed

lemma leap_sum:
  fixes a b c y :: int
  assumes "p400 \<longrightarrow> p100" "p100 \<longrightarrow> p4"
  shows "365 * (y + 1 - 1970) + (a + (if p4 then 1 else 0)) - (b + (if p100 then 1 else 0))
           + (c + (if p400 then 1 else 0))
         = 365 * (y - 1970) + a - b + c
           + (if \<not> p4 then 365 else if \<not> p100 then 366 else if \<not> p400 then 365 else 366)"
  using assms by auto

lemma DayFromYear_Suc: "DayFromYear (y + 1) = DayFromYear y + DaysInYear y"
  unfolding DayFromYear_def DaysInYear_def step4 step100 step400
  by (rule leap_sum) (use mod_chain [of y] in blast)+

lemma DaysInYear_cases: "DaysInYear y = 365 \<or> DaysInYear y = 366"
  by (simp add: DaysInYear_def)

lemma DayFromYear_less_nat: "DayFromYear y < DayFromYear (y + 1 + int n)"
proof (induction n)
  case 0
  then show ?case using DayFromYear_Suc [of y] DaysInYear_cases [of y] by auto
next
  case (Suc n)
  then show ?case
    using DayFromYear_Suc [of "y + 1 + int n"] DaysInYear_cases [of "y + 1 + int n"]
    by (auto simp: algebra_simps)
qed

lemma DayFromYear_less: "y < y' \<Longrightarrow> DayFromYear y < DayFromYear y'"
  using DayFromYear_less_nat [of y "nat (y' - y - 1)"] by simp

lemma DayFromYear_mono: "y \<le> y' \<Longrightarrow> DayFromYear y \<le> DayFromYear y'"
  using DayFromYear_less [of y y'] by (cases "y = y'") auto

lemma DayFromYear_1970: "DayFromYear 1970 = 0"
  by (simp add: DayFromYear_def)

lemma DayFromYear_upper: "DayFromYear (1970 + int n) \<le> 366 * int n"
proof (induction n)
  case 0
  then show ?case by (simp add: DayFromYear_1970)
next
  case (Suc n)
  then show ?case
    using DayFromYear_Suc [of "1970 + int n"] DaysInYear_cases [of "1970 + int n"]
    by (auto simp: algebra_simps)
qed

lemma DayFromYear_upper_neg: "DayFromYear (1970 - int n) \<le> - 365 * int n"
proof (induction n)
  case 0
  then show ?case by (simp add: DayFromYear_1970)
next
  case (Suc n)
  have "1970 - int (Suc n) + 1 = 1970 - int n" by simp
  then show ?case
    using Suc DayFromYear_Suc [of "1970 - int (Suc n)"] DaysInYear_cases [of "1970 - int (Suc n)"]
    by auto
qed

lemma year_lower_bound:
  "DayFromYear (1970 + (if 0 \<le> day then day div 366 else day div 365)) \<le> day"
proof (cases "0 \<le> day")
  case True
  then have "0 \<le> day div 366" by simp
  then have "DayFromYear (1970 + day div 366) \<le> 366 * (day div 366)"
    using DayFromYear_upper [of "nat (day div 366)"] by simp
  also have "\<dots> \<le> day" by presburger
  finally show ?thesis using True by simp
next
  case False
  then have "day div 365 \<le> 0" by presburger
  then have "DayFromYear (1970 + day div 365) \<le> 365 * (day div 365)"
    using DayFromYear_upper_neg [of "nat (- (day div 365))"] by simp
  also have "\<dots> \<le> day" by presburger
  finally show ?thesis using False by simp
qed

lemma year_search_spec:
  "DayFromYear y \<le> day \<Longrightarrow>
     DayFromYear (year_search day y) \<le> day \<and> day < DayFromYear (year_search day y + 1)"
proof (induction day y rule: year_search.induct)
  case (1 day y)
  then show ?case by (subst (1 2) year_search.simps) auto
qed

lemma YearFromDay_spec:
  "DayFromYear (YearFromDay day) \<le> day \<and> day < DayFromYear (YearFromDay day + 1)"
  unfolding YearFromDay_def by (rule year_search_spec) (rule year_lower_bound)

lemma YearFromDay_unique:
  assumes "DayFromYear y \<le> day" "day < DayFromYear (y + 1)"
  shows "YearFromDay day = y"
proof (rule ccontr)
  assume ne: "YearFromDay day \<noteq> y"
  note s = YearFromDay_spec [of day]
  show False
  proof (cases "YearFromDay day < y")
    case True
    then have "DayFromYear (YearFromDay day + 1) \<le> DayFromYear y"
      by (intro DayFromYear_mono) simp
    with s assms show False by linarith
  next
    case False
    with ne have "DayFromYear (y + 1) \<le> DayFromYear (YearFromDay day)"
      by (intro DayFromYear_mono) simp
    with s assms show False by linarith
  qed
qed

lemma month_of_yday_range: "0 \<le> month_of_yday d L \<and> month_of_yday d L \<le> 11"
  by (simp add: month_of_yday_def)

lemma yday_date_range:
  assumes "0 \<le> d" "d < 365 + L" "L = 0 \<or> L = 1"
  shows "1 \<le> d - month_start (month_of_yday d L) L + 1
       \<and> d - month_start (month_of_yday d L) L + 1 \<le> 31"
  using assms by (auto simp: month_of_yday_def month_start_def)

lemma InLeapYear_days: "DaysInYear (YearFromTime t) = 365 + InLeapYear t"
  using DaysInYear_cases [of "YearFromTime t"] by (auto simp: InLeapYear_def)

lemma InLeapYear_cases: "InLeapYear t = 0 \<or> InLeapYear t = 1"
  by (simp add: InLeapYear_def)

lemma DayWithinYear_range: "0 \<le> DayWithinYear t \<and> DayWithinYear t < 365 + InLeapYear t"
  using YearFromDay_spec [of "Day t"] DayFromYear_Suc [of "YearFromTime t"] InLeapYear_days [of t]
  by (simp add: DayWithinYear_def YearFromTime_def)

lemma MonthFromTime_range: "0 \<le> MonthFromTime t \<and> MonthFromTime t \<le> 11"
  by (simp add: MonthFromTime_def month_of_yday_range)

lemma DateFromTime_range: "1 \<le> DateFromTime t \<and> DateFromTime t \<le> 31"
  unfolding DateFromTime_def MonthFromTime_def
  using yday_date_range [of "DayWithinYear t" "InLeapYear t"] DayWithinYear_range [of t]
    InLeapYear_cases [of t]
  by blast

lemma MakeDay_of_time:
  "MakeDay (YearFromTime t) (MonthFromTime t) x = Day t - DateFromTime t + x"
proof -
  have m: "MonthFromTime t div 12 = 0" "MonthFromTime t mod 12 = MonthFromTime t"
    using MonthFromTime_range [of t] by simp_all
  show ?thesis
    by (simp add: MakeDay_def m Let_def DateFromTime_def DayWithinYear_def InLeapYear_def)
qed

lemma Day_split: "Day t * msPerDay + TimeWithinDay t = t"
  by (simp add: Day_def TimeWithinDay_def)

lemma setUTCDate_shift:
  "setUTCDate (Some t) (map_option (\<lambda>g. g + n) (getUTCDate (Some t))) = TimeClip (t + n * msPerDay)"
proof -
  have "MakeDate (Day t + n) (TimeWithinDay t) = t + n * msPerDay"
    using Day_split [of t] by (simp add: MakeDate_def algebra_simps)
  then show ?thesis
    by (simp add: setUTCDate_def getUTCDate_def MakeDay_of_time)
qed

text \<open>A calendar date goes to its day number and back.\<close>

lemma month_start_yday:
  assumes "1 \<le> m" "m \<le> 12" "1 \<le> d" "d \<le> DaysInMonth y m"
  shows "0 \<le> month_start (m - 1) (if DaysInYear y = 366 then 1 else 0) + d - 1
       \<and> month_start (m - 1) (if DaysInYear y = 366 then 1 else 0) + d - 1 < DaysInYear y
       \<and> month_of_yday (month_start (m - 1) (if DaysInYear y = 366 then 1 else 0) + d - 1)
            (if DaysInYear y = 366 then 1 else 0) = m - 1"
proof -
  have "m = 1 \<or> m = 2 \<or> m = 3 \<or> m = 4 \<or> m = 5 \<or> m = 6 \<or> m = 7 \<or> m = 8 \<or> m = 9 \<or> m = 10
        \<or> m = 11 \<or> m = 12"
    using assms(1,2) by presburger
  then show ?thesis
    using assms(3,4) DaysInYear_cases [of y]
    by (elim disjE) (auto simp: month_start_def month_of_yday_def DaysInMonth_def)
qed

lemma MakeDay_valid:
  assumes "1 \<le> m" "m \<le> 12" "1 \<le> d" "d \<le> DaysInMonth y m"
  shows "YearFromDay (MakeDay y (m - 1) d) = y"
    and "MakeDay y (m - 1) d - DayFromYear y
          = month_start (m - 1) (if DaysInYear y = 366 then 1 else 0) + d - 1"
proof -
  have dm: "(m - 1) div 12 = 0" "(m - 1) mod 12 = m - 1" using assms(1,2) by simp_all
  show e: "MakeDay y (m - 1) d - DayFromYear y
          = month_start (m - 1) (if DaysInYear y = 366 then 1 else 0) + d - 1"
    by (simp add: MakeDay_def dm Let_def)
  show "YearFromDay (MakeDay y (m - 1) d) = y"
    using month_start_yday [OF assms] e DayFromYear_Suc [of y]
    by (intro YearFromDay_unique) linarith+
qed

lemma time_of_valid_date:
  assumes "1 \<le> m" "m \<le> 12" "1 \<le> d" "d \<le> DaysInMonth y m"
  defines "t \<equiv> MakeDate (MakeDay y (m - 1) d) 0"
  shows "YearFromTime t = y \<and> MonthFromTime t = m - 1 \<and> DateFromTime t = d"
proof -
  have D: "Day t = MakeDay y (m - 1) d" by (simp add: t_def MakeDate_def Day_def msPerDay_def)
  have Y: "YearFromTime t = y" using MakeDay_valid(1) [OF assms(1-4)] by (simp add: YearFromTime_def D)
  have W: "DayWithinYear t = month_start (m - 1) (if DaysInYear y = 366 then 1 else 0) + d - 1"
    using MakeDay_valid(2) [OF assms(1-4)] by (simp add: DayWithinYear_def D Y)
  have L: "InLeapYear t = (if DaysInYear y = 366 then 1 else 0)" by (simp add: InLeapYear_def Y)
  have M: "MonthFromTime t = m - 1"
    using month_start_yday [OF assms(1-4)] by (simp add: MonthFromTime_def W L)
  have "DateFromTime t = d" by (simp add: DateFromTime_def M W L)
  with Y M show ?thesis by simp
qed

section \<open>Properties of the date texts\<close>

lemma digit_char_props:
  assumes "k < 10"
  shows "is_digit (digit_char k)" and "int (of_char (digit_char k)) - 48 = int k"
proof -
  have "k = 0 \<or> k = 1 \<or> k = 2 \<or> k = 3 \<or> k = 4 \<or> k = 5 \<or> k = 6 \<or> k = 7 \<or> k = 8 \<or> k = 9"
    using assms by presburger
  then show "is_digit (digit_char k)" and "int (of_char (digit_char k)) - 48 = int k"
    by (auto simp: is_digit_def digit_char_def)
qed

lemma digit_of_mod: "is_digit (digit_char (nat (x mod 10)))"
  and digit_val_mod: "int (of_char (digit_char (nat (x mod 10)))) - 48 = x mod 10" for x :: int
  using digit_char_props [of "nat (x mod 10)"] by simp_all

lemma pad2_digits: "list_all is_digit (pad2 n)" "length (pad2 n) = 2"
  by (simp_all add: pad2_def digit_of_mod)

lemma pad4_digits: "list_all is_digit (pad4 n)" "length (pad4 n) = 4"
  by (simp_all add: pad4_def pad3_def pad2_def digit_of_mod)

lemma digit_val_nat:
  "0 \<le> a \<Longrightarrow> a < 10 \<Longrightarrow> int (of_char (digit_char (nat a))) - 48 = a" for a :: int
  using digit_char_props(2) [of "nat a"] by simp

lemma digits_val2:
  assumes "0 \<le> a" "a < 10" "0 \<le> b" "b < 10"
  shows "digits_val [digit_char (nat a), digit_char (nat b)] = 10 * a + b"
  using digit_val_nat [OF assms(1,2)] digit_val_nat [OF assms(3,4)]
  by (simp add: digits_val_def)

lemma digits_val4:
  assumes "0 \<le> a" "a < 10" "0 \<le> b" "b < 10" "0 \<le> c" "c < 10" "0 \<le> e" "e < 10"
  shows "digits_val [digit_char (nat a), digit_char (nat b), digit_char (nat c), digit_char (nat e)]
           = 1000 * a + 100 * b + 10 * c + e"
  using digit_val_nat [OF assms(1,2)] digit_val_nat [OF assms(3,4)] digit_val_nat [OF assms(5,6)]
    digit_val_nat [OF assms(7,8)]
  by (simp add: digits_val_def)

lemma pad2_val:
  assumes "0 \<le> n" "n < 100"
  shows "digits_val (pad2 n) = n"
proof -
  have "digits_val (pad2 n) = 10 * (n div 10 mod 10) + n mod 10"
    unfolding pad2_def by (rule digits_val2) simp_all
  also have "\<dots> = n"
  proof -
    have "n div 10 mod 10 = n div 10" using assms by simp
    then show ?thesis by simp
  qed
  finally show ?thesis .
qed

lemma pad4_val:
  assumes "0 \<le> n" "n \<le> 9999"
  shows "digits_val (pad4 n) = n"
proof -
  have "digits_val (pad4 n)
          = 1000 * (n div 1000 mod 10) + 100 * (n div 100 mod 10) + 10 * (n div 10 mod 10) + n mod 10"
    unfolding pad4_def pad3_def pad2_def by (rule digits_val4) simp_all
  also have "\<dots> = n"
  proof -
    have a: "n div 1000 mod 10 = n div 1000" using assms by simp
    have x: "n div 100 div 10 = n div 1000" "n div 10 div 10 = n div 100"
      using zdiv_zmult2_eq [of 10 n 100] zdiv_zmult2_eq [of 10 n 10] by simp_all
    have b: "n div 100 = 10 * (n div 1000) + n div 100 mod 10"
      using mult_div_mod_eq [of 10 "n div 100"] x(1) by simp
    have c: "n div 10 = 10 * (n div 100) + n div 10 mod 10"
      using mult_div_mod_eq [of 10 "n div 10"] x(2) by simp
    have d: "n = 10 * (n div 10) + n mod 10" by simp
    show ?thesis using a b c d by linarith
  qed
  finally show ?thesis .
qed

lemma iso_date_parts:
  "take 4 (iso_date y m d @ r) = pad4 y"
  "take 2 (drop 5 (iso_date y m d @ r)) = pad2 m"
  "take 2 (drop 8 (iso_date y m d @ r)) = pad2 d"
  "drop 10 (iso_date y m d @ r) = r"
  "(iso_date y m d @ r) ! 4 = CHR ''-''"
  "(iso_date y m d @ r) ! 7 = CHR ''-''"
  by (simp_all add: iso_date_def pad4_def pad3_def pad2_def)

lemma iso_date_length: "length (iso_date y m d) = 10"
  by (simp add: iso_date_def pad4_def pad3_def pad2_def)

lemma is_ymd_text_iso_date: "is_ymd_text (iso_date y m d)"
  using iso_date_parts [where r = "[]" and y = y and m = m and d = d]
  by (simp add: is_ymd_text_def pad2_digits pad4_digits iso_date_length)

lemma iso_ymd_iso_date:
  assumes "0 \<le> y" "y \<le> 9999" "0 \<le> m" "m < 100" "0 \<le> d" "d < 100"
  shows "iso_ymd (iso_date y m d @ ''T00:00:00Z'') = Some (y, m, d)"
proof -
  have len: "length (iso_date y m d @ ''T00:00:00Z'') = 20"
    by (simp add: iso_date_length)
  note p = iso_date_parts [where r = "''T00:00:00Z''" and y = y and m = m and d = d]
  show ?thesis
    unfolding iso_ymd_def p len
    using assms by (simp add: pad2_digits pad4_digits pad2_val pad4_val)
qed

lemma take10_iso_text:
  assumes "0 \<le> YearFromTime t" "YearFromTime t \<le> 9999"
  shows "take 10 (iso_text t) = iso_date (YearFromTime t) (MonthFromTime t + 1) (DateFromTime t)"
  using assms by (simp add: iso_text_def year_text_def iso_date_def pad4_def pad3_def pad2_def)

section \<open>Properties of the due date\<close>

lemma DayFromYear_0: "DayFromYear 0 = - 719528" and DayFromYear_10000: "DayFromYear 10000 = 2932897"
  by (simp_all add: DayFromYear_def)

lemma day_bounds:
  assumes "0 \<le> YearFromDay n" "YearFromDay n \<le> 9999"
  shows "- 719528 \<le> n \<and> n < 2932897"
proof -
  note s = YearFromDay_spec [of n]
  have "DayFromYear 0 \<le> DayFromYear (YearFromDay n)" using assms(1) by (rule DayFromYear_mono)
  moreover have "DayFromYear (YearFromDay n + 1) \<le> DayFromYear 10000"
    using assms(2) by (intro DayFromYear_mono) simp
  ultimately show ?thesis using s by (simp add: DayFromYear_0 DayFromYear_10000)
qed

lemma Day_of_days [simp]: "Day (n * msPerDay) = n"
  by (simp add: Day_def msPerDay_def)

lemma TimeClip_days: "- 719528 \<le> n \<Longrightarrow> n < 2932897 \<Longrightarrow> TimeClip (n * msPerDay) = Some (n * msPerDay)"
  by (simp add: TimeClip_def msPerDay_def)

lemma DaysInMonth_le: "DaysInMonth y m \<le> 31"
  by (simp add: DaysInMonth_def)

lemma date_of_day_number:
  assumes "valid_date y m d"
  shows "date_of_day (day_number y m d) = (y, m, d)"
  using assms time_of_valid_date [of m d y]
  by (simp add: date_of_day_def day_number_def valid_date_def calendar_date_def Let_def MakeDate_def)

lemma Date_parse_valid:
  assumes "valid_date y m d"
  shows "Date_parse eng (iso_date y m d @ ''T00:00:00Z'') = Some (day_number y m d * msPerDay)"
proof -
  have p: "iso_ymd (iso_date y m d @ ''T00:00:00Z'') = Some (y, m, d)"
    using assms DaysInMonth_le [of y m] by (intro iso_ymd_iso_date) (auto simp: valid_date_def calendar_date_def)
  have "YearFromDay (day_number y m d) = y"
    using date_of_day_number [OF assms] by (simp add: date_of_day_def Let_def YearFromTime_def)
  then have "TimeClip (day_number y m d * msPerDay) = Some (day_number y m d * msPerDay)"
    using assms day_bounds [of "day_number y m d"] by (intro TimeClip_days) (auto simp: valid_date_def calendar_date_def)
  then show ?thesis
    using assms DaysInMonth_le [of y m]
    by (auto simp: Date_parse_def p valid_date_def calendar_date_def MakeDate_def day_number_def)
qed

subsection \<open>Adding days is stepping through the calendar\<close>

text \<open>
  \<open>add_days\<close> goes through day numbers, as \<open>setUTCDate\<close> does. It agrees with the
  calendar: adding \<open>n\<close> days is taking the next day \<open>n\<close> times, and adding \<open>-n\<close> days gives
  the date from which \<open>n\<close> days lead back.
\<close>

lemma day_number_date_of_day:
  "date_of_day k = (y, m, d) \<Longrightarrow> day_number y m d = k"
  using MakeDay_of_time [of "k * msPerDay" "DateFromTime (k * msPerDay)"]
  by (auto simp: date_of_day_def day_number_def Let_def)

lemma add_days_add:
  "add_days (add_days (y, m, d) a) b = add_days (y, m, d) (a + b)"
proof -
  obtain y1 m1 d1 where e: "date_of_day (day_number y m d + a) = (y1, m1, d1)"
    by (cases "date_of_day (day_number y m d + a)") auto
  then show ?thesis
    using day_number_date_of_day [OF e] by (simp add: add_days_def add.assoc)
qed

lemma month_start_next:
  assumes "1 \<le> m" "m < 12"
  shows "month_start m (if DaysInYear y = 366 then 1 else 0)
           = month_start (m - 1) (if DaysInYear y = 366 then 1 else 0) + DaysInMonth y m"
proof -
  have "m = 1 \<or> m = 2 \<or> m = 3 \<or> m = 4 \<or> m = 5 \<or> m = 6 \<or> m = 7 \<or> m = 8 \<or> m = 9 \<or> m = 10
        \<or> m = 11"
    using assms by presburger
  then show ?thesis
    by (elim disjE) (simp_all add: month_start_def DaysInMonth_def)
qed

lemma day_number_next_day:
  assumes "calendar_date y m d" "next_day (y, m, d) = (y', m', d')"
  shows "day_number y' m' d' = day_number y m d + 1 \<and> calendar_date y' m' d'"
proof -
  have dm: "(m - 1) div 12 = 0" "(m - 1) mod 12 = m - 1"
    using assms(1) by (simp_all add: calendar_date_def)
  have pos: "1 \<le> DaysInMonth yy mm" for yy mm by (simp add: DaysInMonth_def)
  consider (a) "d < DaysInMonth y m" | (b) "d = DaysInMonth y m" "m < 12"
    | (c) "d = DaysInMonth y m" "m = 12"
    using assms(1) unfolding calendar_date_def by (cases "m = 12") force+
  then show ?thesis
  proof cases
    case a
    then show ?thesis
      using assms by (auto simp: next_day_def calendar_date_def day_number_def MakeDay_def dm Let_def)
  next
    case b
    then have n: "y' = y" "m' = m + 1" "d' = 1" using assms(2) by (auto simp: next_day_def)
    have dm': "m div 12 = 0" "m mod 12 = m" using assms(1) b by (simp_all add: calendar_date_def)
    show ?thesis
      using assms(1) b month_start_next [of m y] pos [of y "m + 1"]
      by (simp add: n calendar_date_def day_number_def MakeDay_def dm dm' Let_def)
  next
    case c
    then have n: "y' = y + 1" "m' = 1" "d' = 1" using assms(2) by (auto simp: next_day_def)
    have "DaysInMonth y 12 = 31" by (simp add: DaysInMonth_def)
    then show ?thesis
      using c DayFromYear_Suc [of y] DaysInYear_cases [of y] pos [of "y + 1" 1]
      by (auto simp: n calendar_date_def day_number_def MakeDay_def Let_def month_start_def)
  qed
qed

lemma date_of_day_calendar:
  "calendar_date y m d \<Longrightarrow> date_of_day (day_number y m d) = (y, m, d)"
  using time_of_valid_date [of m d y]
  by (simp add: date_of_day_def day_number_def calendar_date_def Let_def MakeDate_def)

lemma add_days_one:
  assumes "calendar_date y m d"
  shows "add_days (y, m, d) 1 = next_day (y, m, d)"
proof -
  obtain y' m' d' where n: "next_day (y, m, d) = (y', m', d')"
    by (cases "next_day (y, m, d)") auto
  then show ?thesis
    using day_number_next_day [OF assms n] date_of_day_calendar [of y' m' d']
    by (simp add: add_days_def)
qed

lemma next_day_calendar:
  "calendar_date y m d \<Longrightarrow> (case next_day (y, m, d) of (y', m', d') \<Rightarrow> calendar_date y' m' d')"
  using day_number_next_day [of y m d] by (cases "next_day (y, m, d)") auto

lemma funpow_next_day_calendar:
  "calendar_date y m d \<Longrightarrow> (case (next_day ^^ n) (y, m, d) of (y', m', d') \<Rightarrow> calendar_date y' m' d')"
proof (induction n)
  case 0
  then show ?case by simp
next
  case (Suc n)
  then show ?case
    using next_day_calendar by (cases "(next_day ^^ n) (y, m, d)") auto
qed

lemma add_days_iterates_next_day:
  assumes "calendar_date y m d"
  shows "add_days (y, m, d) (int n) = (next_day ^^ n) (y, m, d)"
proof (induction n)
  case 0
  then show ?case using date_of_day_calendar [OF assms] by (simp add: add_days_def)
next
  case (Suc n)
  obtain y1 m1 d1 where e: "(next_day ^^ n) (y, m, d) = (y1, m1, d1)"
    by (cases "(next_day ^^ n) (y, m, d)") auto
  then have c: "calendar_date y1 m1 d1"
    using funpow_next_day_calendar [OF assms, of n] by simp
  have "add_days (y, m, d) (int (Suc n)) = add_days (add_days (y, m, d) (int n)) 1"
    by (simp add: add_days_add add.commute)
  also have "\<dots> = next_day (y1, m1, d1)"
    using Suc e add_days_one [OF c] by simp
  finally show ?case by (simp add: e)
qed

lemma add_days_back:
  "add_days (y, m, d) (- int n) = (y', m', d') \<Longrightarrow> calendar_date y m d \<Longrightarrow>
     add_days (y', m', d') (int n) = (y, m, d)"
  using add_days_add [of y m d "- int n" "int n"] date_of_day_calendar [of y m d]
  by (simp add: add_days_def)


subsection \<open>The due date of a rule\<close>

lemma due_tail:
  "(case X of
      None \<Rightarrow> Some t
    | Some k \<Rightarrow> if k \<noteq> 0 then setUTCDate (Some t) (map_option (\<lambda>g. g + k) (getUTCDate (Some t)))
                else Some t)
   = (if (case X of None \<Rightarrow> 0 | Some k \<Rightarrow> k) = 0 then Some t
      else TimeClip (t + (case X of None \<Rightarrow> 0 | Some k \<Rightarrow> k) * msPerDay))"
  by (cases X) (simp_all add: setUTCDate_shift)

lemma iso_date_nonempty: "iso_date y m d \<noteq> []"
  using iso_date_length [of y m d] by auto

text \<open>The conversion of \<open>dueInDays\<close>: what it gives for each kind of value, and when it throws.\<close>

lemma dueInDays_number_cases:
  "jget c ''dueInDays'' = None \<Longrightarrow> dueInDays_number eng c = Inr (Some 0)"
  "jget c ''dueInDays'' = Some JNull \<Longrightarrow> dueInDays_number eng c = Inr (Some 0)"
  "jget c ''dueInDays'' = Some (JNum n) \<Longrightarrow> dueInDays_number eng c = Inr (Some n)"
  "jget c ''dueInDays'' = Some (JBool b) \<Longrightarrow> dueInDays_number eng c = Inr (Some (if b then 1 else 0))"
  "jget c ''dueInDays'' = Some (JStr s) \<Longrightarrow> dueInDays_number eng c = Inr (StringToNumber eng s)"
  "jget c ''dueInDays'' = Some (JObj kvs) \<Longrightarrow> map_of kvs ''toString'' = None \<Longrightarrow>
     dueInDays_number eng c = Inr (StringToNumber eng ''[object Object]'')"
  "jget c ''dueInDays'' = Some (JObj kvs) \<Longrightarrow> map_of kvs ''toString'' = Some v \<Longrightarrow>
     dueInDays_number eng c = Inl TypeError"
  by (simp_all add: dueInDays_number_def)

lemma due_days_number:
  "jget c ''dueInDays'' = Some (JNum n) \<or> jget c ''dueInDays'' = None \<and> n = 0 \<Longrightarrow>
     dueInDays_number eng c = Inr (Some n)"
  by (auto simp: dueInDays_number_def)

lemma due_days_Inr:
  "dueInDays_number eng c = Inr k \<Longrightarrow> due_days eng c = (case k of None \<Rightarrow> 0 | Some n \<Rightarrow> n)"
  by (simp add: due_days_def split: option.split)

text \<open>The only error of a conversion is the \<open>TypeError\<close>, and a value that is neither an object
  nor an array converts.\<close>

lemma to_str_error:
  "to_str v = Inl e \<Longrightarrow> e = TypeError"
  "to_str_elems vs = Inl e \<Longrightarrow> e = TypeError"
  by (induction v and vs arbitrary: e and e rule: to_str_to_str_elems.induct)
     (auto split: sum.splits if_splits)

lemma to_number_error: "to_number eng v = Inl e \<Longrightarrow> e = TypeError"
  by (cases v) (auto split: sum.splits simp del: to_str.simps dest: to_str_error(1))

lemma dueInDays_number_error: "dueInDays_number eng c = Inl e \<Longrightarrow> e = TypeError"
  unfolding dueInDays_number_def
  by (auto split: option.splits json.splits simp del: to_number.simps dest: to_number_error)

lemma to_str_primitive:
  "to_str JNull = Inr ''null''" "to_str (JBool b) = Inr (if b then ''true'' else ''false'')"
  "to_str (JNum n) = Inr (show_int n)" "to_str (JStr s) = Inr s"
  by simp_all

text \<open>What \<open>!base\<close> means for the value read from the profile: the key names neither a field of
  the form nor an inherited member, or it names a field that is not set, or a field whose value
  is \<open>false\<close>, \<open>0\<close> or the empty string.\<close>

lemma payload_get_falsy_iff:
  "jsval_falsy (payload_get p key)
     \<longleftrightarrow> (map_of (payload_fields p) key = None \<and> key \<notin> set object_prototype_members)
         \<or> map_of (payload_fields p) key = Some Undefined
         \<or> (\<exists>v. map_of (payload_fields p) key = Some (Val v) \<and> falsy v)"
proof (cases "map_of (payload_fields p) key")
  case None
  then show ?thesis by (simp add: payload_get_def)
next
  case (Some b)
  then show ?thesis by (cases b) (simp_all add: payload_get_def)
qed

lemma computeDueDate_valid:
  assumes "dueInDays_number eng c = Inr k"
    and "jget c ''dueFrom'' = Some df" "\<not> falsy df" "to_str df = Inr key"
    and "payload_get p key = Val (JStr (iso_date y m d))"
    and "valid_date y m d"
    and "add_days (y, m, d) (case k of None \<Rightarrow> 0 | Some n \<Rightarrow> n) = (y', m', d')"
    and "0 \<le> y'" "y' \<le> 9999"
  shows "computeDueDate eng c p = Inr (Some (iso_date y' m' d'))"
proof -
  define n where "n = (case k of None \<Rightarrow> 0 | Some n \<Rightarrow> n)"
  define t where "t = day_number y m d * msPerDay"
  define t' where "t' = (day_number y m d + n) * msPerDay"
  have res: "YearFromTime t' = y'" "MonthFromTime t' + 1 = m'" "DateFromTime t' = d'"
    using assms(7) by (simp_all add: add_days_def date_of_day_def Let_def n_def t'_def)
  have yd: "YearFromDay (day_number y m d + n) = y'"
    using res(1) by (simp add: YearFromTime_def t'_def)
  have clip: "TimeClip t' = Some t'"
    unfolding t'_def using day_bounds [of "day_number y m d + n"] assms(8,9) yd
    by (intro TimeClip_days) auto
  have tt: "t + n * msPerDay = t'" by (simp add: t_def t'_def algebra_simps)
  have zero: "n = 0 \<Longrightarrow> t = t'" using tt by simp
  have tail: "(case k of
                 None \<Rightarrow> Some t
               | Some j \<Rightarrow> if j \<noteq> 0
                   then setUTCDate (Some t) (map_option (\<lambda>g. g + j) (getUTCDate (Some t)))
                   else Some t) = Some t'"
    unfolding due_tail using clip tt zero by (auto simp: n_def)
  have "computeDueDate eng c p = Inr (Some (take 10 (iso_text t')))"
    using assms(1-5) Date_parse_valid [OF assms(6), of eng] tail [unfolded t_def]
    by (simp add: computeDueDate_def Let_def iso_date_nonempty toISOString_def)
  then show ?thesis
    using take10_iso_text [of t'] res assms(8,9) by simp
qed

lemma computeDueDate_none:
  "dueInDays_number eng c = Inr k \<Longrightarrow> jget c ''dueFrom'' = None \<Longrightarrow> computeDueDate eng c p = Inr None"
  "dueInDays_number eng c = Inr k \<Longrightarrow> jget c ''dueFrom'' = Some df \<Longrightarrow> falsy df \<Longrightarrow>
     computeDueDate eng c p = Inr None"
  "dueInDays_number eng c = Inr k \<Longrightarrow> jget c ''dueFrom'' = Some df \<Longrightarrow> to_str df = Inr key \<Longrightarrow>
     jsval_falsy (payload_get p key) \<Longrightarrow> computeDueDate eng c p = Inr None"
  by (simp_all add: computeDueDate_def Let_def)

lemma computeDueDate_throws:
  "dueInDays_number eng c = Inl e \<Longrightarrow> computeDueDate eng c p = Inl e"
  "dueInDays_number eng c = Inr k \<Longrightarrow> jget c ''dueFrom'' = Some df \<Longrightarrow> \<not> falsy df \<Longrightarrow>
     to_str df = Inl e \<Longrightarrow> computeDueDate eng c p = Inl e"
  by (simp_all add: computeDueDate_def Let_def)

lemma computeDueDate_invalid:
  assumes "dueInDays_number eng c = Inr k"
    and "jget c ''dueFrom'' = Some df" "\<not> falsy df" "to_str df = Inr key"
    and "payload_get p key = Val (JStr s)" "s \<noteq> []"
    and "iso_ymd (s @ ''T00:00:00Z'') = Some (y, m, d)"
    and "\<not> (1 \<le> m \<and> m \<le> 12 \<and> 1 \<le> d \<and> d \<le> (if lenient_day eng then 31 else DaysInMonth y m))"
  shows "computeDueDate eng c p = Inl RangeError"
proof -
  have "Date_parse eng (s @ ''T00:00:00Z'') = None"
    using assms(7,8) by (auto simp: Date_parse_def)
  then show ?thesis
    using assms(1-6)
    by (auto simp: computeDueDate_def Let_def toISOString_def setUTCDate_def split: option.split)
qed

text \<open>
  C4 (as amended). If \<open>dueFrom\<close> names a profile field that holds a valid calendar date
  \<open>YYYY-MM-DD\<close>, \<open>dueInDays\<close> is an integer \<open>n\<close> (negative, zero, or omitted, which counts as
  zero) and the date \<open>n\<close> days later lies in the years 0000 to 9999, then the due date is
  the text of that later date; with \<open>n = 0\<close> it is the source date itself. If the conversion
  \<open>Number(dueInDays)\<close> does not throw and either \<open>dueFrom\<close> is missing or falsy (\<open>null\<close>,
  \<open>false\<close>, \<open>0\<close>, the empty string), or the value read from the profile under the key
  \<open>String(dueFrom)\<close> is \<open>undefined\<close> or falsy, then no due date is produced and no error is
  raised. On every engine.
\<close>

theorem due_date_is_source_plus_days:
  "(jget c ''dueFrom'' = Some (JStr f) \<and> f \<noteq> []
      \<and> payload_get p f = Val (JStr (iso_date y m d)) \<and> valid_date y m d
      \<and> (jget c ''dueInDays'' = Some (JNum n) \<or> jget c ''dueInDays'' = None \<and> n = 0)
      \<and> add_days (y, m, d) n = (y', m', d') \<and> 0 \<le> y' \<and> y' \<le> 9999
      \<longrightarrow> computeDueDate eng c p = Inr (Some (iso_date y' m' d'))
          \<and> (n = 0 \<longrightarrow> (y', m', d') = (y, m, d)))
   \<and> (dueInDays_number eng c = Inr k
        \<and> (jget c ''dueFrom'' = None
           \<or> (\<exists>df. jget c ''dueFrom'' = Some df
                 \<and> (falsy df
                    \<or> (\<exists>key. to_str df = Inr key \<and> jsval_falsy (payload_get p key)))))
      \<longrightarrow> computeDueDate eng c p = Inr None)"
proof (intro conjI impI)
  assume a: "jget c ''dueFrom'' = Some (JStr f) \<and> f \<noteq> []
      \<and> payload_get p f = Val (JStr (iso_date y m d)) \<and> valid_date y m d
      \<and> (jget c ''dueInDays'' = Some (JNum n) \<or> jget c ''dueInDays'' = None \<and> n = 0)
      \<and> add_days (y, m, d) n = (y', m', d') \<and> 0 \<le> y' \<and> y' \<le> 9999"
  then have n: "dueInDays_number eng c = Inr (Some n)" using due_days_number by blast
  show "computeDueDate eng c p = Inr (Some (iso_date y' m' d'))"
    using a computeDueDate_valid [OF n, of "JStr f" f p y m d y' m' d'] by simp
  show "(y', m', d') = (y, m, d)" if "n = 0"
    using a that date_of_day_number [of y m d] by (simp add: add_days_def)
next
  assume "dueInDays_number eng c = Inr k
        \<and> (jget c ''dueFrom'' = None
           \<or> (\<exists>df. jget c ''dueFrom'' = Some df
                 \<and> (falsy df
                    \<or> (\<exists>key. to_str df = Inr key \<and> jsval_falsy (payload_get p key)))))"
  then show "computeDueDate eng c p = Inr None"
    using computeDueDate_none [of eng c k] by blast
qed

text \<open>\<open>firstPayrollDate = "2024-01-01"\<close> with \<open>dueInDays: 30\<close> gives \<open>"2024-01-31"\<close>; a profile
  without the field gives no due date.\<close>

theorem due_date_is_source_plus_days_witness:
  "computeDueDate sample_engine (due_rule 30) (payroll_on ''2024-01-01'') = Inr (Some ''2024-01-31'')
   \<and> computeDueDate sample_engine (due_rule 30) defaultBusinessForm = Inr None"
proof -
  have g: "jget (due_rule 30) ''dueFrom'' = Some (JStr ''firstPayrollDate'')"
    "jget (due_rule 30) ''dueInDays'' = Some (JNum 30)"
    by (simp_all add: due_rule_def)
  have k: "dueInDays_number sample_engine (due_rule 30) = Inr (Some 30)"
    using g(2) by (rule dueInDays_number_cases(3))
  have f: "payload_get (payroll_on ''2024-01-01'') ''firstPayrollDate'' = Val (JStr (iso_date 2024 1 1))"
    by code_simp
  have v: "valid_date 2024 1 1" by code_simp
  have s: "add_days (2024, 1, 1) 30 = (2024, 1, 31)" by code_simp
  have i: "iso_date 2024 1 31 = ''2024-01-31''" by code_simp
  have u: "to_str (JStr ''firstPayrollDate'') = Inr ''firstPayrollDate''"
    "jsval_falsy (payload_get defaultBusinessForm ''firstPayrollDate'')"
    by code_simp+
  have 1: "computeDueDate sample_engine (due_rule 30) (payroll_on ''2024-01-01'') = Inr (Some ''2024-01-31'')"
    using due_date_is_source_plus_days
      [of "due_rule 30" "''firstPayrollDate''" "payroll_on ''2024-01-01''" 2024 1 1 30 2024 1 31 sample_engine]
      g f v s i by simp
  have 2: "computeDueDate sample_engine (due_rule 30) defaultBusinessForm = Inr None"
    using due_date_is_source_plus_days
      [of "due_rule 30" _ defaultBusinessForm _ _ _ _ _ _ _ sample_engine "Some 30"]
      g(1) k u by blast
  show ?thesis using 1 2 by (rule conjI)
qed

text \<open>One day after 9999-12-31 is 10000-01-01; the due date produced is the first ten
  characters of \<open>+010000-01-01T00:00:00.000Z\<close>, which is no date.\<close>

theorem due_date_year_overflow_counterexample:
  "valid_date 9999 12 31
   \<and> payload_get (payroll_on ''9999-12-31'') ''firstPayrollDate'' = Val (JStr (iso_date 9999 12 31))
   \<and> add_days (9999, 12, 31) 1 = (10000, 1, 1)
   \<and> computeDueDate sample_engine (due_rule 1) (payroll_on ''9999-12-31'') = Inr (Some ''+010000-01'')"
  by code_simp

text \<open>
  What the second part of C4 leaves out, on purpose. A \<open>dueInDays\<close> that is an object with an
  own key \<open>toString\<close> makes \<open>Number\<close> throw before \<open>dueFrom\<close> is looked at, even when \<open>dueFrom\<close> is
  missing; so does such a \<open>dueFrom\<close>, as a property key. A \<open>dueFrom\<close> that names no field of
  the form but a member every object inherits (\<open>toString\<close>) reads a function, and one that
  names a list field reads an array, empty or not: both are truthy, the text they give is
  no date, and \<open>toISOString\<close> throws.
\<close>

lemma due_in_days_unconvertible:
  "jget bad_offset_rule ''dueFrom'' = None \<and> computeDueDate eng bad_offset_rule p = Inl TypeError"
  by (simp add: computeDueDate_def dueInDays_number_def bad_offset_rule_def unconvertible_def)

lemma due_from_unconvertible:
  "computeDueDate eng bad_source_rule p = Inl TypeError"
  by (simp add: computeDueDate_def dueInDays_number_def bad_source_rule_def unconvertible_def)

lemma inherited_member_read:
  "map_of (payload_fields p) ''toString'' = None \<and> payload_get p ''toString'' = Builtin ''toString''"
  by (simp add: payload_get_def payload_fields_def object_prototype_members_def)

lemma due_from_inherited_member:
  "computeDueDate sample_engine inherited_source_rule p = Inl RangeError"
proof -
  have "Date_parse sample_engine (native_text ''toString'' @ ''T00:00:00Z'') = None"
    by code_simp
  then show ?thesis
    using inherited_member_read [of p]
    by (simp add: computeDueDate_def dueInDays_number_def inherited_source_rule_def Let_def
        sample_engine_def toISOString_def)
qed

lemma due_from_list_field:
  "otherStates defaultBusinessForm = []
   \<and> computeDueDate sample_engine list_source_rule defaultBusinessForm = Inl RangeError"
  by code_simp


text \<open>
  C10 (as amended). \<open>computeDueDate\<close> returns no due date when \<open>Number(dueInDays)\<close> does not
  throw and \<open>dueFrom\<close> is missing or falsy, or the value read from the profile under the key
  \<open>String(dueFrom)\<close> is \<open>undefined\<close> or falsy; it returns a text of the shape \<open>YYYY-MM-DD\<close>
  when that value is a valid calendar date and the shifted date lies in the years 0000 to
  9999. It throws a \<open>RangeError\<close> when the value is a text of that shape whose month is not
  01 to 12 or whose day is not 01 to 31 (on an engine that does not carry days over: not
  within the month), and it throws the error of a conversion of \<open>dueInDays\<close>, or of a truthy
  \<open>dueFrom\<close>, that throws.
\<close>

theorem due_date_total_or_range_error:
  "(dueInDays_number eng c = Inr k
        \<and> (jget c ''dueFrom'' = None
           \<or> (\<exists>df. jget c ''dueFrom'' = Some df
                 \<and> (falsy df
                    \<or> (\<exists>key. to_str df = Inr key \<and> jsval_falsy (payload_get p key)))))
      \<longrightarrow> computeDueDate eng c p = Inr None)
   \<and> (dueInDays_number eng c = Inr k
        \<and> jget c ''dueFrom'' = Some df \<and> \<not> falsy df \<and> to_str df = Inr key
        \<and> payload_get p key = Val (JStr (iso_date y m d)) \<and> valid_date y m d
        \<and> add_days (y, m, d) (due_days eng c) = (y', m', d') \<and> 0 \<le> y' \<and> y' \<le> 9999
      \<longrightarrow> (\<exists>s. computeDueDate eng c p = Inr (Some s) \<and> is_ymd_text s))
   \<and> (dueInDays_number eng c = Inr k
        \<and> jget c ''dueFrom'' = Some df \<and> \<not> falsy df \<and> to_str df = Inr key
        \<and> payload_get p key = Val (JStr s) \<and> s \<noteq> []
        \<and> iso_ymd (s @ ''T00:00:00Z'') = Some (y2, m2, d2)
        \<and> \<not> (1 \<le> m2 \<and> m2 \<le> 12 \<and> 1 \<le> d2
               \<and> d2 \<le> (if lenient_day eng then 31 else DaysInMonth y2 m2))
      \<longrightarrow> computeDueDate eng c p = Inl RangeError)
   \<and> (dueInDays_number eng c = Inl e
        \<or> (dueInDays_number eng c = Inr k
            \<and> jget c ''dueFrom'' = Some df \<and> \<not> falsy df \<and> to_str df = Inl e)
      \<longrightarrow> computeDueDate eng c p = Inl e \<and> e = TypeError)"
proof (intro conjI impI)
  assume "dueInDays_number eng c = Inr k
        \<and> (jget c ''dueFrom'' = None
           \<or> (\<exists>df. jget c ''dueFrom'' = Some df
                 \<and> (falsy df
                    \<or> (\<exists>key. to_str df = Inr key \<and> jsval_falsy (payload_get p key)))))"
  then show "computeDueDate eng c p = Inr None"
    using computeDueDate_none [of eng c k] by blast
next
  assume a: "dueInDays_number eng c = Inr k
        \<and> jget c ''dueFrom'' = Some df \<and> \<not> falsy df \<and> to_str df = Inr key
        \<and> payload_get p key = Val (JStr (iso_date y m d)) \<and> valid_date y m d
        \<and> add_days (y, m, d) (due_days eng c) = (y', m', d') \<and> 0 \<le> y' \<and> y' \<le> 9999"
  then have "due_days eng c = (case k of None \<Rightarrow> 0 | Some n \<Rightarrow> n)"
    using due_days_Inr by blast
  then have "computeDueDate eng c p = Inr (Some (iso_date y' m' d'))"
    using a computeDueDate_valid [of eng c k df key p y m d y' m' d'] by simp
  then show "\<exists>s. computeDueDate eng c p = Inr (Some s) \<and> is_ymd_text s"
    using is_ymd_text_iso_date by blast
next
  assume "dueInDays_number eng c = Inr k
        \<and> jget c ''dueFrom'' = Some df \<and> \<not> falsy df \<and> to_str df = Inr key
        \<and> payload_get p key = Val (JStr s) \<and> s \<noteq> []
        \<and> iso_ymd (s @ ''T00:00:00Z'') = Some (y2, m2, d2)
        \<and> \<not> (1 \<le> m2 \<and> m2 \<le> 12 \<and> 1 \<le> d2
               \<and> d2 \<le> (if lenient_day eng then 31 else DaysInMonth y2 m2))"
  then show "computeDueDate eng c p = Inl RangeError"
    using computeDueDate_invalid [of eng c k df key p s y2 m2 d2] by blast
next
  assume a: "dueInDays_number eng c = Inl e
        \<or> (dueInDays_number eng c = Inr k
            \<and> jget c ''dueFrom'' = Some df \<and> \<not> falsy df \<and> to_str df = Inl e)"
  then show "computeDueDate eng c p = Inl e"
    using computeDueDate_throws(1) [of eng c e] computeDueDate_throws(2) [of eng c k df e] by blast
  show "e = TypeError"
    using a dueInDays_number_error to_str_error(1) by blast
qed

theorem due_date_total_or_range_error_witness:
  "computeDueDate sample_engine (due_rule (- 45)) defaultBusinessForm = Inr None
   \<and> computeDueDate sample_engine (due_rule (- 45)) (payroll_on ''2024-03-31'') = Inr (Some ''2024-02-15'')
   \<and> is_ymd_text ''2024-02-15''
   \<and> computeDueDate sample_engine (due_rule (- 45)) (payroll_on ''2024-13-01'') = Inl RangeError
   \<and> computeDueDate sample_engine bad_offset_rule (payroll_on ''2024-03-31'') = Inl TypeError
   \<and> computeDueDate sample_engine bad_source_rule (payroll_on ''2024-03-31'') = Inl TypeError"
proof -
  have g: "jget (due_rule (- 45)) ''dueFrom'' = Some (JStr ''firstPayrollDate'')"
    "\<not> falsy (JStr ''firstPayrollDate'')" "to_str (JStr ''firstPayrollDate'') = Inr ''firstPayrollDate''"
    by (simp_all add: due_rule_def)
  have k: "dueInDays_number sample_engine (due_rule (- 45)) = Inr (Some (- 45))"
    by (simp add: dueInDays_number_def due_rule_def)
  have u: "jsval_falsy (payload_get defaultBusinessForm ''firstPayrollDate'')"
    by code_simp
  have f: "payload_get (payroll_on ''2024-03-31'') ''firstPayrollDate'' = Val (JStr (iso_date 2024 3 31))"
    "payload_get (payroll_on ''2024-13-01'') ''firstPayrollDate'' = Val (JStr ''2024-13-01'')"
    by code_simp+
  have v: "valid_date 2024 3 31" by code_simp
  have s: "add_days (2024, 3, 31) (due_days sample_engine (due_rule (- 45))) = (2024, 2, 15)" by code_simp
  have e: "computeDueDate sample_engine (due_rule (- 45)) (payroll_on ''2024-03-31'') = Inr (Some ''2024-02-15'')"
    by code_simp
  have b: "iso_ymd (''2024-13-01'' @ ''T00:00:00Z'') = Some (2024, 13, 1)" by code_simp
  have x: "dueInDays_number sample_engine bad_offset_rule = Inl TypeError"
    "dueInDays_number sample_engine bad_source_rule = Inr (Some 0)"
    "jget bad_source_rule ''dueFrom'' = Some unconvertible" "\<not> falsy unconvertible"
    "to_str unconvertible = Inl TypeError"
    by (simp_all add: dueInDays_number_def bad_offset_rule_def bad_source_rule_def unconvertible_def)
  note t = due_date_total_or_range_error
  have 1: "computeDueDate sample_engine (due_rule (- 45)) defaultBusinessForm = Inr None"
    using t [of sample_engine "due_rule (- 45)" "Some (- 45)" defaultBusinessForm] g k u by auto
  have 2: "is_ymd_text ''2024-02-15''"
    using t [of sample_engine "due_rule (- 45)" "Some (- 45)" "payroll_on ''2024-03-31''"
        "JStr ''firstPayrollDate''" "''firstPayrollDate''" 2024 3 31 2024 2 15] g k f(1) v s e
    by auto
  have 3: "computeDueDate sample_engine (due_rule (- 45)) (payroll_on ''2024-13-01'') = Inl RangeError"
    using t [of sample_engine "due_rule (- 45)" "Some (- 45)" "payroll_on ''2024-13-01''"
        "JStr ''firstPayrollDate''" "''firstPayrollDate''" _ _ _ _ _ _ "''2024-13-01''" 2024 13 1] g k f(2) b
    by simp
  have 4: "computeDueDate sample_engine bad_offset_rule (payroll_on ''2024-03-31'') = Inl TypeError"
    using t [of sample_engine bad_offset_rule _ "payroll_on ''2024-03-31''" _ _ _ _ _ _ _ _ _ _ _ _ TypeError]
      x(1) by simp
  have 5: "computeDueDate sample_engine bad_source_rule (payroll_on ''2024-03-31'') = Inl TypeError"
    using t [of sample_engine bad_source_rule "Some 0" "payroll_on ''2024-03-31''" unconvertible
        _ _ _ _ _ _ _ _ _ _ _ TypeError]
      x(2-5) by simp
  show ?thesis by (intro conjI 1 e 2 3 4 5)
qed

text \<open>A valid date with an offset of 1000000000 days leaves the range of time values:
  \<open>toISOString\<close> throws.\<close>

theorem due_date_large_offset_counterexample:
  "valid_date 2024 1 1
   \<and> payload_get (payroll_on ''2024-01-01'') ''firstPayrollDate'' = Val (JStr (iso_date 2024 1 1))
   \<and> computeDueDate sample_engine (due_rule 1000000000) (payroll_on ''2024-01-01'') = Inl RangeError"
  by code_simp

text \<open>\<open>"2024-02-30"\<close> is carried over to 1 March by an engine that accepts days up to 31, and is
  an invalid date for an engine that does not.\<close>

lemma feb_30_lenient:
  "computeDueDate sample_engine (due_rule 0) (payroll_on ''2024-02-30'') = Inr (Some ''2024-03-01'')"
  by code_simp

lemma feb_30_strict:
  "computeDueDate strict_engine (due_rule 0) (payroll_on ''2024-02-30'') = Inl RangeError"
  by code_simp

lemma negative_offset:
  "computeDueDate sample_engine (due_rule (- 1)) (payroll_on ''2024-03-01'') = Inr (Some ''2024-02-29'')"
  by code_simp


end
